(* ===== verification/Mysql_Error.thy ===== *)
theory Mysql_Error
  imports Main "HOL-Library.Word"
begin

text \<open>
  The error values of the program: the sentinels of \<^verbatim>\<open>mysql/error.go\<close> and \<^verbatim>\<open>server/client.go\<close>, the
  two structured errors, the errors of the standard library that the code compares or passes on,
  and one constructor for every \<^verbatim>\<open>fmt.Errorf\<close> of the modelled code, with the values it formats.
\<close>

type_synonym byte = "8 word"
type_synonym u16 = "16 word"
type_synonym u32 = "32 word"
type_synonym u64 = "64 word"

text \<open>\<^verbatim>\<open>SQLError\<close>, what the proxy tells its clients; \<^verbatim>\<open>MySQLError\<close>, what the database tells the proxy.\<close>

record SQLError =
  Code :: u16
  Message :: "byte list"
  State :: "byte list"

record MySQLError =
  Number :: u16
  MyMessage :: "byte list"

text \<open>What a socket operation can report besides success.\<close>

datatype sock_err = EOF | NetErr nat

datatype gerror =
    ErrBadConn | ErrMalformPacket
  | ErrInvalidConn | ErrMalformPkt | ErrNoTLS | ErrOldPassword | ErrCleartextPassword
  | ErrUnknownPlugin | ErrOldProtocol | ErrPktSync | ErrPktSyncMul | ErrPktTooLarge | ErrBusyBuffer
  | ErrNotfoundDB | ErrCannotGetConn
  | SqlErr SQLError | MySqlErr MySQLError
  | DriverBadConn | UnexpectedEOF | SockErr sock_err
  | NotSupport | UnknownCollation | StmtWarnings
  | ProtocolVersion byte | ColumnMismatch int nat | UnsupportedCmd byte "byte list"
  | InvalidTimeString "byte list" | InvalidDatetimeLength u64 | ScanType
  | IllegalTimeLength byte | InvalidTimePacket nat
  | IllegalDateLength "byte list" byte | IllegalDatePacket "byte list" nat
  | TimeParse | ReservedKey "byte list" | AddrNotSet
  | UnknownAdapter "byte list" | NoFilename | NoAddr | JsonError | NoFreeLogNumber "byte list" | OsError nat
  | NilLogger

end
