(* ===== verification/Go_Prelude.thy ===== *)
theory Go_Prelude
  imports Mysql_Error
begin

text \<open>
  What the components share: Go's fixed-width integers, the outcome of a Go call (a value, an
  error, a run-time panic, a loop that never ends), slices with the memory behind their
  capacity, \<open>copy\<close>, and the two rules that thread a state through a sequence of calls.
\<close>

unbundle bit_operations_syntax

named_theorems outcome_simps \<open>rules that push a call's outcome through the calls after it\<close>
named_theorems codec_simps \<open>rules that evaluate the byte codecs\<close>

section \<open>Integers and bytes\<close>

text \<open>Go's \<open>int\<close> is 64 bits wide on the platforms the program targets: an \<open>int\<close> of the model is
  always the value of one, and an addition that may overflow is wrapped.\<close>

definition wrap64 :: "int \<Rightarrow> int" where
  "wrap64 i = sint (word_of_int i :: u64)"

lemma wrap64_id: "- (2 ^ 63) \<le> i \<Longrightarrow> i < 2 ^ 63 \<Longrightarrow> wrap64 i = i"
  unfolding wrap64_def
  by (simp add: sint_word_ariths signed_of_int signed_take_bit_int_eq_self)

lemma wrap64_neg: "2 ^ 63 \<le> i \<Longrightarrow> i < 2 ^ 64 \<Longrightarrow> wrap64 i = i - 2 ^ 64"
proof -
  assume "2 ^ 63 \<le> i" and "i < 2 ^ 64"
  have "word_of_int (2 ^ 64) = (0 :: u64)" by simp
  then have "word_of_int (i - 2 ^ 64) = (word_of_int i :: u64)"
    by (simp only: of_int_diff diff_zero)
  then have "wrap64 i = wrap64 (i - 2 ^ 64)" by (simp only: wrap64_def)
  also have "\<dots> = i - 2 ^ 64"
    using \<open>2 ^ 63 \<le> i\<close> \<open>i < 2 ^ 64\<close> by (intro wrap64_id) auto
  finally show ?thesis .
qed

text \<open>The bytes of a string literal of the source.\<close>

definition str :: "string \<Rightarrow> byte list" where
  "str s = map of_char s"

lemma length_str [simp]: "length (str s) = length s"
  by (simp add: str_def)

section \<open>Outcomes of a call\<close>

text \<open>
  A Go call returns its value (\<open>Ok\<close>), returns a non-nil error (\<open>Err\<close>), panics (\<open>Panic\<close>: an
  index out of range, a nil pointer, a closed channel), or spins for ever (\<open>Spin\<close>).
\<close>

datatype 'a res = Ok 'a | Err gerror | Panic | Spin

definition returns :: "'a res \<Rightarrow> bool" where
  "returns r \<longleftrightarrow> (case r of Ok _ \<Rightarrow> True | Err _ \<Rightarrow> True | Panic \<Rightarrow> False | Spin \<Rightarrow> False)"

lemma returns_simps [simp]:
  "returns (Ok a)" "returns (Err e)" "\<not> returns Panic" "\<not> returns Spin"
  by (simp_all add: returns_def)

text \<open>\<open>bindR\<close> sequences calls that keep no state, \<open>bindS\<close> calls that thread one: after anything
  but a value, what follows is skipped and the state stays as the failed call left it.\<close>

fun bindR :: "'a res \<Rightarrow> ('a \<Rightarrow> 'b res) \<Rightarrow> 'b res" where
  "bindR (Ok a) f = f a"
| "bindR (Err e) f = Err e"
| "bindR Panic f = Panic"
| "bindR Spin f = Spin"

fun bindS :: "'a res \<times> 's \<Rightarrow> ('a \<Rightarrow> 's \<Rightarrow> 'b res \<times> 's) \<Rightarrow> 'b res \<times> 's" where
  "bindS (Ok a, s) f = f a s"
| "bindS (Err e, s) f = (Err e, s)"
| "bindS (Panic, s) f = (Panic, s)"
| "bindS (Spin, s) f = (Spin, s)"

declare bindR.simps [outcome_simps] bindS.simps [outcome_simps]

lemma bindR_Ok_iff: "bindR r f = Ok b \<longleftrightarrow> (\<exists>a. r = Ok a \<and> f a = Ok b)"
  by (cases r) auto

lemma bindS_Ok_iff:
  "bindS rs f = (Ok b, t) \<longleftrightarrow> (\<exists>a s. rs = (Ok a, s) \<and> f a s = (Ok b, t))"
  by (cases rs; cases "fst rs") auto

text \<open>A predicate on the state that every call keeps is kept by a sequence of calls.\<close>

lemma bindS_inv:
  assumes "P (snd rs)" and "\<And>a s. rs = (Ok a, s) \<Longrightarrow> P s \<Longrightarrow> P (snd (f a s))"
  shows "P (snd (bindS rs f))"
  using assms by (cases rs; cases "fst rs") auto

section \<open>Slices\<close>

text \<open>
  A slice shows the elements up to its length; the array behind it goes on up to its capacity,
  and slicing \<open>s[i:j]\<close> may reach there, while indexing \<open>s[i]\<close> and \<open>s[i:]\<close> may not. \<open>vis\<close> and \<open>ext\<close>
  are the contents when the slice was made; \<open>org\<close> says where it lies when it is a part of a
  connection's buffer (which of the buffer's arrays, and at which offset), so that what a later
  write to that array does to the slice can be told.
\<close>

record gslice =
  vis :: "byte list"
  ext :: "byte list"
  org :: "(nat \<times> nat) option"

definition slice :: "byte list \<Rightarrow> gslice" where
  "slice bs = \<lparr>vis = bs, ext = [], org = None\<rparr>"

definition moveOrg :: "int \<Rightarrow> (nat \<times> nat) option \<Rightarrow> (nat \<times> nat) option" where
  "moveOrg i = map_option (\<lambda>(g, k). (g, k + nat i))"

definition len :: "gslice \<Rightarrow> int" where
  "len s = int (length (vis s))"

definition idxAt :: "gslice \<Rightarrow> int \<Rightarrow> byte res" where
  "idxAt s i = (if 0 \<le> i \<and> i < len s then Ok (vis s ! nat i) else Panic)"

definition gsub :: "gslice \<Rightarrow> int \<Rightarrow> int \<Rightarrow> gslice res" where
  "gsub s i j =
     (let mem = vis s @ ext s
      in if 0 \<le> i \<and> i \<le> j \<and> j \<le> int (length mem)
         then Ok \<lparr>vis = take (nat (j - i)) (drop (nat i) mem), ext = drop (nat j) mem, org = moveOrg i (org s)\<rparr>
         else Panic)"

definition gfrom :: "gslice \<Rightarrow> int \<Rightarrow> gslice res" where
  "gfrom s i = (if 0 \<le> i \<and> i \<le> len s then Ok (s\<lparr>vis := drop (nat i) (vis s), org := moveOrg i (org s)\<rparr>) else Panic)"

lemma vis_slice [simp]: "vis (slice bs) = bs" and ext_slice [simp]: "ext (slice bs) = []"
  and org_slice [simp]: "org (slice bs) = None"
  by (simp_all add: slice_def)

lemma moveOrg_None [simp]: "moveOrg i None = None"
  by (simp add: moveOrg_def)

lemma idxAt_in: "i < length (vis s) \<Longrightarrow> idxAt s (int i) = Ok (vis s ! i)"
  by (simp add: idxAt_def len_def)

lemma gsub_in:
  "i \<le> j \<Longrightarrow> j \<le> length (vis s) \<Longrightarrow>
     gsub s (int i) (int j) =
       Ok \<lparr>vis = take (j - i) (drop i (vis s)), ext = drop j (vis s @ ext s), org = moveOrg (int i) (org s)\<rparr>"
  by (simp add: gsub_def Let_def flip: of_nat_diff)

lemma gfrom_in: "i \<le> length (vis s) \<Longrightarrow>
    gfrom s (int i) = Ok (s\<lparr>vis := drop i (vis s), org := moveOrg (int i) (org s)\<rparr>)"
  by (simp add: gfrom_def len_def)

section \<open>Copying into an array\<close>

text \<open>\<open>copy(xs[i:], ys)\<close> writes as many elements as fit.\<close>

definition copyAt :: "'a list \<Rightarrow> nat \<Rightarrow> 'a list \<Rightarrow> 'a list" where
  "copyAt xs i ys =
     (let n = min (length xs - i) (length ys) in take i xs @ take n ys @ drop (i + n) xs)"

lemma length_copyAt [simp]: "i \<le> length xs \<Longrightarrow> length (copyAt xs i ys) = length xs"
  by (auto simp: copyAt_def Let_def)

lemma copyAt_fits:
  "i + length ys \<le> length xs \<Longrightarrow> copyAt xs i ys = take i xs @ ys @ drop (i + length ys) xs"
  by (simp add: copyAt_def Let_def min.absorb2)

lemma take_copyAt: "i + length ys \<le> length xs \<Longrightarrow> take (i + length ys) (copyAt xs i ys) = take i xs @ ys"
  by (simp add: copyAt_fits)

lemma take_drop_split: "i \<le> j \<Longrightarrow> take j xs = take i xs @ take (j - i) (drop i xs)"
  by (metis le_add_diff_inverse take_add)

end
