(* ===== verification/Mysql_Codec.thy ===== *)
theory Mysql_Codec
  imports Go_Prelude
begin

text \<open>
  The byte codecs of \<^verbatim>\<open>mysql/utils.go\<close> and \<^verbatim>\<open>server/utils.go\<close> (the two files hold the same
  functions): little-endian integers, decimal digits, MySQL's length-encoded integers and
  strings. The lemmas give the round trips and say exactly when a decoder panics.
\<close>

section \<open>Bytes of an integer\<close>

text \<open>\<^verbatim>\<open>byte(n >> k)\<close>\<close>

definition byteAt :: "nat \<Rightarrow> 'a::len word \<Rightarrow> byte" where
  "byteAt k n = ucast (drop_bit k n)"

text \<open>\<^verbatim>\<open>uint64(b) << k\<close>, and the same at the other widths\<close>

definition shl :: "nat \<Rightarrow> byte \<Rightarrow> 'a::len word" where
  "shl k b = push_bit k (ucast b)"

lemma bit_byteAt: "bit (byteAt k n) i \<longleftrightarrow> i < 8 \<and> bit n (k + i)"
  by (auto simp: byteAt_def bit_simps add.commute dest: bit_imp_le_length)

lemma bit_shl: "bit (shl k b :: 'a::len word) i \<longleftrightarrow> i < LENGTH('a) \<and> k \<le> i \<and> bit b (i - k)"
  by (auto simp: shl_def bit_simps dest: bit_imp_le_length)

lemma bit_shl_byteAt:
  "bit (shl k (byteAt k n) :: 'a::len word) i \<longleftrightarrow> k \<le> i \<and> i < k + 8 \<and> bit (n :: 'a word) i"
  by (auto simp: bit_shl bit_byteAt dest: bit_imp_le_length)

text \<open>A value below \<open>2 ^ k\<close> has no bit at \<open>k\<close> or above.\<close>

lemma bit_below: "unat (n :: 'a::len word) < 2 ^ k \<Longrightarrow> bit n i \<Longrightarrow> i < k"
proof (rule ccontr)
  assume n: "unat n < 2 ^ k" and b: "bit n i" and "\<not> i < k"
  then have "unat n < 2 ^ i"
    by (meson linorder_not_le order_less_le_trans power_increasing one_le_numeral)
  then have "take_bit i (unat n) = unat n" by (simp add: take_bit_nat_eq_self)
  moreover have "bit (unat n) i" using b by (simp add: bit_unsigned_iff)
  ultimately show False by (metis bit_take_bit_iff less_irrefl)
qed

section \<open>encoding/binary\<close>

definition leUint16 :: "byte list \<Rightarrow> u16 res" where
  "leUint16 b = (if length b < 2 then Panic else Ok (shl 0 (b ! 0) OR shl 8 (b ! 1)))"

definition leUint32 :: "byte list \<Rightarrow> u32 res" where
  "leUint32 b = (if length b < 4 then Panic
     else Ok (shl 0 (b ! 0) OR shl 8 (b ! 1) OR shl 16 (b ! 2) OR shl 24 (b ! 3)))"

definition putUint16 :: "u16 \<Rightarrow> byte list" where
  "putUint16 n = [byteAt 0 n, byteAt 8 n]"

definition putUint32 :: "u32 \<Rightarrow> byte list" where
  "putUint32 n = [byteAt 0 n, byteAt 8 n, byteAt 16 n, byteAt 24 n]"

lemma join16: "shl 0 (byteAt 0 n) OR shl 8 (byteAt 8 n) = (n :: u16)"
  by (rule bit_word_eqI) (auto simp: bit_or_iff bit_shl_byteAt)

lemma join32:
  "shl 0 (byteAt 0 n) OR shl 8 (byteAt 8 n) OR shl 16 (byteAt 16 n) OR shl 24 (byteAt 24 n) = (n :: u32)"
  by (rule bit_word_eqI) (auto simp: bit_or_iff bit_shl_byteAt)

lemma leUint16_put: "leUint16 (putUint16 n @ r) = Ok n"
  by (simp add: leUint16_def putUint16_def join16)

lemma leUint32_put: "leUint32 (putUint32 n @ r) = Ok n"
  by (simp add: leUint32_def putUint32_def join32)

section \<open>uint64ToBytes\<close>

definition uint64ToBytes :: "u64 \<Rightarrow> byte list" where
  "uint64ToBytes n =
     [byteAt 0 n, byteAt 8 n, byteAt 16 n, byteAt 24 n, byteAt 32 n, byteAt 40 n, byteAt 48 n, byteAt 56 n]"

definition Uint64ToBytes :: "u64 \<Rightarrow> byte list" where
  "Uint64ToBytes n = uint64ToBytes n"

section \<open>Length-encoded integers\<close>

text \<open>The value read, whether it is NULL, and the number of bytes read.\<close>

definition readLengthEncodedInteger :: "byte list \<Rightarrow> (u64 \<times> bool \<times> int) res" where
  "readLengthEncodedInteger b =
     (if length b = 0 then Ok (0, True, 1)
      else if b ! 0 = 0xfb then Ok (0, True, 1)
      else if b ! 0 = 0xfc then
        (if length b < 3 then Panic else Ok (shl 0 (b ! 1) OR shl 8 (b ! 2), False, 3))
      else if b ! 0 = 0xfd then
        (if length b < 4 then Panic
         else Ok (shl 0 (b ! 1) OR shl 8 (b ! 2) OR shl 16 (b ! 3), False, 4))
      else if b ! 0 = 0xfe then
        (if length b < 9 then Panic
         else Ok (shl 0 (b ! 1) OR shl 8 (b ! 2) OR shl 16 (b ! 3) OR shl 24 (b ! 4) OR
                  shl 32 (b ! 5) OR shl 40 (b ! 6) OR shl 48 (b ! 7) OR shl 56 (b ! 8), False, 9))
      else Ok (ucast (b ! 0), False, 1))"

definition appendLengthEncodedInteger :: "byte list \<Rightarrow> u64 \<Rightarrow> byte list" where
  "appendLengthEncodedInteger b n =
     (if n \<le> 250 then b @ [byteAt 0 n]
      else if n \<le> 0xffff then b @ [0xfc, byteAt 0 n, byteAt 8 n]
      else if n \<le> 0xffffff then b @ [0xfd, byteAt 0 n, byteAt 8 n, byteAt 16 n]
      else b @ [0xfe, byteAt 0 n, byteAt 8 n, byteAt 16 n, byteAt 24 n,
                byteAt 32 n, byteAt 40 n, byteAt 48 n, byteAt 56 n])"

definition AppendLengthEncodedInteger :: "byte list \<Rightarrow> u64 \<Rightarrow> byte list" where
  "AppendLengthEncodedInteger b n = appendLengthEncodedInteger b n"

text \<open>The size of the encoding.\<close>

definition lenEncSize :: "u64 \<Rightarrow> nat" where
  "lenEncSize n = (if n \<le> 250 then 1 else if n \<le> 0xffff then 3 else if n \<le> 0xffffff then 4 else 9)"

lemma length_appendLengthEncodedInteger [simp]:
  "length (appendLengthEncodedInteger b n) = length b + lenEncSize n"
  by (simp add: appendLengthEncodedInteger_def lenEncSize_def)

lemma lenEncSize_bounds: "1 \<le> lenEncSize n" "lenEncSize n \<le> 9"
  by (simp_all add: lenEncSize_def)

text \<open>Putting the low bytes of a small value together again gives the value.\<close>

lemma join64_small:
  fixes n :: u64
  shows "unat n < 2 ^ 8 \<Longrightarrow> ucast (byteAt 0 n) = n"
    and "unat n < 2 ^ 16 \<Longrightarrow> shl 0 (byteAt 0 n) OR shl 8 (byteAt 8 n) = n"
    and "unat n < 2 ^ 24 \<Longrightarrow>
      shl 0 (byteAt 0 n) OR shl 8 (byteAt 8 n) OR shl 16 (byteAt 16 n) = n"
    and "shl 0 (byteAt 0 n) OR shl 8 (byteAt 8 n) OR shl 16 (byteAt 16 n) OR shl 24 (byteAt 24 n) OR
      shl 32 (byteAt 32 n) OR shl 40 (byteAt 40 n) OR shl 48 (byteAt 48 n) OR shl 56 (byteAt 56 n) = n"
proof -
  have s: "ucast (byteAt 0 n) = (shl 0 (byteAt 0 n) :: u64)" by (simp add: shl_def)
  show "ucast (byteAt 0 n) = n" if "unat n < 2 ^ 8"
    unfolding s by (rule bit_word_eqI) (use bit_below [OF that] in \<open>auto simp: bit_shl_byteAt\<close>)
  show "shl 0 (byteAt 0 n) OR shl 8 (byteAt 8 n) = n" if "unat n < 2 ^ 16"
    by (rule bit_word_eqI) (use bit_below [OF that] in \<open>auto simp: bit_or_iff bit_shl_byteAt\<close>)
  show "shl 0 (byteAt 0 n) OR shl 8 (byteAt 8 n) OR shl 16 (byteAt 16 n) = n" if "unat n < 2 ^ 24"
    by (rule bit_word_eqI) (use bit_below [OF that] in \<open>auto simp: bit_or_iff bit_shl_byteAt\<close>)
  show "shl 0 (byteAt 0 n) OR shl 8 (byteAt 8 n) OR shl 16 (byteAt 16 n) OR shl 24 (byteAt 24 n) OR
      shl 32 (byteAt 32 n) OR shl 40 (byteAt 40 n) OR shl 48 (byteAt 48 n) OR shl 56 (byteAt 56 n) = n"
    by (rule bit_word_eqI) (auto simp: bit_or_iff bit_shl_byteAt)
qed

lemma byteAt_small: "(n :: u64) \<le> 250 \<Longrightarrow> byteAt 0 n \<noteq> 0xfb \<and> byteAt 0 n \<noteq> 0xfc \<and> byteAt 0 n \<noteq> 0xfd \<and> byteAt 0 n \<noteq> 0xfe"
proof -
  assume n: "n \<le> 250"
  then have "unat n \<le> 250" by (simp add: word_le_nat_alt)
  then have "unat (byteAt 0 n) \<le> 250"
    by (simp add: byteAt_def unsigned_ucast_eq take_bit_eq_mod)
  then show ?thesis by auto
qed

text \<open>Decoding an encoded value gives the value back and consumes exactly its bytes.\<close>

lemma readLengthEncodedInteger_append:
  "readLengthEncodedInteger (appendLengthEncodedInteger [] n @ r) = Ok (n, False, int (lenEncSize n))"
proof -
  consider (1) "n \<le> 250" | (2) "\<not> n \<le> 250" "n \<le> 0xffff"
    | (3) "\<not> n \<le> 250" "\<not> n \<le> 0xffff" "n \<le> 0xffffff" | (4) "\<not> n \<le> 250" "\<not> n \<le> 0xffff" "\<not> n \<le> 0xffffff"
    by blast
  then show ?thesis
  proof cases
    case 1
    then have "unat n < 2 ^ 8" by (simp add: word_le_nat_alt)
    with 1 byteAt_small [OF 1] show ?thesis
      by (simp add: readLengthEncodedInteger_def appendLengthEncodedInteger_def lenEncSize_def join64_small)
  next
    case 2
    then have "unat n < 2 ^ 16" by (simp add: word_le_nat_alt)
    with 2 show ?thesis
      by (simp add: readLengthEncodedInteger_def appendLengthEncodedInteger_def lenEncSize_def join64_small)
  next
    case 3
    then have "unat n < 2 ^ 24" by (simp add: word_le_nat_alt)
    with 3 show ?thesis
      by (simp add: readLengthEncodedInteger_def appendLengthEncodedInteger_def lenEncSize_def join64_small)
  next
    case 4
    then show ?thesis
      by (simp add: readLengthEncodedInteger_def appendLengthEncodedInteger_def lenEncSize_def join64_small)
  qed
qed

section \<open>Length-encoded strings\<close>

text \<open>
  The content, whether it is NULL, the position after it, and \<open>io.EOF\<close> (\<open>True\<close> in the last
  component) when the slice is shorter than the string says.
\<close>

definition readLengthEncodedString ::
  "gslice \<Rightarrow> (gslice \<times> bool \<times> int \<times> bool) res" where
  "readLengthEncodedString b =
     bindR (readLengthEncodedInteger (vis b)) (\<lambda>(num, isNull, n).
       if num < 1 then bindR (gsub b n n) (\<lambda>s. Ok (s, isNull, n, False))
       else
         (let n' = wrap64 (n + sint num)
          in if n' \<le> len b
             then bindR (gsub b (wrap64 (n' - sint num)) n') (\<lambda>s. Ok (s, False, n', False))
             else Ok (slice [], False, n', True)))"

definition skipLengthEncodedString :: "gslice \<Rightarrow> (int \<times> bool) res" where
  "skipLengthEncodedString b =
     bindR (readLengthEncodedInteger (vis b)) (\<lambda>(num, isNull, n).
       if num < 1 then Ok (n, False)
       else
         (let n' = wrap64 (n + sint num)
          in if n' \<le> len b then Ok (n', False) else Ok (n', True)))"

definition lenEncString :: "byte list \<Rightarrow> byte list" where
  "lenEncString p = appendLengthEncodedInteger [] (of_nat (length p)) @ p"

lemma sint_small: "n < 2 ^ 63 \<Longrightarrow> sint (of_nat n :: u64) = int n"
proof -
  assume n: "n < 2 ^ 63"
  have "sint (of_nat n :: u64) = wrap64 (int n)" by (simp add: wrap64_def)
  also have "\<dots> = int n" using n by (intro wrap64_id) auto
  finally show ?thesis .
qed

lemma of_nat_less_one: "n < 2 ^ 63 \<Longrightarrow> (of_nat n :: u64) < 1 \<longleftrightarrow> n = 0"
  by (simp add: word_less_nat_alt unat_of_nat take_bit_eq_mod)

lemma drop_lenEncString:
  "drop (lenEncSize (of_nat (length p))) (lenEncString p @ r) = p @ r"
  by (simp add: lenEncString_def)

lemma readLengthEncodedString_lenEnc:
  assumes "length p < 2 ^ 62"
  shows "readLengthEncodedString (slice (lenEncString p @ r)) =
    Ok (\<lparr>vis = p, ext = r, org = None\<rparr>, False, int (length (lenEncString p)), False)"
proof -
  let ?n = "of_nat (length p) :: u64" and ?k = "lenEncSize (of_nat (length p))"
  let ?b = "slice (lenEncString p @ r)"
  have l: "length (lenEncString p) = ?k + length p" by (simp add: lenEncString_def)
  have rd: "readLengthEncodedInteger (lenEncString p @ r) = Ok (?n, False, int ?k)"
    by (simp add: lenEncString_def readLengthEncodedInteger_append)
  have k: "?k \<le> 9" by (rule lenEncSize_bounds)
  have p: "sint ?n = int (length p)" using assms by (intro sint_small) auto
  have w: "wrap64 (int ?k + int (length p)) = int (?k + length p)"
    using assms k by (subst wrap64_id) auto
  have w': "wrap64 (int (?k + length p) - int (length p)) = int ?k"
    using assms k by (subst wrap64_id) auto
  have d: "drop ?k (lenEncString p @ r) = p @ r" by (rule drop_lenEncString)
  have d': "drop (?k + length p) (lenEncString p @ r) = r"
    by (simp add: lenEncString_def)
  show ?thesis
  proof (cases "p = []")
    case True
    then have "gsub ?b (int ?k) (int ?k) = Ok \<lparr>vis = [], ext = r, org = None\<rparr>"
      using l d by (subst gsub_in) auto
    moreover from True rd
    have "readLengthEncodedInteger (lenEncString [] @ r) = Ok (0, False, int (lenEncSize 0))" by simp
    ultimately show ?thesis using True l by (simp add: readLengthEncodedString_def)
  next
    case False
    then have "\<not> ?n < 1" using assms by (subst of_nat_less_one) auto
    moreover have "gsub ?b (int ?k) (int (?k + length p)) = Ok \<lparr>vis = p, ext = r, org = None\<rparr>"
      using l d d' by (subst gsub_in) auto
    moreover have "int (?k + length p) \<le> len ?b" using l by (simp add: len_def)
    ultimately show ?thesis using l p w w'
      by (simp add: readLengthEncodedString_def rd Let_def)
  qed
qed

text \<open>C36: an encoded integer, appended to any bytes, takes one, three, four or nine bytes, and is read back
  with its value and its length, whatever follows it.\<close>

theorem lenenc_integer_roundtrip:
  "\<exists>e. AppendLengthEncodedInteger b n = b @ e \<and> length e = lenEncSize n \<and>
     readLengthEncodedInteger (e @ r) = Ok (n, False, int (length e))"
proof -
  have "AppendLengthEncodedInteger b n = b @ appendLengthEncodedInteger [] n"
    by (simp add: AppendLengthEncodedInteger_def appendLengthEncodedInteger_def)
  then show ?thesis by (simp add: readLengthEncodedInteger_append)
qed

text \<open>An encoded string is read back, and skipped, whatever follows it; the rest of the bytes stay
  reachable behind the slice, as Go's capacity has it.\<close>

lemma lenenc_string_roundtrip:
  assumes "length p < 2 ^ 62"
  shows "readLengthEncodedString (slice (lenEncString p @ r)) =
      Ok (\<lparr>vis = p, ext = r, org = None\<rparr>, False, int (length (lenEncString p)), False) \<and>
    skipLengthEncodedString (slice (lenEncString p @ r)) = Ok (int (length (lenEncString p)), False)"
proof -
  let ?b = "slice (lenEncString p @ r)"
  have "skipLengthEncodedString ?b = bindR (readLengthEncodedString ?b) (\<lambda>(_, _, n, e). Ok (n, e))"
    using readLengthEncodedString_lenEnc [OF assms, of r]
    by (auto simp: skipLengthEncodedString_def readLengthEncodedString_def bindR_Ok_iff Let_def split: if_splits)
  then show ?thesis by (simp add: readLengthEncodedString_lenEnc [OF assms])
qed

lemma lenenc_string_roundtrip_witness:
  "readLengthEncodedString (slice (lenEncString [0x64, 0x65, 0x66] @ [7])) =
      Ok (\<lparr>vis = [0x64, 0x65, 0x66], ext = [7], org = None\<rparr>, False, int (length (lenEncString [0x64, 0x65, 0x66])), False) \<and>
    skipLengthEncodedString (slice (lenEncString [0x64, 0x65, 0x66] @ [7])) =
      Ok (int (length (lenEncString [0x64, 0x65, 0x66])), False)"
  by (rule lenenc_string_roundtrip) simp

lemma readLengthEncodedInteger_truncated:
  "0 < k \<Longrightarrow> k < lenEncSize n \<Longrightarrow> readLengthEncodedInteger (take k (appendLengthEncodedInteger [] n)) = Panic"
  by (auto simp: lenEncSize_def readLengthEncodedInteger_def appendLengthEncodedInteger_def take_Cons' min_def
      split: if_splits)

text \<open>An encoded string that is cut short is \<^verbatim>\<open>io.EOF\<close> when the cut is in its bytes, and a panic when
  the cut is in its length, where \<^verbatim>\<open>readLengthEncodedInteger\<close> does not look at the number of bytes.\<close>

lemma lenenc_string_truncated:
  assumes "p \<noteq> []" and "length p < 2 ^ 62" and "k < length (lenEncString p)"
  shows "readLengthEncodedString (slice (take k (lenEncString p))) =
    (if k < lenEncSize (of_nat (length p)) then Panic
     else Ok (slice [], False, int (length (lenEncString p)), True))"
proof (cases "k < lenEncSize (of_nat (length p))")
  case True
  have "take k (lenEncString p) = take k (appendLengthEncodedInteger [] (of_nat (length p)))"
    using True by (simp add: lenEncString_def)
  with True readLengthEncodedInteger_truncated [of k "of_nat (length p)"] show ?thesis
    by (cases "k = 0") (simp_all add: readLengthEncodedString_def readLengthEncodedInteger_def gsub_def)
next
  case False
  let ?n = "of_nat (length p) :: u64" and ?k = "lenEncSize (of_nat (length p))"
  have "take k (lenEncString p) = appendLengthEncodedInteger [] ?n @ take (k - ?k) p"
    using False by (simp add: lenEncString_def)
  then have rd: "readLengthEncodedInteger (take k (lenEncString p)) = Ok (?n, False, int ?k)"
    by (simp add: readLengthEncodedInteger_append)
  have l: "length (lenEncString p) = ?k + length p" by (simp add: lenEncString_def)
  have "\<not> ?n < 1" using assms(1,2) by (subst of_nat_less_one) auto
  moreover have "wrap64 (int ?k + int (length p)) = int (?k + length p)"
    using assms(2) lenEncSize_bounds [of ?n] by (subst wrap64_id) auto
  moreover have "sint ?n = int (length p)" using assms(2) by (intro sint_small) auto
  ultimately show ?thesis using False l assms(3)
    by (simp add: readLengthEncodedString_def rd Let_def len_def)
qed

lemma lenenc_string_truncated_witness:
  "readLengthEncodedString (slice (take 3 (lenEncString [0x64, 0x65, 0x66]))) =
    Ok (slice [], False, int (length (lenEncString [0x64, 0x65, 0x66])), True)"
  using lenenc_string_truncated [of "[0x64, 0x65, 0x66]" 3]
  by (simp add: lenEncString_def lenEncSize_def)

text \<open>A length of \<open>2 ^ 63\<close> or more turns negative in \<^verbatim>\<open>int(num)\<close>, passes the length check and
  makes the slice expression panic.\<close>

lemma lenenc_string_huge:
  assumes "2 ^ 63 \<le> uint num" and "uint num < 2 ^ 64 - 9"
  shows "readLengthEncodedString (slice (appendLengthEncodedInteger [] num @ r)) = Panic"
proof -
  let ?b = "slice (appendLengthEncodedInteger [] num @ r)" and ?k = "lenEncSize num"
  have k: "?k \<le> 9" by (rule lenEncSize_bounds)
  have "sint num = wrap64 (uint num)" by (simp add: wrap64_def)
  also have "\<dots> = uint num - 2 ^ 64" using assms by (intro wrap64_neg) auto
  finally have neg: "sint num = uint num - 2 ^ 64" .
  have n': "wrap64 (int ?k + sint num) = int ?k + sint num"
    using assms k neg by (intro wrap64_id) auto
  have "int ?k + sint num < 0" using assms k neg by auto
  then have "gsub ?b (wrap64 (int ?k + sint num - sint num)) (int ?k + sint num) = Panic"
    and "int ?k + sint num \<le> len ?b"
    by (auto simp: gsub_def Let_def len_def)
  moreover have "\<not> num < 1" using assms(1) by (auto simp: word_less_def)
  ultimately show ?thesis
    by (simp add: readLengthEncodedString_def readLengthEncodedInteger_append n' Let_def)
qed

lemma lenenc_string_huge_witness:
  "readLengthEncodedString (slice (appendLengthEncodedInteger [] (2 ^ 63) @ [1, 2])) = Panic"
  by (rule lenenc_string_huge) simp_all

section \<open>Decimal digits\<close>

text \<open>The loop of \<^verbatim>\<open>uint64ToString\<close>: it fills the array of 20 bytes from its end.\<close>

function u64Digits :: "byte list \<Rightarrow> int \<Rightarrow> u64 \<Rightarrow> (byte list) res" where
  "u64Digits a i n =
     (if i - 1 < 0 \<or> int (length a) \<le> i - 1 then Panic
      else if 10 \<le> n
      then (let q = n div 10
            in u64Digits (a[nat (i - 1) := ucast (n - q * 10) + 0x30]) (i - 1) q)
      else Ok (drop (nat (i - 1)) (a[nat (i - 1) := ucast n + 0x30])))"
  by pat_completeness auto
termination
  by (relation "measure (\<lambda>(a, i, n). unat n)")
    (auto simp: unat_div word_le_nat_alt intro: div_less_dividend)

declare u64Digits.simps [simp del]

definition uint64ToString :: "u64 \<Rightarrow> (byte list) res" where
  "uint64ToString n = u64Digits (replicate 20 0) 20 n"

text \<open>\<^verbatim>\<open>val *= 10; val += int(b[i] - 0x30)\<close> over the bytes, in 64-bit arithmetic.\<close>

definition stringToInt :: "byte list \<Rightarrow> int" where
  "stringToInt b = foldl (\<lambda>val c. wrap64 (wrap64 (val * 10) + uint (c - 0x30))) 0 b"

text \<open>The digits of a number, most significant first: what \<open>uint64ToString\<close> is to compute.\<close>

fun decDigits :: "nat \<Rightarrow> byte list" where
  "decDigits n = (if n < 10 then [of_nat n + 0x30] else decDigits (n div 10) @ [of_nat (n mod 10) + 0x30])"

declare decDigits.simps [simp del]

lemma length_decDigits: "n < 10 ^ k \<Longrightarrow> 0 < k \<Longrightarrow> length (decDigits n) \<le> k"
proof (induction k arbitrary: n)
  case 0
  then show ?case by simp
next
  case (Suc k)
  show ?case
  proof (cases "n < 10")
    case True
    then show ?thesis by (simp add: decDigits.simps)
  next
    case False
    with Suc.prems have "n div 10 < 10 ^ k" and "0 < k"
      by (auto simp: div_less_iff_less_mult mult.commute intro!: gr0I)
    then have "length (decDigits (n div 10)) \<le> k" by (rule Suc.IH)
    with False show ?thesis by (simp add: decDigits.simps [of n])
  qed
qed

text \<open>The array is long enough: the loop writes the digits of \<open>n\<close> in front of position \<open>i\<close>.\<close>

lemma digit_step: "ucast (n - n div 10 * 10) = (of_nat (unat n mod 10) :: byte)" for n :: u64
proof -
  have "unat (n - n div 10 * 10) = unat n mod 10"
    by (simp add: minus_div_mult_eq_mod unat_mod)
  then show ?thesis by (metis of_nat_unat)
qed

lemma drop_write: "0 < i \<Longrightarrow> i \<le> length a \<Longrightarrow> drop (i - 1) (a[i - 1 := x]) = x # drop i a"
  using Cons_nth_drop_Suc [of "i - 1" "a[i - 1 := x]"] by simp

lemma u64Digits_spec:
  assumes "length (decDigits (unat n)) \<le> i" and "i \<le> length a"
  shows "u64Digits a (int i) n = Ok (decDigits (unat n) @ drop i a)"
  using assms
proof (induction "unat n" arbitrary: a i n rule: less_induct)
  case less
  have d: "decDigits (unat n) \<noteq> []" by (subst decDigits.simps) simp
  with less.prems obtain j where i: "i = Suc j" by (cases i) auto
  show ?case
  proof (cases "10 \<le> n")
    case False
    then have "unat n < 10" by (simp add: word_le_nat_alt)
    then have "decDigits (unat n) = [ucast n + 0x30]"
      by (subst decDigits.simps) simp
    moreover have "u64Digits a (int i) n = Ok (drop j (a[j := ucast n + 0x30]))"
      using False i less.prems(2) by (subst u64Digits.simps) simp
    ultimately show ?thesis using i less.prems(2) drop_write [of i a] by simp
  next
    case True
    then have n: "10 \<le> unat n" by (simp add: word_le_nat_alt)
    let ?c = "of_nat (unat n mod 10) + 0x30 :: byte"
    let ?a = "a[j := ?c]"
    have q: "unat (n div 10) = unat n div 10" by (simp add: unat_div)
    have dd: "decDigits (unat n) = decDigits (unat (n div 10)) @ [?c]"
      using n by (subst decDigits.simps) (simp add: q)
    have "u64Digits a (int i) n = u64Digits ?a (int j) (n div 10)"
      using True i less.prems(2)
      by (subst u64Digits.simps) (simp add: Let_def digit_step)
    also have "\<dots> = Ok (decDigits (unat (n div 10)) @ drop j ?a)"
      using n i dd less.prems by (intro less.hyps) (auto simp: q)
    also have "drop j ?a = ?c # drop i a" using i less.prems(2) drop_write [of i a] by simp
    finally show ?thesis by (simp add: dd)
  qed
qed

lemma uint64ToString_digits: "uint64ToString n = Ok (decDigits (unat n))"
proof -
  have "unat n < 10 ^ 20" using unsigned_less [of n, where 'a = nat] by simp
  then have "length (decDigits (unat n)) \<le> 20" by (rule length_decDigits) simp
  then show ?thesis
    using u64Digits_spec [of n 20 "replicate 20 0"] by (simp add: uint64ToString_def)
qed

text \<open>Reading the digits again gives the value, in the 64-bit two's complement of Go's \<open>int\<close>.\<close>

lemma stringToInt_snoc: "stringToInt (b @ [c]) = wrap64 (wrap64 (stringToInt b * 10) + uint (c - 0x30))"
  by (simp add: stringToInt_def)

lemma wrap64_cong: "(word_of_int i :: u64) = word_of_int j \<Longrightarrow> wrap64 i = wrap64 j"
  by (simp add: wrap64_def)

lemma word_of_int_wrap64 [simp]: "(word_of_int (wrap64 i) :: u64) = word_of_int i"
  by (simp add: wrap64_def)

lemma digit_value: "d < 10 \<Longrightarrow> uint (of_nat d :: byte) = int d"
  by (simp add: uint_nat unat_of_nat take_bit_eq_mod)

lemma stringToInt_decDigits: "stringToInt (decDigits n) = wrap64 (int n)"
proof (induction n rule: decDigits.induct)
  case (1 n)
  show ?case
  proof (cases "n < 10")
    case True
    then have "stringToInt (decDigits n) = wrap64 (wrap64 0 + int n)"
      by (simp add: decDigits.simps stringToInt_def digit_value)
    then show ?thesis by (simp add: wrap64_def)
  next
    case False
    then have "stringToInt (decDigits n) = wrap64 (wrap64 (wrap64 (int (n div 10)) * 10) + int (n mod 10))"
      by (simp add: decDigits.simps [of n] stringToInt_snoc 1 digit_value)
    also have "\<dots> = wrap64 (int (n div 10) * 10 + int (n mod 10))"
      by (rule wrap64_cong) (simp add: of_int_mult of_int_add)
    also have "int (n div 10) * 10 + int (n mod 10) = int n"
      by (metis mult.commute mult_div_mod_eq of_nat_add of_nat_mult of_nat_numeral)
    finally show ?thesis .
  qed
qed

text \<open>The decimal text of a 64-bit number is its digits without leading zeros, fits the 20 bytes of the
  buffer, and \<^verbatim>\<open>stringToInt\<close> gives the number back, as the signed number of the same 64 bits.\<close>

lemma uint64_text_roundtrip:
  "\<exists>b. uint64ToString n = Ok b \<and> b = decDigits (unat n) \<and> length b \<le> 20 \<and> stringToInt b = sint n"
proof -
  have "unat n < 2 ^ 64" using unsigned_less [of n] by simp
  then have "length (decDigits (unat n)) \<le> 20" by (intro length_decDigits) auto
  then show ?thesis by (simp add: uint64ToString_digits stringToInt_decDigits wrap64_def)
qed

end
