(* ===== verification/Mysql_Escape.thy ===== *)
theory Mysql_Escape
  imports Mysql_Codec
begin

text \<open>
  The escaping of string literals in \<^verbatim>\<open>mysql/utils.go\<close>: \<open>reserveBuffer\<close> grows the buffer and the
  four loops write into it by position. The loops are modelled with their array writes and
  bounds; the lemmas show that the reserved room is always enough, what is written, and that a
  MySQL lexer reads the literal back, unless the character set of the connection is one whose
  characters can hold a backslash.
\<close>

section \<open>reserveBuffer\<close>

definition reserveBuffer :: "gslice \<Rightarrow> nat \<Rightarrow> gslice res" where
  "reserveBuffer buf appendSize =
     (let newSize = length (vis buf) + appendSize;
          buf' = (if length (vis buf) + length (ext buf) < newSize
                  then slice (copyAt (replicate (length (vis buf) * 2 + appendSize) 0) 0 (vis buf))
                  else buf)
      in gsub buf' 0 (int newSize))"

lemma reserveBuffer_vis:
  "\<exists>room rest or. reserveBuffer buf k = Ok \<lparr>vis = vis buf @ room, ext = rest, org = or\<rparr> \<and> length room = k"
proof (cases "length (vis buf) + length (ext buf) < length (vis buf) + k")
  case True
  let ?a = "copyAt (replicate (length (vis buf) * 2 + k) 0) 0 (vis buf)"
  have a: "?a = vis buf @ replicate (length (vis buf) + k) 0"
    by (simp add: copyAt_fits)
  have "reserveBuffer buf k = gsub (slice ?a) (int 0) (int (length (vis buf) + k))"
    using True by (simp add: reserveBuffer_def Let_def)
  also have "\<dots> = Ok \<lparr>vis = take (length (vis buf) + k) ?a, ext = drop (length (vis buf) + k) ?a, org = None\<rparr>"
    unfolding a by (subst gsub_in) auto
  finally show ?thesis by (simp add: a)
next
  case False
  then have "reserveBuffer buf k =
      Ok \<lparr>vis = vis buf @ take k (ext buf), ext = drop k (ext buf), org = moveOrg 0 (org buf)\<rparr>"
    by (simp add: reserveBuffer_def Let_def gsub_def nat_add_distrib)
  with False show ?thesis by simp
qed

section \<open>The loops\<close>

text \<open>The switch of the backslash loops: the letter written after the backslash, if any.\<close>

definition backslashFor :: "byte \<Rightarrow> byte option" where
  "backslashFor c =
     (if c = 0x00 then Some 0x30
      else if c = 0x0a then Some 0x6e
      else if c = 0x0d then Some 0x72
      else if c = 0x1a then Some 0x5a
      else if c = 0x27 then Some 0x27
      else if c = 0x22 then Some 0x22
      else if c = 0x5c then Some 0x5c
      else None)"

text \<open>\<^verbatim>\<open>buf[pos] = x\<close>\<close>

definition put :: "byte list \<Rightarrow> nat \<Rightarrow> byte \<Rightarrow> byte list res" where
  "put a pos x = (if pos < length a then Ok (a[pos := x]) else Panic)"

fun backslashLoop :: "byte list \<Rightarrow> nat \<Rightarrow> byte list \<Rightarrow> (byte list \<times> nat) res" where
  "backslashLoop a pos [] = Ok (a, pos)"
| "backslashLoop a pos (c # v) =
     (case backslashFor c of
        Some x \<Rightarrow> bindR (put a pos 0x5c) (\<lambda>a. bindR (put a (pos + 1) x) (\<lambda>a. backslashLoop a (pos + 2) v))
      | None \<Rightarrow> bindR (put a pos c) (\<lambda>a. backslashLoop a (pos + 1) v))"

fun quotesLoop :: "byte list \<Rightarrow> nat \<Rightarrow> byte list \<Rightarrow> (byte list \<times> nat) res" where
  "quotesLoop a pos [] = Ok (a, pos)"
| "quotesLoop a pos (c # v) =
     (if c = 0x27
      then bindR (put a pos 0x27) (\<lambda>a. bindR (put a (pos + 1) 0x27) (\<lambda>a. quotesLoop a (pos + 2) v))
      else bindR (put a pos c) (\<lambda>a. quotesLoop a (pos + 1) v))"

definition escapeBytesBackslash :: "gslice \<Rightarrow> byte list \<Rightarrow> gslice res" where
  "escapeBytesBackslash buf v =
     bindR (reserveBuffer buf (length v * 2)) (\<lambda>b.
     bindR (backslashLoop (vis b) (length (vis buf)) v) (\<lambda>(a, pos).
     gsub (b\<lparr>vis := a\<rparr>) 0 (int pos)))"

text \<open>The loops over a \<^verbatim>\<open>string\<close> visit its bytes by index.\<close>

fun backslashLoopAt :: "byte list \<Rightarrow> nat \<Rightarrow> byte list \<Rightarrow> nat list \<Rightarrow> (byte list \<times> nat) res" where
  "backslashLoopAt a pos v [] = Ok (a, pos)"
| "backslashLoopAt a pos v (i # is) =
     (let c = v ! i in
      case backslashFor c of
        Some x \<Rightarrow> bindR (put a pos 0x5c) (\<lambda>a. bindR (put a (pos + 1) x) (\<lambda>a. backslashLoopAt a (pos + 2) v is))
      | None \<Rightarrow> bindR (put a pos c) (\<lambda>a. backslashLoopAt a (pos + 1) v is))"

definition escapeStringBackslash :: "gslice \<Rightarrow> byte list \<Rightarrow> gslice res" where
  "escapeStringBackslash buf v =
     bindR (reserveBuffer buf (length v * 2)) (\<lambda>b.
     bindR (backslashLoopAt (vis b) (length (vis buf)) v [0..<length v]) (\<lambda>(a, pos).
     gsub (b\<lparr>vis := a\<rparr>) 0 (int pos)))"

definition escapeBytesQuotes :: "gslice \<Rightarrow> byte list \<Rightarrow> gslice res" where
  "escapeBytesQuotes buf v =
     bindR (reserveBuffer buf (length v * 2)) (\<lambda>b.
     bindR (quotesLoop (vis b) (length (vis buf)) v) (\<lambda>(a, pos).
     gsub (b\<lparr>vis := a\<rparr>) 0 (int pos)))"

fun quotesLoopAt :: "byte list \<Rightarrow> nat \<Rightarrow> byte list \<Rightarrow> nat list \<Rightarrow> (byte list \<times> nat) res" where
  "quotesLoopAt a pos v [] = Ok (a, pos)"
| "quotesLoopAt a pos v (i # is) =
     (let c = v ! i in
      if c = 0x27
      then bindR (put a pos 0x27) (\<lambda>a. bindR (put a (pos + 1) 0x27) (\<lambda>a. quotesLoopAt a (pos + 2) v is))
      else bindR (put a pos c) (\<lambda>a. quotesLoopAt a (pos + 1) v is))"

definition escapeStringQuotes :: "gslice \<Rightarrow> byte list \<Rightarrow> gslice res" where
  "escapeStringQuotes buf v =
     bindR (reserveBuffer buf (length v * 2)) (\<lambda>b.
     bindR (quotesLoopAt (vis b) (length (vis buf)) v [0..<length v]) (\<lambda>(a, pos).
     gsub (b\<lparr>vis := a\<rparr>) 0 (int pos)))"

section \<open>What the loops write\<close>

definition backslashed :: "byte list \<Rightarrow> byte list" where
  "backslashed v = concat (map (\<lambda>c. case backslashFor c of Some x \<Rightarrow> [0x5c, x] | None \<Rightarrow> [c]) v)"

definition quoted :: "byte list \<Rightarrow> byte list" where
  "quoted v = concat (map (\<lambda>c. if c = 0x27 then [0x27, 0x27] else [c]) v)"

lemma backslashed_simps [simp]:
  "backslashed [] = []"
  "backslashed (c # v) = (case backslashFor c of Some x \<Rightarrow> [0x5c, x] | None \<Rightarrow> [c]) @ backslashed v"
  by (simp_all add: backslashed_def)

lemma quoted_simps [simp]:
  "quoted [] = []"
  "quoted (c # v) = (if c = 0x27 then [0x27, 0x27] else [c]) @ quoted v"
  by (simp_all add: quoted_def)

lemma put_append [simp]: "room \<noteq> [] \<Longrightarrow> put (a @ room) (length a) x = Ok ((a @ [x]) @ tl room)"
  by (cases room) (simp_all add: put_def)

lemma put_next [simp]: "room \<noteq> [] \<Longrightarrow> put (a @ y # room) (Suc (length a)) x = Ok ((a @ [y, x]) @ tl room)"
  using put_append [of room "a @ [y]" x] by simp

text \<open>Two bytes of room per byte of input are enough, whatever the buffer held before.\<close>

lemma backslashLoop_spec:
  "2 * length v \<le> length room \<Longrightarrow>
     \<exists>rest. backslashLoop (a @ room) (length a) v = Ok (a @ backslashed v @ rest, length (a @ backslashed v))"
proof (induction v arbitrary: a room)
  case Nil
  then show ?case by simp
next
  case (Cons c v)
  then obtain r1 r2 room' where room: "room = r1 # r2 # room'" "2 * length v \<le> length room'"
    by (cases room; cases "tl room") auto
  show ?case
  proof (cases "backslashFor c")
    case None
    with Cons.IH [of "r2 # room'" "a @ [c]"] room show ?thesis
      by (auto simp: put_def list_update_append)
  next
    case (Some x)
    with Cons.IH [of room' "a @ [0x5c, x]"] room show ?thesis
      by (auto simp: put_def list_update_append)
  qed
qed

lemma quotesLoop_spec:
  "2 * length v \<le> length room \<Longrightarrow>
     \<exists>rest. quotesLoop (a @ room) (length a) v = Ok (a @ quoted v @ rest, length (a @ quoted v))"
proof (induction v arbitrary: a room)
  case Nil
  then show ?case by simp
next
  case (Cons c v)
  then obtain r1 r2 room' where room: "room = r1 # r2 # room'" "2 * length v \<le> length room'"
    by (cases room; cases "tl room") auto
  show ?case
  proof (cases "c = 0x27")
    case False
    with Cons.IH [of "r2 # room'" "a @ [c]"] room show ?thesis
      by (auto simp: put_def list_update_append)
  next
    case True
    with Cons.IH [of room' "a @ [0x27, 0x27]"] room show ?thesis
      by (auto simp: put_def list_update_append)
  qed
qed

text \<open>Visiting the bytes of a string by index is visiting them in order.\<close>

lemma backslashLoopAt_map: "backslashLoopAt a pos v is = backslashLoop a pos (map ((!) v) is)"
proof (induction "is" arbitrary: a pos)
  case (Cons i "is")
  then show ?case by (simp add: Let_def split: option.split)
qed simp

lemma quotesLoopAt_map: "quotesLoopAt a pos v is = quotesLoop a pos (map ((!) v) is)"
proof (induction "is" arbitrary: a pos)
  case (Cons i "is")
  then show ?case by (simp add: Let_def)
qed simp

lemma escapeStringBackslash_bytes: "escapeStringBackslash buf v = escapeBytesBackslash buf v"
  by (simp add: escapeStringBackslash_def escapeBytesBackslash_def backslashLoopAt_map map_nth)

lemma escapeStringQuotes_bytes: "escapeStringQuotes buf v = escapeBytesQuotes buf v"
  by (simp add: escapeStringQuotes_def escapeBytesQuotes_def quotesLoopAt_map map_nth)

lemma gsub_prefix: "vis s = a @ b \<Longrightarrow> \<exists>t. gsub s 0 (int (length a)) = Ok t \<and> vis t = a"
  by (simp add: gsub_def Let_def)

lemma escapeBytesBackslash_spec:
  "\<exists>s. escapeBytesBackslash buf v = Ok s \<and> vis s = vis buf @ backslashed v"
proof -
  obtain room rest or where r: "reserveBuffer buf (length v * 2) = Ok \<lparr>vis = vis buf @ room, ext = rest, org = or\<rparr>"
    and "length room = length v * 2" using reserveBuffer_vis by blast
  then obtain e where "backslashLoop (vis buf @ room) (length (vis buf)) v =
      Ok ((vis buf @ backslashed v) @ e, length (vis buf @ backslashed v))"
    using backslashLoop_spec [of v room "vis buf"] by auto
  with r show ?thesis
    by (auto simp: escapeBytesBackslash_def simp del: append_assoc length_append intro!: gsub_prefix)
qed

lemma escapeBytesQuotes_spec:
  "\<exists>s. escapeBytesQuotes buf v = Ok s \<and> vis s = vis buf @ quoted v"
proof -
  obtain room rest or where r: "reserveBuffer buf (length v * 2) = Ok \<lparr>vis = vis buf @ room, ext = rest, org = or\<rparr>"
    and "length room = length v * 2" using reserveBuffer_vis by blast
  then obtain e where "quotesLoop (vis buf @ room) (length (vis buf)) v =
      Ok ((vis buf @ quoted v) @ e, length (vis buf @ quoted v))"
    using quotesLoop_spec [of v room "vis buf"] by auto
  with r show ?thesis
    by (auto simp: escapeBytesQuotes_def simp del: append_assoc length_append intro!: gsub_prefix)
qed

section \<open>Reading a literal back\<close>

text \<open>
  How MySQL's lexer reads the inside of a literal delimited by \<open>'\<close>: a character of several bytes is
  taken as a whole, a backslash takes the next byte with it, \<open>''\<close> stands for one quote, and a lone
  quote ends the literal. The result is the content and what follows the closing quote. \<open>mb\<close> stands
  for the character set of the connection: the number of bytes of the character at the head, when it has
  several.
\<close>

definition unescapeByte :: "byte \<Rightarrow> byte" where
  "unescapeByte x =
     (if x = 0x30 then 0x00 else if x = 0x6e then 0x0a else if x = 0x72 then 0x0d
      else if x = 0x5a then 0x1a else x)"

function lexLiteral :: "(byte list \<Rightarrow> nat) \<Rightarrow> byte list \<Rightarrow> (byte list \<times> byte list) option" where
  "lexLiteral mb [] = None"
| "lexLiteral mb (c # r) =
     (if 2 \<le> mb (c # r) then
        map_option (\<lambda>(s, t). (take (mb (c # r)) (c # r) @ s, t)) (lexLiteral mb (drop (mb (c # r)) (c # r)))
      else if c = 0x27 then
        (case r of
           d # r' \<Rightarrow> if d = 0x27 then map_option (\<lambda>(s, t). (0x27 # s, t)) (lexLiteral mb r') else Some ([], r)
         | [] \<Rightarrow> Some ([], r))
      else if c = 0x5c then
        (case r of d # r' \<Rightarrow> map_option (\<lambda>(s, t). (unescapeByte d # s, t)) (lexLiteral mb r') | [] \<Rightarrow> None)
      else map_option (\<lambda>(s, t). (c # s, t)) (lexLiteral mb r))"
  by pat_completeness auto
termination by (relation "measure (length \<circ> snd)") auto

text \<open>The character sets for which the escaping is meant: the bytes of a character of several bytes are none
  of ASCII. The collations of \<open>UnsafeCollations\<close> belong to the others.\<close>

definition asciiSafe :: "(byte list \<Rightarrow> nat) \<Rightarrow> bool" where
  "asciiSafe mb \<longleftrightarrow> (\<forall>bs. 2 \<le> mb bs \<longrightarrow> list_all (\<lambda>b. 0x80 \<le> b) (take (mb bs) bs))"

text \<open>In the mode \<open>NO_BACKSLASH_ESCAPES\<close> a backslash is a byte like any other.\<close>

fun lexPlain :: "byte list \<Rightarrow> (byte list \<times> byte list) option" where
  "lexPlain [] = None"
| "lexPlain [c] = (if c = 0x27 then Some ([], []) else None)"
| "lexPlain (c # d # r) =
     (if c = 0x27 then
        (if d = 0x27 then map_option (\<lambda>(s, t). (0x27 # s, t)) (lexPlain r) else Some ([], d # r))
      else map_option (\<lambda>(s, t). (c # s, t)) (lexPlain (d # r)))"

lemma unescape_backslashFor: "backslashFor c = Some x \<Longrightarrow> unescapeByte x = c"
  by (auto simp: backslashFor_def unescapeByte_def split: if_splits)

lemma backslashFor_None: "backslashFor c = None \<Longrightarrow> c \<noteq> 0x27 \<and> c \<noteq> 0x5c"
  by (auto simp: backslashFor_def split: if_splits)

lemma lexPlain_end: "r = [] \<or> hd r \<noteq> 0x27 \<Longrightarrow> lexPlain (0x27 # r) = Some ([], r)"
  by (cases r) auto

lemma lexPlain_plain: "c \<noteq> 0x27 \<Longrightarrow> r \<noteq> [] \<Longrightarrow>
    lexPlain (c # r) = map_option (\<lambda>(s, t). (c # s, t)) (lexPlain r)"
  by (cases r) auto

text \<open>A run of bytes that are not of ASCII is escaped as it is, and the run at the head of an escaped text
  with its closing quote comes from the value.\<close>

lemma backslashFor_high: "0x80 \<le> c \<Longrightarrow> backslashFor c = None"
  by (auto simp: backslashFor_def word_le_nat_alt)

lemma backslashed_high: "list_all (\<lambda>b. 0x80 \<le> b) p \<Longrightarrow> backslashed (p @ v) = p @ backslashed v"
  by (induction p) (simp_all add: backslashFor_high)

lemma high_prefix:
  assumes "list_all (\<lambda>b. 0x80 \<le> b) (take n (backslashed v @ 0x27 # r))"
  shows "n \<le> length v \<and> take n (backslashed v @ 0x27 # r) = take n v \<and>
    drop n (backslashed v @ 0x27 # r) = backslashed (drop n v) @ 0x27 # r"
  using assms
proof (induction v arbitrary: n)
  case Nil
  then show ?case by (cases n) (simp_all add: word_le_nat_alt)
next
  case (Cons c v)
  show ?case
  proof (cases n)
    case (Suc k)
    show ?thesis
    proof (cases "backslashFor c")
      case None
      with Cons Suc show ?thesis by simp
    next
      case (Some x)
      with Cons.prems Suc show ?thesis by (simp add: word_le_nat_alt)
    qed
  qed simp
qed

lemma lexLiteral_backslashed:
  assumes stop: "r = [] \<or> hd r \<noteq> 0x27" and safe: "asciiSafe mb"
  shows "lexLiteral mb (backslashed v @ 0x27 # r) = Some (v, r)"
proof (induction v rule: length_induct)
  case (1 v)
  let ?t = "backslashed v @ 0x27 # r" and ?n = "mb (backslashed v @ 0x27 # r)"
  show ?case
  proof (cases "2 \<le> ?n")
    case True
    with safe have "list_all (\<lambda>b. 0x80 \<le> b) (take ?n ?t)" unfolding asciiSafe_def by blast
    from high_prefix [OF this] have h: "?n \<le> length v" "take ?n ?t = take ?n v"
      "drop ?n ?t = backslashed (drop ?n v) @ 0x27 # r" by simp_all
    have "length (drop ?n v) < length v" using True h(1) by simp
    then have ih: "lexLiteral mb (backslashed (drop ?n v) @ 0x27 # r) = Some (drop ?n v, r)" using 1 by blast
    obtain a w where t: "?t = a # w" by (cases ?t) auto
    have "lexLiteral mb ?t = map_option (\<lambda>(s, q). (take ?n ?t @ s, q)) (lexLiteral mb (drop ?n ?t))"
      using True unfolding t by simp
    then have "lexLiteral mb ?t = map_option (\<lambda>(s, q). (take ?n v @ s, q)) (Some (drop ?n v, r))"
      unfolding h(2,3) ih .
    then show ?thesis by simp
  next
    case False
    show ?thesis
    proof (cases v)
      case Nil
      with False stop show ?thesis by (cases r) simp_all
    next
      case (Cons c w)
      then have ih: "lexLiteral mb (backslashed w @ 0x27 # r) = Some (w, r)" using 1 by simp
      show ?thesis
      proof (cases "backslashFor c")
        case None
        with False Cons ih backslashFor_None [OF None] show ?thesis by simp
      next
        case (Some x)
        with False Cons ih unescape_backslashFor [OF Some] show ?thesis by simp
      qed
    qed
  qed
qed

lemma lexPlain_quoted:
  assumes "r = [] \<or> hd r \<noteq> 0x27"
  shows "lexPlain (quoted v @ 0x27 # r) = Some (v, r)"
proof (induction v)
  case Nil
  show ?case using lexPlain_end [OF assms] by simp
next
  case (Cons c v)
  then show ?case by (cases "c = 0x27") (simp_all add: lexPlain_plain)
qed

section \<open>Properties\<close>

text \<open>C35: both variants of the backslash escaping, for bytes and for strings, always return; they append to
  the buffer, and what they append is, in front of a closing quote, read back by the lexer as exactly the
  value, so that the value does not end its literal early, when the connection's character set is one
  whose characters of several bytes have no ASCII bytes (the sets of one byte, utf8, ujis, euckr). For
  the other sets, those of \<open>UnsafeCollations\<close> among them, it fails: \<open>escape_gbk_broken\<close>.\<close>

theorem escape_backslash_roundtrip:
  assumes "r = [] \<or> hd r \<noteq> 0x27" and "asciiSafe mb"
  shows "\<exists>s e. escapeBytesBackslash buf v = Ok s \<and> escapeStringBackslash buf v = Ok s \<and> vis s = vis buf @ e \<and>
    lexLiteral mb (e @ 0x27 # r) = Some (v, r)"
  using escapeBytesBackslash_spec [of buf v] lexLiteral_backslashed [OF assms, of v]
  by (auto simp: escapeStringBackslash_bytes)

text \<open>UTF-8 with characters of up to three bytes.\<close>

definition contByte :: "byte \<Rightarrow> bool" where
  "contByte b \<longleftrightarrow> 0x80 \<le> b \<and> b < 0xc0"

fun utf8Char :: "byte list \<Rightarrow> nat" where
  "utf8Char (a # b # c # r) =
     (if 0xc2 \<le> a \<and> a < 0xe0 \<and> contByte b then 2
      else if 0xe0 \<le> a \<and> a < 0xf0 \<and> contByte b \<and> contByte c then 3 else 0)"
| "utf8Char [a, b] = (if 0xc2 \<le> a \<and> a < 0xe0 \<and> contByte b then 2 else 0)"
| "utf8Char bs = 0"

lemma utf8_safe: "asciiSafe utf8Char"
  unfolding asciiSafe_def
proof
  show "2 \<le> utf8Char bs \<longrightarrow> list_all (\<lambda>b. 0x80 \<le> b) (take (utf8Char bs) bs)" for bs
    by (cases bs rule: utf8Char.cases) (auto simp: contByte_def word_le_nat_alt)
qed

theorem escape_backslash_roundtrip_witness:
  "\<exists>s e. escapeBytesBackslash (slice [0x27]) [0xc3, 0xa9, 0x27, 0x5c, 0x61] = Ok s \<and>
    escapeStringBackslash (slice [0x27]) [0xc3, 0xa9, 0x27, 0x5c, 0x61] = Ok s \<and> vis s = vis (slice [0x27]) @ e \<and>
    lexLiteral utf8Char (e @ 0x27 # [0x20]) = Some ([0xc3, 0xa9, 0x27, 0x5c, 0x61], [0x20])"
  by (rule escape_backslash_roundtrip [OF _ utf8_safe]) simp

text \<open>GBK, whose characters have two bytes of which the second can be a backslash. The value \<open>BF 27\<close> is escaped to
  \<open>BF 5C 27\<close>; the lexer takes the first two bytes as one character, and the quote, which was the value's,
  ends the literal.\<close>

fun gbkChar :: "byte list \<Rightarrow> nat" where
  "gbkChar (a # b # r) = (if 0x81 \<le> a \<and> a \<le> 0xfe \<and> (0x40 \<le> b \<and> b \<le> 0x7e \<or> 0x80 \<le> b \<and> b \<le> 0xfe) then 2 else 0)"
| "gbkChar bs = 0"

lemma backslashed_hd: "v \<noteq> [] \<Longrightarrow> \<exists>d q. backslashed v = d # q \<and> d \<noteq> 0x27"
  by (cases v) (auto simp: backslashFor_def)

lemma escape_gbk_broken:
  assumes "v \<noteq> []"
  shows "\<exists>s. escapeBytesBackslash (slice []) (0xbf # 0x27 # v) = Ok s \<and>
    lexLiteral gbkChar (vis s @ 0x27 # r) = Some ([0xbf, 0x5c], backslashed v @ 0x27 # r)"
proof -
  obtain s where s: "escapeBytesBackslash (slice []) (0xbf # 0x27 # v) = Ok s" "vis s = backslashed (0xbf # 0x27 # v)"
    using escapeBytesBackslash_spec [of "slice []" "0xbf # 0x27 # v"] by auto
  obtain d q where d: "backslashed v = d # q" "d \<noteq> 0x27" using backslashed_hd [OF assms] by blast
  have "backslashed (0xbf # 0x27 # v) = 0xbf # 0x5c # 0x27 # backslashed v" by (simp add: backslashFor_def)
  with s(2) d(1) have "vis s @ 0x27 # r = 0xbf # 0x5c # 0x27 # d # q @ 0x27 # r" by simp
  then show ?thesis using s(1) d by (intro exI [of _ s]) simp
qed

text \<open>The same for the escaping that doubles the quotes, for a server that takes backslashes as they
  are.\<close>

lemma escape_quotes_roundtrip:
  assumes "r = [] \<or> hd r \<noteq> 0x27"
  shows "\<exists>s e. escapeBytesQuotes buf v = Ok s \<and> escapeStringQuotes buf v = Ok s \<and> vis s = vis buf @ e \<and>
    lexPlain (e @ 0x27 # r) = Some (v, r)"
  using escapeBytesQuotes_spec [of buf v] lexPlain_quoted [OF assms, of v]
  by (auto simp: escapeStringQuotes_bytes)

lemma escape_quotes_roundtrip_witness:
  "\<exists>s e. escapeBytesQuotes (slice [0x27]) [0x27, 0x5c] = Ok s \<and> escapeStringQuotes (slice [0x27]) [0x27, 0x5c] = Ok s \<and>
    vis s = vis (slice [0x27]) @ e \<and> lexPlain (e @ 0x27 # [0x20]) = Some ([0x27, 0x5c], [0x20])"
  by (rule escape_quotes_roundtrip) simp

end
