(* ===== verification/Mysql_Auth.thy ===== *)
theory Mysql_Auth
  imports Mysql_Codec
begin

text \<open>
  The authentication part of \<^verbatim>\<open>mysql/utils.go\<close>: the token of the 4.1 protocol, the token of the
  older one with its hash and its generator of pseudo-random bytes, and the salt of a session.
  SHA-1 and the random source of \<^verbatim>\<open>math/rand\<close> are arguments; what is used of them is that a SHA-1
  digest has 20 bytes and that \<^verbatim>\<open>rand.Intn(127)\<close> is below 127.
\<close>

section \<open>The 4.1 token\<close>

text \<open>\<^verbatim>\<open>scramble[i] ^= stage1[i]\<close> over the first slice.\<close>

definition xorBytes :: "byte list \<Rightarrow> byte list \<Rightarrow> byte list res" where
  "xorBytes a b = (if length b < length a then Panic else Ok (map2 (XOR) a b))"

definition scramblePassword :: "(byte list \<Rightarrow> byte list) \<Rightarrow> byte list \<Rightarrow> byte list \<Rightarrow> byte list res" where
  "scramblePassword sha1 scramble password =
     (if length password = 0 then Ok []
      else
        (let stage1 = sha1 password;
             hash = sha1 stage1;
             scramble = sha1 (scramble @ hash)
         in xorBytes scramble stage1))"

definition ScramblePassword :: "(byte list \<Rightarrow> byte list) \<Rightarrow> byte list \<Rightarrow> byte list \<Rightarrow> byte list res" where
  "ScramblePassword sha1 scramble password = scramblePassword sha1 scramble password"

text \<open>
  What a MySQL server does with the token: it knows \<open>SHA1(SHA1(password))\<close>, takes the token apart
  with the salt it sent and compares hashes.
\<close>

definition serverAccepts :: "(byte list \<Rightarrow> byte list) \<Rightarrow> byte list \<Rightarrow> byte list \<Rightarrow> byte list \<Rightarrow> bool" where
  "serverAccepts sha1 salt stored token \<longleftrightarrow>
     (if token = [] then stored = []
      else length token = 20 \<and> sha1 (map2 (XOR) token (sha1 (salt @ stored))) = stored)"

definition storedHash :: "(byte list \<Rightarrow> byte list) \<Rightarrow> byte list \<Rightarrow> byte list" where
  "storedHash sha1 password = (if password = [] then [] else sha1 (sha1 password))"

lemma map2_xor_cancel:
  "length a = length b \<Longrightarrow> map2 (XOR) (map2 (XOR) a b) a = (b :: byte list)"
proof (induction a b rule: list_induct2)
  case (Cons x xs y ys)
  have "(x XOR y) XOR x = y" by (metis xor.assoc xor.commute xor_self_eq xor.left_neutral)
  with Cons show ?case by simp
qed simp

lemma scramblePassword_length:
  assumes "\<And>x. length (sha1 x) = 20"
  shows "\<exists>t. scramblePassword sha1 salt password = Ok t \<and> length t = (if password = [] then 0 else 20)"
  by (simp add: scramblePassword_def xorBytes_def Let_def assms)

text \<open>C13: whatever the salt and the password, and for every hash function with digests of 20 bytes, the token is
  one that MySQL's check accepts, knowing only the double hash of the password.\<close>

theorem scramblePassword_accepted:
  assumes "\<And>x. length (sha1 x) = 20"
  shows "\<exists>t. scramblePassword sha1 salt password = Ok t \<and>
    serverAccepts sha1 salt (storedHash sha1 password) t"
proof (cases "password = []")
  case True
  then show ?thesis by (simp add: scramblePassword_def serverAccepts_def storedHash_def)
next
  case False
  let ?h = "sha1 (salt @ sha1 (sha1 password))" and ?s = "sha1 password"
  have t: "scramblePassword sha1 salt password = Ok (map2 (XOR) ?h ?s)"
    using False by (simp add: scramblePassword_def xorBytes_def Let_def assms)
  have l: "length (map2 (XOR) ?h ?s) = 20" by (simp add: assms)
  then have ne: "map2 (XOR) ?h ?s \<noteq> []" by (metis list.size(3) zero_neq_numeral)
  have "serverAccepts sha1 salt (storedHash sha1 password) (map2 (XOR) ?h ?s)"
    unfolding serverAccepts_def storedHash_def using False ne l map2_xor_cancel [of ?h ?s]
    by (simp add: assms)
  with t show ?thesis by blast
qed

theorem scramblePassword_accepted_witness:
  "\<exists>t. scramblePassword (\<lambda>x. take 20 (x @ replicate 20 1)) [1, 2, 3] [4, 5] = Ok t \<and>
    serverAccepts (\<lambda>x. take 20 (x @ replicate 20 1)) [1, 2, 3] (storedHash (\<lambda>x. take 20 (x @ replicate 20 1)) [4, 5]) t"
  by (rule scramblePassword_accepted) simp

section \<open>The salt\<close>

definition RandomBuf :: "(nat \<Rightarrow> nat) \<Rightarrow> nat \<Rightarrow> byte list" where
  "RandomBuf intn n =
     map (\<lambda>i. let b = of_nat (intn i) :: byte in if b = 0 \<or> b = 0x24 then b + 1 else b) [0..<n]"

text \<open>The salt has the length asked for, and no byte of it is a NUL, which would end it early, or a dollar
  sign, or has the high bit; \<^verbatim>\<open>rand.Intn(127)\<close> is below 127.\<close>

lemma RandomBuf_clean:
  assumes "\<And>i. intn i < 127"
  shows "length (RandomBuf intn n) = n \<and>
    (\<forall>b \<in> set (RandomBuf intn n). b \<noteq> 0 \<and> b \<noteq> 0x24 \<and> b < 0x7f)"
proof -
  have "b < 0x7f" if "b = of_nat (intn i)" for b :: byte and i
    using assms [of i] that by (simp add: word_less_nat_alt unat_of_nat take_bit_eq_mod)
  then show ?thesis by (auto simp: RandomBuf_def Let_def)
qed

lemma RandomBuf_clean_witness:
  "length (RandomBuf (\<lambda>i. (i * 36) mod 127) 20) = 20 \<and>
    (\<forall>b \<in> set (RandomBuf (\<lambda>i. (i * 36) mod 127) 20). b \<noteq> 0 \<and> b \<noteq> 0x24 \<and> b < 0x7f)"
  by (rule RandomBuf_clean) simp

section \<open>The old token\<close>

record myRnd =
  seed1 :: u32
  seed2 :: u32

definition myRndMaxVal :: u32 where "myRndMaxVal = 0x3FFFFFFF"

definition newMyRnd :: "u32 \<Rightarrow> u32 \<Rightarrow> myRnd" where
  "newMyRnd s1 s2 = \<lparr>seed1 = s1 mod myRndMaxVal, seed2 = s2 mod myRndMaxVal\<rparr>"

definition NextByte :: "myRnd \<Rightarrow> byte \<times> myRnd" where
  "NextByte r =
     (let s1 = (seed1 r * 3 + seed2 r) mod myRndMaxVal;
          s2 = (s1 + seed2 r + 33) mod myRndMaxVal
      in (ucast ((ucast s1 :: u64) * 31 div ucast myRndMaxVal), \<lparr>seed1 = s1, seed2 = s2\<rparr>))"

fun pwHashLoop :: "u32 \<Rightarrow> u32 \<Rightarrow> u32 \<Rightarrow> byte list \<Rightarrow> u32 \<times> u32" where
  "pwHashLoop r0 r1 add [] = (r0, r1)"
| "pwHashLoop r0 r1 add (c # cs) =
     (if c = 0x20 \<or> c = 0x09 then pwHashLoop r0 r1 add cs
      else
        (let tmp = ucast c;
             r0 = r0 XOR ((((r0 AND 63) + add) * tmp) + push_bit 8 r0);
             r1 = r1 + (push_bit 8 r1 XOR r0)
         in pwHashLoop r0 r1 (add + tmp) cs))"

definition pwHash :: "byte list \<Rightarrow> u32 \<times> u32" where
  "pwHash password =
     (case pwHashLoop 1345345333 0x12345671 7 password of
        (r0, r1) \<Rightarrow> (r0 AND 0x7FFFFFFF, r1 AND 0x7FFFFFFF))"

text \<open>\<open>k\<close> calls of \<open>NextByte\<close>.\<close>

fun nextBytes :: "nat \<Rightarrow> myRnd \<Rightarrow> byte list \<times> myRnd" where
  "nextBytes 0 r = ([], r)"
| "nextBytes (Suc k) r =
     (case NextByte r of (b, r) \<Rightarrow> (case nextBytes k r of (bs, r) \<Rightarrow> (b # bs, r)))"

definition scrambleOldPassword :: "gslice \<Rightarrow> byte list \<Rightarrow> byte list res" where
  "scrambleOldPassword scramble password =
     (if length password = 0 then Ok []
      else bindR (gsub scramble 0 8) (\<lambda>scramble.
        (let hashPw = pwHash password;
             hashSc = pwHash (vis scramble);
             r = newMyRnd (fst hashPw XOR fst hashSc) (snd hashPw XOR snd hashSc)
         in case nextBytes 8 r of
              (bs, r) \<Rightarrow>
                (let out = map (\<lambda>b. b + 64) bs; mask = fst (NextByte r)
                 in Ok (map (\<lambda>b. b XOR mask) out)))))"

lemma NextByte_less: "fst (NextByte r) < 31"
proof -
  define s where "s = (seed1 r * 3 + seed2 r) mod myRndMaxVal"
  have s: "unat s < 0x3FFFFFFF"
    using mod_less_divisor [of "0x3FFFFFFF" "unat (seed1 r * 3 + seed2 r)"]
    by (simp add: s_def myRndMaxVal_def unat_mod)
  have "unat ((ucast s :: u64) * 31) = unat s * 31"
    using s by (simp add: unat_word_ariths unsigned_ucast_eq take_bit_eq_mod)
  then have "unat ((ucast s :: u64) * 31 div ucast myRndMaxVal) = unat s * 31 div 0x3FFFFFFF"
    by (simp add: unat_div myRndMaxVal_def)
  moreover have "unat s * 31 div 0x3FFFFFFF < 31" using s by (simp add: div_less_iff_less_mult)
  ultimately have "unat (fst (NextByte r)) < 31"
    by (simp add: NextByte_def Let_def s_def unsigned_ucast_eq take_bit_eq_mod)
  then show ?thesis by (simp add: word_less_nat_alt)
qed

lemma nextBytes_less: "nextBytes k r = (bs, r') \<Longrightarrow> length bs = k \<and> (\<forall>b \<in> set bs. b < 31)"
proof (induction k arbitrary: r bs)
  case (Suc k)
  then show ?case using NextByte_less [of r] by (auto split: prod.splits)
qed simp

lemma xor_range:
  fixes b m :: byte
  assumes "b < 31" and "m < 31"
  shows "0x40 \<le> (b + 64) XOR m \<and> (b + 64) XOR m < 0x60"
proof -
  have l: "unat b < 31" "unat m < 31" using assms by (simp_all add: word_less_nat_alt)
  have "drop_bit 5 m = 0" using l by (simp add: word_unat_eq_iff drop_bit_eq_div unat_div)
  moreover have "unat (b + 64) = unat b + 64" using l by (simp add: unat_word_ariths)
  then have "drop_bit 5 (b + 64) = 2"
    using l by (simp add: word_unat_eq_iff drop_bit_eq_div unat_div)
  ultimately have "drop_bit 5 ((b + 64) XOR m) = 2" by (simp add: drop_bit_xor)
  then have "unat ((b + 64) XOR m) div 32 = 2"
    by (simp add: word_unat_eq_iff drop_bit_eq_div unat_div)
  then have "64 \<le> unat ((b + 64) XOR m)" and "unat ((b + 64) XOR m) < 96"
    using div_mult_mod_eq [of "unat ((b + 64) XOR m)" 32] mod_less_divisor [of 32 "unat ((b + 64) XOR m)"]
    by linarith+
  then show ?thesis by (simp add: word_less_nat_alt word_le_nat_alt)
qed

text \<open>The token for the old authentication has eight bytes, all of them from 0x40 to 0x5f.\<close>

lemma scrambleOldPassword_range:
  assumes "8 \<le> length (vis scramble)" and "password \<noteq> []"
  shows "\<exists>t. scrambleOldPassword scramble password = Ok t \<and> length t = 8 \<and>
    (\<forall>b \<in> set t. 0x40 \<le> b \<and> b < 0x60)"
proof -
  obtain s where s: "gsub scramble 0 8 = Ok s" using gsub_in [of 0 8 scramble] assms by simp
  let ?r = "newMyRnd (fst (pwHash password) XOR fst (pwHash (vis s))) (snd (pwHash password) XOR snd (pwHash (vis s)))"
  obtain bs r where b: "nextBytes 8 ?r = (bs, r)" by fastforce
  from nextBytes_less [OF b] have "length bs = 8" and l: "\<forall>b \<in> set bs. b < 31" by auto
  moreover have "scrambleOldPassword scramble password =
      Ok (map (\<lambda>b. b XOR fst (NextByte r)) (map (\<lambda>b. b + 64) bs))"
    using assms s b by (simp add: scrambleOldPassword_def Let_def)
  ultimately show ?thesis using xor_range NextByte_less [of r] by auto
qed

lemma scrambleOldPassword_range_witness:
  "\<exists>t. scrambleOldPassword (slice [1, 2, 3, 4, 5, 6, 7, 8, 9]) [0x61, 0x62] = Ok t \<and> length t = 8 \<and>
    (\<forall>b \<in> set t. 0x40 \<le> b \<and> b < 0x60)"
  by (rule scrambleOldPassword_range) simp_all

text \<open>Blanks and tabs do not count.\<close>

lemma pwHashLoop_blanks:
  "pwHashLoop r0 r1 add (filter (\<lambda>c. c \<noteq> 0x20 \<and> c \<noteq> 0x09) p) = pwHashLoop r0 r1 add p"
  by (induction r0 r1 add p rule: pwHashLoop.induct) (auto simp: Let_def)

lemma pwHash_blanks: "pwHash (filter (\<lambda>c. c \<noteq> 0x20 \<and> c \<noteq> 0x09) p) = pwHash p"
  by (simp add: pwHash_def pwHashLoop_blanks)

text \<open>Blanks and tabs of the password do not count for the old token: passwords that differ in them only
  give the same one.\<close>

lemma scrambleOldPassword_blanks:
  assumes "filter (\<lambda>c. c \<noteq> 0x20 \<and> c \<noteq> 0x09) p = filter (\<lambda>c. c \<noteq> 0x20 \<and> c \<noteq> 0x09) q"
    and "p \<noteq> []" and "q \<noteq> []"
  shows "scrambleOldPassword scramble p = scrambleOldPassword scramble q"
proof -
  have "pwHash p = pwHash q" using pwHash_blanks [of p] pwHash_blanks [of q] assms(1) by simp
  with assms show ?thesis by (simp add: scrambleOldPassword_def)
qed

lemma scrambleOldPassword_blanks_witness:
  "scrambleOldPassword (slice [1, 2, 3, 4, 5, 6, 7, 8]) [0x61, 0x20, 0x62] =
    scrambleOldPassword (slice [1, 2, 3, 4, 5, 6, 7, 8]) [0x09, 0x61, 0x62]"
  by (rule scrambleOldPassword_blanks) simp_all

end
