(* ===== verification/Mysql_Tables.thy ===== *)
theory Mysql_Tables
  imports Mysql_Error
begin

text \<open>
  The tables of \<^verbatim>\<open>mysql/errcode.go\<close>, \<^verbatim>\<open>mysql/errname.go\<close> and \<^verbatim>\<open>mysql/state.go\<close>: the error codes by
  name, their message formats and their SQLSTATE values, the last two keyed by the codes.
\<close>

section \<open>Codes\<close>

definition errCodes1 :: "(string \<times> u16) list" where
  "errCodes1 =
    [(''ErrErrorFirst'', 1000),
     (''ErrHashchk'', 1000),
     (''ErrNisamchk'', 1001),
     (''ErrNo'', 1002),
     (''ErrYes'', 1003),
     (''ErrCantCreateFile'', 1004),
     (''ErrCantCreateTable'', 1005),
     (''ErrCantCreateDb'', 1006),
     (''ErrDbCreateExists'', 1007),
     (''ErrDbDropExists'', 1008),
     (''ErrDbDropDelete'', 1009),
     (''ErrDbDropRmdir'', 1010),
     (''ErrCantDeleteFile'', 1011),
     (''ErrCantFindSystemRec'', 1012),
     (''ErrCantGetStat'', 1013),
     (''ErrCantGetWd'', 1014),
     (''ErrCantLock'', 1015),
     (''ErrCantOpenFile'', 1016),
     (''ErrFileNotFound'', 1017),
     (''ErrCantReadDir'', 1018),
     (''ErrCantSetWd'', 1019),
     (''ErrCheckread'', 1020),
     (''ErrDiskFull'', 1021),
     (''ErrDupKey'', 1022),
     (''ErrErrorOnClose'', 1023),
     (''ErrErrorOnRead'', 1024),
     (''ErrErrorOnRename'', 1025),
     (''ErrErrorOnWrite'', 1026),
     (''ErrFileUsed'', 1027),
     (''ErrFilsortAbort'', 1028),
     (''ErrFormNotFound'', 1029),
     (''ErrGetErrno'', 1030),
     (''ErrIllegalHa'', 1031),
     (''ErrKeyNotFound'', 1032),
     (''ErrNotFormFile'', 1033),
     (''ErrNotKeyfile'', 1034),
     (''ErrOldKeyfile'', 1035),
     (''ErrOpenAsReadonly'', 1036),
     (''ErrOutofmemory'', 1037),
     (''ErrOutOfSortmemory'', 1038),
     (''ErrUnexpectedEOF'', 1039),
     (''ErrConCount'', 1040),
     (''ErrOutOfResources'', 1041),
     (''ErrBadHost'', 1042),
     (''ErrHandshake'', 1043),
     (''ErrDbaccessDenied'', 1044),
     (''ErrAccessDenied'', 1045),
     (''ErrNoDb'', 1046),
     (''ErrUnknownCom'', 1047),
     (''ErrBadNull'', 1048),
     (''ErrBadDb'', 1049),
     (''ErrTableExists'', 1050),
     (''ErrBadTable'', 1051),
     (''ErrNonUniq'', 1052),
     (''ErrServerShutdown'', 1053),
     (''ErrBadField'', 1054),
     (''ErrWrongFieldWithGroup'', 1055),
     (''ErrWrongGroupField'', 1056),
     (''ErrWrongSumSelect'', 1057),
     (''ErrWrongValueCount'', 1058),
     (''ErrTooLongIdent'', 1059),
     (''ErrDupFieldname'', 1060),
     (''ErrDupKeyname'', 1061),
     (''ErrDupEntry'', 1062),
     (''ErrWrongFieldSpec'', 1063),
     (''ErrParse'', 1064),
     (''ErrEmptyQuery'', 1065),
     (''ErrNonuniqTable'', 1066),
     (''ErrInvalidDefault'', 1067),
     (''ErrMultiplePriKey'', 1068),
     (''ErrTooManyKeys'', 1069),
     (''ErrTooManyKeyParts'', 1070),
     (''ErrTooLongKey'', 1071),
     (''ErrKeyColumnDoesNotExits'', 1072),
     (''ErrBlobUsedAsKey'', 1073),
     (''ErrTooBigFieldlength'', 1074),
     (''ErrWrongAutoKey'', 1075),
     (''ErrReady'', 1076),
     (''ErrNormalShutdown'', 1077),
     (''ErrGotSignal'', 1078),
     (''ErrShutdownComplete'', 1079),
     (''ErrForcingClose'', 1080),
     (''ErrIpsock'', 1081),
     (''ErrNoSuchIndex'', 1082),
     (''ErrWrongFieldTerminators'', 1083),
     (''ErrBlobsAndNoTerminated'', 1084),
     (''ErrTextfileNotReadable'', 1085),
     (''ErrFileExists'', 1086),
     (''ErrLoadInfo'', 1087),
     (''ErrAlterInfo'', 1088),
     (''ErrWrongSubKey'', 1089),
     (''ErrCantRemoveAllFields'', 1090),
     (''ErrCantDropFieldOrKey'', 1091),
     (''ErrInsertInfo'', 1092),
     (''ErrUpdateTableUsed'', 1093),
     (''ErrNoSuchThread'', 1094),
     (''ErrKillDenied'', 1095),
     (''ErrNoTablesUsed'', 1096),
     (''ErrTooBigSet'', 1097),
     (''ErrNoUniqueLogfile'', 1098),
     (''ErrTableNotLockedForWrite'', 1099),
     (''ErrTableNotLocked'', 1100),
     (''ErrBlobCantHaveDefault'', 1101),
     (''ErrWrongDbName'', 1102),
     (''ErrWrongTableName'', 1103),
     (''ErrTooBigSelect'', 1104),
     (''ErrUnknown'', 1105),
     (''ErrUnknownProcedure'', 1106),
     (''ErrWrongParamcountToProcedure'', 1107),
     (''ErrWrongParametersToProcedure'', 1108),
     (''ErrUnknownTable'', 1109),
     (''ErrFieldSpecifiedTwice'', 1110),
     (''ErrInvalidGroupFuncUse'', 1111),
     (''ErrUnsupportedExtension'', 1112),
     (''ErrTableMustHaveColumns'', 1113),
     (''ErrRecordFileFull'', 1114),
     (''ErrUnknownCharacterSet'', 1115),
     (''ErrTooManyTables'', 1116),
     (''ErrTooManyFields'', 1117),
     (''ErrTooBigRowsize'', 1118),
     (''ErrStackOverrun'', 1119),
     (''ErrWrongOuterJoin'', 1120),
     (''ErrNullColumnInIndex'', 1121),
     (''ErrCantFindUdf'', 1122),
     (''ErrCantInitializeUdf'', 1123),
     (''ErrUdfNoPaths'', 1124),
     (''ErrUdfExists'', 1125),
     (''ErrCantOpenLibrary'', 1126),
     (''ErrCantFindDlEntry'', 1127),
     (''ErrFunctionNotDefined'', 1128),
     (''ErrHostIsBlocked'', 1129),
     (''ErrHostNotPrivileged'', 1130),
     (''ErrPasswordAnonymousUser'', 1131),
     (''ErrPasswordNotAllowed'', 1132),
     (''ErrPasswordNoMatch'', 1133),
     (''ErrUpdateInfo'', 1134),
     (''ErrCantCreateThread'', 1135),
     (''ErrWrongValueCountOnRow'', 1136),
     (''ErrCantReopenTable'', 1137),
     (''ErrInvalidUseOfNull'', 1138),
     (''ErrRegexp'', 1139),
     (''ErrMixOfGroupFuncAndFields'', 1140),
     (''ErrNonexistingGrant'', 1141),
     (''ErrTableaccessDenied'', 1142),
     (''ErrColumnaccessDenied'', 1143)]"

definition errCodes2 :: "(string \<times> u16) list" where
  "errCodes2 =
    [(''ErrIllegalGrantForTable'', 1144),
     (''ErrGrantWrongHostOrUser'', 1145),
     (''ErrNoSuchTable'', 1146),
     (''ErrNonexistingTableGrant'', 1147),
     (''ErrNotAllowedCommand'', 1148),
     (''ErrSyntax'', 1149),
     (''ErrDelayedCantChangeLock'', 1150),
     (''ErrTooManyDelayedThreads'', 1151),
     (''ErrAbortingConnection'', 1152),
     (''ErrNetPacketTooLarge'', 1153),
     (''ErrNetReadErrorFromPipe'', 1154),
     (''ErrNetFcntl'', 1155),
     (''ErrNetPacketsOutOfOrder'', 1156),
     (''ErrNetUncompress'', 1157),
     (''ErrNetRead'', 1158),
     (''ErrNetReadInterrupted'', 1159),
     (''ErrNetErrorOnWrite'', 1160),
     (''ErrNetWriteInterrupted'', 1161),
     (''ErrTooLongString'', 1162),
     (''ErrTableCantHandleBlob'', 1163),
     (''ErrTableCantHandleAutoIncrement'', 1164),
     (''ErrDelayedInsertTableLocked'', 1165),
     (''ErrWrongColumnName'', 1166),
     (''ErrWrongKeyColumn'', 1167),
     (''ErrWrongMrgTable'', 1168),
     (''ErrDupUnique'', 1169),
     (''ErrBlobKeyWithoutLength'', 1170),
     (''ErrPrimaryCantHaveNull'', 1171),
     (''ErrTooManyRows'', 1172),
     (''ErrRequiresPrimaryKey'', 1173),
     (''ErrNoRaidCompiled'', 1174),
     (''ErrUpdateWithoutKeyInSafeMode'', 1175),
     (''ErrKeyDoesNotExits'', 1176),
     (''ErrCheckNoSuchTable'', 1177),
     (''ErrCheckNotImplemented'', 1178),
     (''ErrCantDoThisDuringAnTransaction'', 1179),
     (''ErrErrorDuringCommit'', 1180),
     (''ErrErrorDuringRollback'', 1181),
     (''ErrErrorDuringFlushLogs'', 1182),
     (''ErrErrorDuringCheckpoint'', 1183),
     (''ErrNewAbortingConnection'', 1184),
     (''ErrDumpNotImplemented'', 1185),
     (''ErrFlushMasterBinlogClosed'', 1186),
     (''ErrIndexRebuild'', 1187),
     (''ErrMaster'', 1188),
     (''ErrMasterNetRead'', 1189),
     (''ErrMasterNetWrite'', 1190),
     (''ErrFtMatchingKeyNotFound'', 1191),
     (''ErrLockOrActiveTransaction'', 1192),
     (''ErrUnknownSystemVariable'', 1193),
     (''ErrCrashedOnUsage'', 1194),
     (''ErrCrashedOnRepair'', 1195),
     (''ErrWarningNotCompleteRollback'', 1196),
     (''ErrTransCacheFull'', 1197),
     (''ErrSlaveMustStop'', 1198),
     (''ErrSlaveNotRunning'', 1199),
     (''ErrBadSlave'', 1200),
     (''ErrMasterInfo'', 1201),
     (''ErrSlaveThread'', 1202),
     (''ErrTooManyUserConnections'', 1203),
     (''ErrSetConstantsOnly'', 1204),
     (''ErrLockWaitTimeout'', 1205),
     (''ErrLockTableFull'', 1206),
     (''ErrReadOnlyTransaction'', 1207),
     (''ErrDropDbWithReadLock'', 1208),
     (''ErrCreateDbWithReadLock'', 1209),
     (''ErrWrongArguments'', 1210),
     (''ErrNoPermissionToCreateUser'', 1211),
     (''ErrUnionTablesInDifferentDir'', 1212),
     (''ErrLockDeadlock'', 1213),
     (''ErrTableCantHandleFt'', 1214),
     (''ErrCannotAddForeign'', 1215),
     (''ErrNoReferencedRow'', 1216),
     (''ErrRowIsReferenced'', 1217),
     (''ErrConnectToMaster'', 1218),
     (''ErrQueryOnMaster'', 1219),
     (''ErrErrorWhenExecutingCommand'', 1220),
     (''ErrWrongUsage'', 1221),
     (''ErrWrongNumberOfColumnsInSelect'', 1222),
     (''ErrCantUpdateWithReadlock'', 1223),
     (''ErrMixingNotAllowed'', 1224),
     (''ErrDupArgument'', 1225),
     (''ErrUserLimitReached'', 1226),
     (''ErrSpecificAccessDenied'', 1227),
     (''ErrLocalVariable'', 1228),
     (''ErrGlobalVariable'', 1229),
     (''ErrNoDefault'', 1230),
     (''ErrWrongValueForVar'', 1231),
     (''ErrWrongTypeForVar'', 1232),
     (''ErrVarCantBeRead'', 1233),
     (''ErrCantUseOptionHere'', 1234),
     (''ErrNotSupportedYet'', 1235),
     (''ErrMasterFatalErrorReadingBinlog'', 1236),
     (''ErrSlaveIgnoredTable'', 1237),
     (''ErrIncorrectGlobalLocalVar'', 1238),
     (''ErrWrongFkDef'', 1239),
     (''ErrKeyRefDoNotMatchTableRef'', 1240),
     (''ErrOperandColumns'', 1241),
     (''ErrSubqueryNo1Row'', 1242),
     (''ErrUnknownStmtHandler'', 1243),
     (''ErrCorruptHelpDb'', 1244),
     (''ErrCyclicReference'', 1245),
     (''ErrAutoConvert'', 1246),
     (''ErrIllegalReference'', 1247),
     (''ErrDerivedMustHaveAlias'', 1248),
     (''ErrSelectReduced'', 1249),
     (''ErrTablenameNotAllowedHere'', 1250),
     (''ErrNotSupportedAuthMode'', 1251),
     (''ErrSpatialCantHaveNull'', 1252),
     (''ErrCollationCharsetMismatch'', 1253),
     (''ErrSlaveWasRunning'', 1254),
     (''ErrSlaveWasNotRunning'', 1255),
     (''ErrTooBigForUncompress'', 1256),
     (''ErrZlibZMem'', 1257),
     (''ErrZlibZBuf'', 1258),
     (''ErrZlibZData'', 1259),
     (''ErrCutValueGroupConcat'', 1260),
     (''ErrWarnTooFewRecords'', 1261),
     (''ErrWarnTooManyRecords'', 1262),
     (''ErrWarnNullToNotnull'', 1263),
     (''ErrWarnDataOutOfRange'', 1264),
     (''WarnDataTruncated'', 1265),
     (''ErrWarnUsingOtherHandler'', 1266),
     (''ErrCantAggregate2collations'', 1267),
     (''ErrDropUser'', 1268),
     (''ErrRevokeGrants'', 1269),
     (''ErrCantAggregate3collations'', 1270),
     (''ErrCantAggregateNcollations'', 1271),
     (''ErrVariableIsNotStruct'', 1272),
     (''ErrUnknownCollation'', 1273),
     (''ErrSlaveIgnoredSslParams'', 1274),
     (''ErrServerIsInSecureAuthMode'', 1275),
     (''ErrWarnFieldResolved'', 1276),
     (''ErrBadSlaveUntilCond'', 1277),
     (''ErrMissingSkipSlave'', 1278),
     (''ErrUntilCondIgnored'', 1279),
     (''ErrWrongNameForIndex'', 1280),
     (''ErrWrongNameForCatalog'', 1281),
     (''ErrWarnQcResize'', 1282),
     (''ErrBadFtColumn'', 1283),
     (''ErrUnknownKeyCache'', 1284),
     (''ErrWarnHostnameWontWork'', 1285),
     (''ErrUnknownStorageEngine'', 1286),
     (''ErrWarnDeprecatedSyntax'', 1287),
     (''ErrNonUpdatableTable'', 1288)]"

definition errCodes3 :: "(string \<times> u16) list" where
  "errCodes3 =
    [(''ErrFeatureDisabled'', 1289),
     (''ErrOptionPreventsStatement'', 1290),
     (''ErrDuplicatedValueInType'', 1291),
     (''ErrTruncatedWrongValue'', 1292),
     (''ErrTooMuchAutoTimestampCols'', 1293),
     (''ErrInvalidOnUpdate'', 1294),
     (''ErrUnsupportedPs'', 1295),
     (''ErrGetErrmsg'', 1296),
     (''ErrGetTemporaryErrmsg'', 1297),
     (''ErrUnknownTimeZone'', 1298),
     (''ErrWarnInvalidTimestamp'', 1299),
     (''ErrInvalidCharacterString'', 1300),
     (''ErrWarnAllowedPacketOverflowed'', 1301),
     (''ErrConflictingDeclarations'', 1302),
     (''ErrSpNoRecursiveCreate'', 1303),
     (''ErrSpAlreadyExists'', 1304),
     (''ErrSpDoesNotExist'', 1305),
     (''ErrSpDropFailed'', 1306),
     (''ErrSpStoreFailed'', 1307),
     (''ErrSpLilabelMismatch'', 1308),
     (''ErrSpLabelRedefine'', 1309),
     (''ErrSpLabelMismatch'', 1310),
     (''ErrSpUninitVar'', 1311),
     (''ErrSpBadselect'', 1312),
     (''ErrSpBadreturn'', 1313),
     (''ErrSpBadstatement'', 1314),
     (''ErrUpdateLogDeprecatedIgnored'', 1315),
     (''ErrUpdateLogDeprecatedTranslated'', 1316),
     (''ErrQueryInterrupted'', 1317),
     (''ErrSpWrongNoOfArgs'', 1318),
     (''ErrSpCondMismatch'', 1319),
     (''ErrSpNoreturn'', 1320),
     (''ErrSpNoreturnend'', 1321),
     (''ErrSpBadCursorQuery'', 1322),
     (''ErrSpBadCursorSelect'', 1323),
     (''ErrSpCursorMismatch'', 1324),
     (''ErrSpCursorAlreadyOpen'', 1325),
     (''ErrSpCursorNotOpen'', 1326),
     (''ErrSpUndeclaredVar'', 1327),
     (''ErrSpWrongNoOfFetchArgs'', 1328),
     (''ErrSpFetchNoData'', 1329),
     (''ErrSpDupParam'', 1330),
     (''ErrSpDupVar'', 1331),
     (''ErrSpDupCond'', 1332),
     (''ErrSpDupCurs'', 1333),
     (''ErrSpCantAlter'', 1334),
     (''ErrSpSubselectNyi'', 1335),
     (''ErrStmtNotAllowedInSfOrTrg'', 1336),
     (''ErrSpVarcondAfterCurshndlr'', 1337),
     (''ErrSpCursorAfterHandler'', 1338),
     (''ErrSpCaseNotFound'', 1339),
     (''ErrFparserTooBigFile'', 1340),
     (''ErrFparserBadHeader'', 1341),
     (''ErrFparserEOFInComment'', 1342),
     (''ErrFparserErrorInParameter'', 1343),
     (''ErrFparserEOFInUnknownParameter'', 1344),
     (''ErrViewNoExplain'', 1345),
     (''ErrFrmUnknownType'', 1346),
     (''ErrWrongObject'', 1347),
     (''ErrNonupdateableColumn'', 1348),
     (''ErrViewSelectDerived'', 1349),
     (''ErrViewSelectClause'', 1350),
     (''ErrViewSelectVariable'', 1351),
     (''ErrViewSelectTmptable'', 1352),
     (''ErrViewWrongList'', 1353),
     (''ErrWarnViewMerge'', 1354),
     (''ErrWarnViewWithoutKey'', 1355),
     (''ErrViewInvalid'', 1356),
     (''ErrSpNoDropSp'', 1357),
     (''ErrSpGotoInHndlr'', 1358),
     (''ErrTrgAlreadyExists'', 1359),
     (''ErrTrgDoesNotExist'', 1360),
     (''ErrTrgOnViewOrTempTable'', 1361),
     (''ErrTrgCantChangeRow'', 1362),
     (''ErrTrgNoSuchRowInTrg'', 1363),
     (''ErrNoDefaultForField'', 1364),
     (''ErrDivisionByZero'', 1365),
     (''ErrTruncatedWrongValueForField'', 1366),
     (''ErrIllegalValueForType'', 1367),
     (''ErrViewNonupdCheck'', 1368),
     (''ErrViewCheckFailed'', 1369),
     (''ErrProcaccessDenied'', 1370),
     (''ErrRelayLogFail'', 1371),
     (''ErrPasswdLength'', 1372),
     (''ErrUnknownTargetBinlog'', 1373),
     (''ErrIoErrLogIndexRead'', 1374),
     (''ErrBinlogPurgeProhibited'', 1375),
     (''ErrFseekFail'', 1376),
     (''ErrBinlogPurgeFatalErr'', 1377),
     (''ErrLogInUse'', 1378),
     (''ErrLogPurgeUnknownErr'', 1379),
     (''ErrRelayLogInit'', 1380),
     (''ErrNoBinaryLogging'', 1381),
     (''ErrReservedSyntax'', 1382),
     (''ErrWsasFailed'', 1383),
     (''ErrDiffGroupsProc'', 1384),
     (''ErrNoGroupForProc'', 1385),
     (''ErrOrderWithProc'', 1386),
     (''ErrLoggingProhibitChangingOf'', 1387),
     (''ErrNoFileMapping'', 1388),
     (''ErrWrongMagic'', 1389),
     (''ErrPsManyParam'', 1390),
     (''ErrKeyPart0'', 1391),
     (''ErrViewChecksum'', 1392),
     (''ErrViewMultiupdate'', 1393),
     (''ErrViewNoInsertFieldList'', 1394),
     (''ErrViewDeleteMergeView'', 1395),
     (''ErrCannotUser'', 1396),
     (''ErrXaerNota'', 1397),
     (''ErrXaerInval'', 1398),
     (''ErrXaerRmfail'', 1399),
     (''ErrXaerOutside'', 1400),
     (''ErrXaerRmerr'', 1401),
     (''ErrXaRbrollback'', 1402),
     (''ErrNonexistingProcGrant'', 1403),
     (''ErrProcAutoGrantFail'', 1404),
     (''ErrProcAutoRevokeFail'', 1405),
     (''ErrDataTooLong'', 1406),
     (''ErrSpBadSQLstate'', 1407),
     (''ErrStartup'', 1408),
     (''ErrLoadFromFixedSizeRowsToVar'', 1409),
     (''ErrCantCreateUserWithGrant'', 1410),
     (''ErrWrongValueForType'', 1411),
     (''ErrTableDefChanged'', 1412),
     (''ErrSpDupHandler'', 1413),
     (''ErrSpNotVarArg'', 1414),
     (''ErrSpNoRetset'', 1415),
     (''ErrCantCreateGeometryObject'', 1416),
     (''ErrFailedRoutineBreakBinlog'', 1417),
     (''ErrBinlogUnsafeRoutine'', 1418),
     (''ErrBinlogCreateRoutineNeedSuper'', 1419),
     (''ErrExecStmtWithOpenCursor'', 1420),
     (''ErrStmtHasNoOpenCursor'', 1421),
     (''ErrCommitNotAllowedInSfOrTrg'', 1422),
     (''ErrNoDefaultForViewField'', 1423),
     (''ErrSpNoRecursion'', 1424),
     (''ErrTooBigScale'', 1425),
     (''ErrTooBigPrecision'', 1426),
     (''ErrMBiggerThanD'', 1427),
     (''ErrWrongLockOfSystemTable'', 1428),
     (''ErrConnectToForeignDataSource'', 1429),
     (''ErrQueryOnForeignDataSource'', 1430),
     (''ErrForeignDataSourceDoesntExist'', 1431),
     (''ErrForeignDataStringInvalidCantCreate'', 1432),
     (''ErrForeignDataStringInvalid'', 1433)]"

definition errCodes4 :: "(string \<times> u16) list" where
  "errCodes4 =
    [(''ErrCantCreateFederatedTable'', 1434),
     (''ErrTrgInWrongSchema'', 1435),
     (''ErrStackOverrunNeedMore'', 1436),
     (''ErrTooLongBody'', 1437),
     (''ErrWarnCantDropDefaultKeycache'', 1438),
     (''ErrTooBigDisplaywidth'', 1439),
     (''ErrXaerDupid'', 1440),
     (''ErrDatetimeFunctionOverflow'', 1441),
     (''ErrCantUpdateUsedTableInSfOrTrg'', 1442),
     (''ErrViewPreventUpdate'', 1443),
     (''ErrPsNoRecursion'', 1444),
     (''ErrSpCantSetAutocommit'', 1445),
     (''ErrMalformedDefiner'', 1446),
     (''ErrViewFrmNoUser'', 1447),
     (''ErrViewOtherUser'', 1448),
     (''ErrNoSuchUser'', 1449),
     (''ErrForbidSchemaChange'', 1450),
     (''ErrRowIsReferenced2'', 1451),
     (''ErrNoReferencedRow2'', 1452),
     (''ErrSpBadVarShadow'', 1453),
     (''ErrTrgNoDefiner'', 1454),
     (''ErrOldFileFormat'', 1455),
     (''ErrSpRecursionLimit'', 1456),
     (''ErrSpProcTableCorrupt'', 1457),
     (''ErrSpWrongName'', 1458),
     (''ErrTableNeedsUpgrade'', 1459),
     (''ErrSpNoAggregate'', 1460),
     (''ErrMaxPreparedStmtCountReached'', 1461),
     (''ErrViewRecursive'', 1462),
     (''ErrNonGroupingFieldUsed'', 1463),
     (''ErrTableCantHandleSpkeys'', 1464),
     (''ErrNoTriggersOnSystemSchema'', 1465),
     (''ErrRemovedSpaces'', 1466),
     (''ErrAutoincReadFailed'', 1467),
     (''ErrUsername'', 1468),
     (''ErrHostname'', 1469),
     (''ErrWrongStringLength'', 1470),
     (''ErrNonInsertableTable'', 1471),
     (''ErrAdminWrongMrgTable'', 1472),
     (''ErrTooHighLevelOfNestingForSelect'', 1473),
     (''ErrNameBecomesEmpty'', 1474),
     (''ErrAmbiguousFieldTerm'', 1475),
     (''ErrForeignServerExists'', 1476),
     (''ErrForeignServerDoesntExist'', 1477),
     (''ErrIllegalHaCreateOption'', 1478),
     (''ErrPartitionRequiresValues'', 1479),
     (''ErrPartitionWrongValues'', 1480),
     (''ErrPartitionMaxvalue'', 1481),
     (''ErrPartitionSubpartition'', 1482),
     (''ErrPartitionSubpartMix'', 1483),
     (''ErrPartitionWrongNoPart'', 1484),
     (''ErrPartitionWrongNoSubpart'', 1485),
     (''ErrWrongExprInPartitionFunc'', 1486),
     (''ErrNoConstExprInRangeOrList'', 1487),
     (''ErrFieldNotFoundPart'', 1488),
     (''ErrListOfFieldsOnlyInHash'', 1489),
     (''ErrInconsistentPartitionInfo'', 1490),
     (''ErrPartitionFuncNotAllowed'', 1491),
     (''ErrPartitionsMustBeDefined'', 1492),
     (''ErrRangeNotIncreasing'', 1493),
     (''ErrInconsistentTypeOfFunctions'', 1494),
     (''ErrMultipleDefConstInListPart'', 1495),
     (''ErrPartitionEntry'', 1496),
     (''ErrMixHandler'', 1497),
     (''ErrPartitionNotDefined'', 1498),
     (''ErrTooManyPartitions'', 1499),
     (''ErrSubpartition'', 1500),
     (''ErrCantCreateHandlerFile'', 1501),
     (''ErrBlobFieldInPartFunc'', 1502),
     (''ErrUniqueKeyNeedAllFieldsInPf'', 1503),
     (''ErrNoParts'', 1504),
     (''ErrPartitionMgmtOnNonpartitioned'', 1505),
     (''ErrForeignKeyOnPartitioned'', 1506),
     (''ErrDropPartitionNonExistent'', 1507),
     (''ErrDropLastPartition'', 1508),
     (''ErrCoalesceOnlyOnHashPartition'', 1509),
     (''ErrReorgHashOnlyOnSameNo'', 1510),
     (''ErrReorgNoParam'', 1511),
     (''ErrOnlyOnRangeListPartition'', 1512),
     (''ErrAddPartitionSubpart'', 1513),
     (''ErrAddPartitionNoNewPartition'', 1514),
     (''ErrCoalescePartitionNoPartition'', 1515),
     (''ErrReorgPartitionNotExist'', 1516),
     (''ErrSameNamePartition'', 1517),
     (''ErrNoBinlog'', 1518),
     (''ErrConsecutiveReorgPartitions'', 1519),
     (''ErrReorgOutsideRange'', 1520),
     (''ErrPartitionFunctionFailure'', 1521),
     (''ErrPartState'', 1522),
     (''ErrLimitedPartRange'', 1523),
     (''ErrPluginIsNotLoaded'', 1524),
     (''ErrWrongValue'', 1525),
     (''ErrNoPartitionForGivenValue'', 1526),
     (''ErrFilegroupOptionOnlyOnce'', 1527),
     (''ErrCreateFilegroupFailed'', 1528),
     (''ErrDropFilegroupFailed'', 1529),
     (''ErrTablespaceAutoExtend'', 1530),
     (''ErrWrongSizeNumber'', 1531),
     (''ErrSizeOverflow'', 1532),
     (''ErrAlterFilegroupFailed'', 1533),
     (''ErrBinlogRowLoggingFailed'', 1534),
     (''ErrBinlogRowWrongTableDef'', 1535),
     (''ErrBinlogRowRbrToSbr'', 1536),
     (''ErrEventAlreadyExists'', 1537),
     (''ErrEventStoreFailed'', 1538),
     (''ErrEventDoesNotExist'', 1539),
     (''ErrEventCantAlter'', 1540),
     (''ErrEventDropFailed'', 1541),
     (''ErrEventIntervalNotPositiveOrTooBig'', 1542),
     (''ErrEventEndsBeforeStarts'', 1543),
     (''ErrEventExecTimeInThePast'', 1544),
     (''ErrEventOpenTableFailed'', 1545),
     (''ErrEventNeitherMExprNorMAt'', 1546),
     (''ErrObsoleteColCountDoesntMatchCorrupted'', 1547),
     (''ErrObsoleteCannotLoadFromTable'', 1548),
     (''ErrEventCannotDelete'', 1549),
     (''ErrEventCompile'', 1550),
     (''ErrEventSameName'', 1551),
     (''ErrEventDataTooLong'', 1552),
     (''ErrDropIndexFk'', 1553),
     (''ErrWarnDeprecatedSyntaxWithVer'', 1554),
     (''ErrCantWriteLockLogTable'', 1555),
     (''ErrCantLockLogTable'', 1556),
     (''ErrForeignDuplicateKeyOldUnused'', 1557),
     (''ErrColCountDoesntMatchPleaseUpdate'', 1558),
     (''ErrTempTablePreventsSwitchOutOfRbr'', 1559),
     (''ErrStoredFunctionPreventsSwitchBinlogFormat'', 1560),
     (''ErrNdbCantSwitchBinlogFormat'', 1561),
     (''ErrPartitionNoTemporary'', 1562),
     (''ErrPartitionConstDomain'', 1563),
     (''ErrPartitionFunctionIsNotAllowed'', 1564),
     (''ErrDdlLog'', 1565),
     (''ErrNullInValuesLessThan'', 1566),
     (''ErrWrongPartitionName'', 1567),
     (''ErrCantChangeTxCharacteristics'', 1568),
     (''ErrDupEntryAutoincrementCase'', 1569),
     (''ErrEventModifyQueue'', 1570),
     (''ErrEventSetVar'', 1571),
     (''ErrPartitionMerge'', 1572),
     (''ErrCantActivateLog'', 1573),
     (''ErrRbrNotAvailable'', 1574),
     (''ErrBase64Decode'', 1575),
     (''ErrEventRecursionForbidden'', 1576),
     (''ErrEventsDb'', 1577),
     (''ErrOnlyIntegersAllowed'', 1578)]"

definition errCodes5 :: "(string \<times> u16) list" where
  "errCodes5 =
    [(''ErrUnsuportedLogEngine'', 1579),
     (''ErrBadLogStatement'', 1580),
     (''ErrCantRenameLogTable'', 1581),
     (''ErrWrongParamcountToNativeFct'', 1582),
     (''ErrWrongParametersToNativeFct'', 1583),
     (''ErrWrongParametersToStoredFct'', 1584),
     (''ErrNativeFctNameCollision'', 1585),
     (''ErrDupEntryWithKeyName'', 1586),
     (''ErrBinlogPurgeEmfile'', 1587),
     (''ErrEventCannotCreateInThePast'', 1588),
     (''ErrEventCannotAlterInThePast'', 1589),
     (''ErrSlaveIncident'', 1590),
     (''ErrNoPartitionForGivenValueSilent'', 1591),
     (''ErrBinlogUnsafeStatement'', 1592),
     (''ErrSlaveFatal'', 1593),
     (''ErrSlaveRelayLogReadFailure'', 1594),
     (''ErrSlaveRelayLogWriteFailure'', 1595),
     (''ErrSlaveCreateEventFailure'', 1596),
     (''ErrSlaveMasterComFailure'', 1597),
     (''ErrBinlogLoggingImpossible'', 1598),
     (''ErrViewNoCreationCtx'', 1599),
     (''ErrViewInvalidCreationCtx'', 1600),
     (''ErrSrInvalidCreationCtx'', 1601),
     (''ErrTrgCorruptedFile'', 1602),
     (''ErrTrgNoCreationCtx'', 1603),
     (''ErrTrgInvalidCreationCtx'', 1604),
     (''ErrEventInvalidCreationCtx'', 1605),
     (''ErrTrgCantOpenTable'', 1606),
     (''ErrCantCreateSroutine'', 1607),
     (''ErrNeverUsed'', 1608),
     (''ErrNoFormatDescriptionEventBeforeBinlogStatement'', 1609),
     (''ErrSlaveCorruptEvent'', 1610),
     (''ErrLoadDataInvalidColumn'', 1611),
     (''ErrLogPurgeNoFile'', 1612),
     (''ErrXaRbtimeout'', 1613),
     (''ErrXaRbdeadlock'', 1614),
     (''ErrNeedReprepare'', 1615),
     (''ErrDelayedNotSupported'', 1616),
     (''WarnNoMasterInfo'', 1617),
     (''WarnOptionIgnored'', 1618),
     (''WarnPluginDeleteBuiltin'', 1619),
     (''WarnPluginBusy'', 1620),
     (''ErrVariableIsReadonly'', 1621),
     (''ErrWarnEngineTransactionRollback'', 1622),
     (''ErrSlaveHeartbeatFailure'', 1623),
     (''ErrSlaveHeartbeatValueOutOfRange'', 1624),
     (''ErrNdbReplicationSchema'', 1625),
     (''ErrConflictFnParse'', 1626),
     (''ErrExceptionsWrite'', 1627),
     (''ErrTooLongTableComment'', 1628),
     (''ErrTooLongFieldComment'', 1629),
     (''ErrFuncInexistentNameCollision'', 1630),
     (''ErrDatabaseName'', 1631),
     (''ErrTableName'', 1632),
     (''ErrPartitionName'', 1633),
     (''ErrSubpartitionName'', 1634),
     (''ErrTemporaryName'', 1635),
     (''ErrRenamedName'', 1636),
     (''ErrTooManyConcurrentTrxs'', 1637),
     (''WarnNonASCIISeparatorNotImplemented'', 1638),
     (''ErrDebugSyncTimeout'', 1639),
     (''ErrDebugSyncHitLimit'', 1640),
     (''ErrDupSignalSet'', 1641),
     (''ErrSignalWarn'', 1642),
     (''ErrSignalNotFound'', 1643),
     (''ErrSignalException'', 1644),
     (''ErrResignalWithoutActiveHandler'', 1645),
     (''ErrSignalBadConditionType'', 1646),
     (''WarnCondItemTruncated'', 1647),
     (''ErrCondItemTooLong'', 1648),
     (''ErrUnknownLocale'', 1649),
     (''ErrSlaveIgnoreServerIds'', 1650),
     (''ErrQueryCacheDisabled'', 1651),
     (''ErrSameNamePartitionField'', 1652),
     (''ErrPartitionColumnList'', 1653),
     (''ErrWrongTypeColumnValue'', 1654),
     (''ErrTooManyPartitionFuncFields'', 1655),
     (''ErrMaxvalueInValuesIn'', 1656),
     (''ErrTooManyValues'', 1657),
     (''ErrRowSinglePartitionField'', 1658),
     (''ErrFieldTypeNotAllowedAsPartitionField'', 1659),
     (''ErrPartitionFieldsTooLong'', 1660),
     (''ErrBinlogRowEngineAndStmtEngine'', 1661),
     (''ErrBinlogRowModeAndStmtEngine'', 1662),
     (''ErrBinlogUnsafeAndStmtEngine'', 1663),
     (''ErrBinlogRowInjectionAndStmtEngine'', 1664),
     (''ErrBinlogStmtModeAndRowEngine'', 1665),
     (''ErrBinlogRowInjectionAndStmtMode'', 1666),
     (''ErrBinlogMultipleEnginesAndSelfLoggingEngine'', 1667),
     (''ErrBinlogUnsafeLimit'', 1668),
     (''ErrBinlogUnsafeInsertDelayed'', 1669),
     (''ErrBinlogUnsafeSystemTable'', 1670),
     (''ErrBinlogUnsafeAutoincColumns'', 1671),
     (''ErrBinlogUnsafeUdf'', 1672),
     (''ErrBinlogUnsafeSystemVariable'', 1673),
     (''ErrBinlogUnsafeSystemFunction'', 1674),
     (''ErrBinlogUnsafeNontransAfterTrans'', 1675),
     (''ErrMessageAndStatement'', 1676),
     (''ErrSlaveConversionFailed'', 1677),
     (''ErrSlaveCantCreateConversion'', 1678),
     (''ErrInsideTransactionPreventsSwitchBinlogFormat'', 1679),
     (''ErrPathLength'', 1680),
     (''ErrWarnDeprecatedSyntaxNoReplacement'', 1681),
     (''ErrWrongNativeTableStructure'', 1682),
     (''ErrWrongPerfschemaUsage'', 1683),
     (''ErrWarnISSkippedTable'', 1684),
     (''ErrInsideTransactionPreventsSwitchBinlogDirect'', 1685),
     (''ErrStoredFunctionPreventsSwitchBinlogDirect'', 1686),
     (''ErrSpatialMustHaveGeomCol'', 1687),
     (''ErrTooLongIndexComment'', 1688),
     (''ErrLockAborted'', 1689),
     (''ErrDataOutOfRange'', 1690),
     (''ErrWrongSpvarTypeInLimit'', 1691),
     (''ErrBinlogUnsafeMultipleEnginesAndSelfLoggingEngine'', 1692),
     (''ErrBinlogUnsafeMixedStatement'', 1693),
     (''ErrInsideTransactionPreventsSwitchSQLLogBin'', 1694),
     (''ErrStoredFunctionPreventsSwitchSQLLogBin'', 1695),
     (''ErrFailedReadFromParFile'', 1696),
     (''ErrValuesIsNotIntType'', 1697),
     (''ErrAccessDeniedNoPassword'', 1698),
     (''ErrSetPasswordAuthPlugin'', 1699),
     (''ErrGrantPluginUserExists'', 1700),
     (''ErrTruncateIllegalFk'', 1701),
     (''ErrPluginIsPermanent'', 1702),
     (''ErrSlaveHeartbeatValueOutOfRangeMin'', 1703),
     (''ErrSlaveHeartbeatValueOutOfRangeMax'', 1704),
     (''ErrStmtCacheFull'', 1705),
     (''ErrMultiUpdateKeyConflict'', 1706),
     (''ErrTableNeedsRebuild'', 1707),
     (''WarnOptionBelowLimit'', 1708),
     (''ErrIndexColumnTooLong'', 1709),
     (''ErrErrorInTriggerBody'', 1710),
     (''ErrErrorInUnknownTriggerBody'', 1711),
     (''ErrIndexCorrupt'', 1712),
     (''ErrUndoRecordTooBig'', 1713),
     (''ErrBinlogUnsafeInsertIgnoreSelect'', 1714),
     (''ErrBinlogUnsafeInsertSelectUpdate'', 1715),
     (''ErrBinlogUnsafeReplaceSelect'', 1716),
     (''ErrBinlogUnsafeCreateIgnoreSelect'', 1717),
     (''ErrBinlogUnsafeCreateReplaceSelect'', 1718),
     (''ErrBinlogUnsafeUpdateIgnore'', 1719),
     (''ErrPluginNoUninstall'', 1720),
     (''ErrPluginNoInstall'', 1721),
     (''ErrBinlogUnsafeWriteAutoincSelect'', 1722),
     (''ErrBinlogUnsafeCreateSelectAutoinc'', 1723)]"

definition errCodes6 :: "(string \<times> u16) list" where
  "errCodes6 =
    [(''ErrBinlogUnsafeInsertTwoKeys'', 1724),
     (''ErrTableInFkCheck'', 1725),
     (''ErrUnsupportedEngine'', 1726),
     (''ErrBinlogUnsafeAutoincNotFirst'', 1727),
     (''ErrCannotLoadFromTableV2'', 1728),
     (''ErrMasterDelayValueOutOfRange'', 1729),
     (''ErrOnlyFdAndRbrEventsAllowedInBinlogStatement'', 1730),
     (''ErrPartitionExchangeDifferentOption'', 1731),
     (''ErrPartitionExchangePartTable'', 1732),
     (''ErrPartitionExchangeTempTable'', 1733),
     (''ErrPartitionInsteadOfSubpartition'', 1734),
     (''ErrUnknownPartition'', 1735),
     (''ErrTablesDifferentMetadata'', 1736),
     (''ErrRowDoesNotMatchPartition'', 1737),
     (''ErrBinlogCacheSizeGreaterThanMax'', 1738),
     (''ErrWarnIndexNotApplicable'', 1739),
     (''ErrPartitionExchangeForeignKey'', 1740),
     (''ErrNoSuchKeyValue'', 1741),
     (''ErrRplInfoDataTooLong'', 1742),
     (''ErrNetworkReadEventChecksumFailure'', 1743),
     (''ErrBinlogReadEventChecksumFailure'', 1744),
     (''ErrBinlogStmtCacheSizeGreaterThanMax'', 1745),
     (''ErrCantUpdateTableInCreateTableSelect'', 1746),
     (''ErrPartitionClauseOnNonpartitioned'', 1747),
     (''ErrRowDoesNotMatchGivenPartitionSet'', 1748),
     (''ErrNoSuchPartitionunused'', 1749),
     (''ErrChangeRplInfoRepositoryFailure'', 1750),
     (''ErrWarningNotCompleteRollbackWithCreatedTempTable'', 1751),
     (''ErrWarningNotCompleteRollbackWithDroppedTempTable'', 1752),
     (''ErrMtsFeatureIsNotSupported'', 1753),
     (''ErrMtsUpdatedDbsGreaterMax'', 1754),
     (''ErrMtsCantParallel'', 1755),
     (''ErrMtsInconsistentData'', 1756),
     (''ErrFulltextNotSupportedWithPartitioning'', 1757),
     (''ErrDaInvalidConditionNumber'', 1758),
     (''ErrInsecurePlainText'', 1759),
     (''ErrInsecureChangeMaster'', 1760),
     (''ErrForeignDuplicateKeyWithChildInfo'', 1761),
     (''ErrForeignDuplicateKeyWithoutChildInfo'', 1762),
     (''ErrSQLthreadWithSecureSlave'', 1763),
     (''ErrTableHasNoFt'', 1764),
     (''ErrVariableNotSettableInSfOrTrigger'', 1765),
     (''ErrVariableNotSettableInTransaction'', 1766),
     (''ErrGtidNextIsNotInGtidNextList'', 1767),
     (''ErrCantChangeGtidNextInTransactionWhenGtidNextListIsNull'', 1768),
     (''ErrSetStatementCannotInvokeFunction'', 1769),
     (''ErrGtidNextCantBeAutomaticIfGtidNextListIsNonNull'', 1770),
     (''ErrSkippingLoggedTransaction'', 1771),
     (''ErrMalformedGtidSetSpecification'', 1772),
     (''ErrMalformedGtidSetEncoding'', 1773),
     (''ErrMalformedGtidSpecification'', 1774),
     (''ErrGnoExhausted'', 1775),
     (''ErrBadSlaveAutoPosition'', 1776),
     (''ErrAutoPositionRequiresGtidModeOn'', 1777),
     (''ErrCantDoImplicitCommitInTrxWhenGtidNextIsSet'', 1778),
     (''ErrGtidMode2Or3RequiresEnforceGtidConsistencyOn'', 1779),
     (''ErrGtidModeRequiresBinlog'', 1780),
     (''ErrCantSetGtidNextToGtidWhenGtidModeIsOff'', 1781),
     (''ErrCantSetGtidNextToAnonymousWhenGtidModeIsOn'', 1782),
     (''ErrCantSetGtidNextListToNonNullWhenGtidModeIsOff'', 1783),
     (''ErrFoundGtidEventWhenGtidModeIsOff'', 1784),
     (''ErrGtidUnsafeNonTransactionalTable'', 1785),
     (''ErrGtidUnsafeCreateSelect'', 1786),
     (''ErrGtidUnsafeCreateDropTemporaryTableInTransaction'', 1787),
     (''ErrGtidModeCanOnlyChangeOneStepAtATime'', 1788),
     (''ErrMasterHasPurgedRequiredGtids'', 1789),
     (''ErrCantSetGtidNextWhenOwningGtid'', 1790),
     (''ErrUnknownExplainFormat'', 1791),
     (''ErrCantExecuteInReadOnlyTransaction'', 1792),
     (''ErrTooLongTablePartitionComment'', 1793),
     (''ErrSlaveConfiguration'', 1794),
     (''ErrInnodbFtLimit'', 1795),
     (''ErrInnodbNoFtTempTable'', 1796),
     (''ErrInnodbFtWrongDocidColumn'', 1797),
     (''ErrInnodbFtWrongDocidIndex'', 1798),
     (''ErrInnodbOnlineLogTooBig'', 1799),
     (''ErrUnknownAlterAlgorithm'', 1800),
     (''ErrUnknownAlterLock'', 1801),
     (''ErrMtsChangeMasterCantRunWithGaps'', 1802),
     (''ErrMtsRecoveryFailure'', 1803),
     (''ErrMtsResetWorkers'', 1804),
     (''ErrColCountDoesntMatchCorruptedV2'', 1805),
     (''ErrSlaveSilentRetryTransaction'', 1806),
     (''ErrDiscardFkChecksRunning'', 1807),
     (''ErrTableSchemaMismatch'', 1808),
     (''ErrTableInSystemTablespace'', 1809),
     (''ErrIoRead'', 1810),
     (''ErrIoWrite'', 1811),
     (''ErrTablespaceMissing'', 1812),
     (''ErrTablespaceExists'', 1813),
     (''ErrTablespaceDiscarded'', 1814),
     (''ErrInternal'', 1815),
     (''ErrInnodbImport'', 1816),
     (''ErrInnodbIndexCorrupt'', 1817),
     (''ErrInvalidYearColumnLength'', 1818),
     (''ErrNotValidPassword'', 1819),
     (''ErrMustChangePassword'', 1820),
     (''ErrFkNoIndexChild'', 1821),
     (''ErrFkNoIndexParent'', 1822),
     (''ErrFkFailAddSystem'', 1823),
     (''ErrFkCannotOpenParent'', 1824),
     (''ErrFkIncorrectOption'', 1825),
     (''ErrFkDupName'', 1826),
     (''ErrPasswordFormat'', 1827),
     (''ErrFkColumnCannotDrop'', 1828),
     (''ErrFkColumnCannotDropChild'', 1829),
     (''ErrFkColumnNotNull'', 1830),
     (''ErrDupIndex'', 1831),
     (''ErrFkColumnCannotChange'', 1832),
     (''ErrFkColumnCannotChangeChild'', 1833),
     (''ErrFkCannotDeleteParent'', 1834),
     (''ErrMalformedPacket'', 1835),
     (''ErrReadOnlyMode'', 1836),
     (''ErrGtidNextTypeUndefinedGroup'', 1837),
     (''ErrVariableNotSettableInSp'', 1838),
     (''ErrCantSetGtidPurgedWhenGtidModeIsOff'', 1839),
     (''ErrCantSetGtidPurgedWhenGtidExecutedIsNotEmpty'', 1840),
     (''ErrCantSetGtidPurgedWhenOwnedGtidsIsNotEmpty'', 1841),
     (''ErrGtidPurgedWasChanged'', 1842),
     (''ErrGtidExecutedWasChanged'', 1843),
     (''ErrBinlogStmtModeAndNoReplTables'', 1844),
     (''ErrAlterOperationNotSupported'', 1845),
     (''ErrAlterOperationNotSupportedReason'', 1846),
     (''ErrAlterOperationNotSupportedReasonCopy'', 1847),
     (''ErrAlterOperationNotSupportedReasonPartition'', 1848),
     (''ErrAlterOperationNotSupportedReasonFkRename'', 1849),
     (''ErrAlterOperationNotSupportedReasonColumnType'', 1850),
     (''ErrAlterOperationNotSupportedReasonFkCheck'', 1851),
     (''ErrAlterOperationNotSupportedReasonIgnore'', 1852),
     (''ErrAlterOperationNotSupportedReasonNopk'', 1853),
     (''ErrAlterOperationNotSupportedReasonAutoinc'', 1854),
     (''ErrAlterOperationNotSupportedReasonHiddenFts'', 1855),
     (''ErrAlterOperationNotSupportedReasonChangeFts'', 1856),
     (''ErrAlterOperationNotSupportedReasonFts'', 1857),
     (''ErrSQLSlaveSkipCounterNotSettableInGtidMode'', 1858),
     (''ErrDupUnknownInIndex'', 1859),
     (''ErrIdentCausesTooLongPath'', 1860),
     (''ErrAlterOperationNotSupportedReasonNotNull'', 1861),
     (''ErrMustChangePasswordLogin'', 1862),
     (''ErrRowInWrongPartition'', 1863),
     (''ErrErrorLast'', 1863)]"

definition errCodes :: "(string \<times> u16) list" where
  "errCodes = errCodes1 @ errCodes2 @ errCodes3 @ errCodes4 @ errCodes5 @ errCodes6"

section \<open>Messages\<close>

definition errNames1 :: "(u16 \<times> string) list" where
  "errNames1 =
    [(1000, ''hashchk''),
     (1001, ''isamchk''),
     (1002, ''NO''),
     (1003, ''YES''),
     (1004, ''Can't create file '%-.200s' (errno: %d - %s)''),
     (1005, ''Can't create table '%-.200s' (errno: %d)''),
     (1006, ''Can't create database '%-.192s' (errno: %d)''),
     (1007, ''Can't create database '%-.192s'; database exists''),
     (1008, ''Can't drop database '%-.192s'; database doesn't exist''),
     (1009, ''Error dropping database (can't delete '%-.192s', errno: %d)''),
     (1010, ''Error dropping database (can't rmdir '%-.192s', errno: %d)''),
     (1011, ''Error on delete of '%-.192s' (errno: %d - %s)''),
     (1012, ''Can't read record in system table''),
     (1013, ''Can't get status of '%-.200s' (errno: %d - %s)''),
     (1014, ''Can't get working directory (errno: %d - %s)''),
     (1015, ''Can't lock file (errno: %d - %s)''),
     (1016, ''Can't open file: '%-.200s' (errno: %d - %s)''),
     (1017, ''Can't find file: '%-.200s' (errno: %d - %s)''),
     (1018, ''Can't read dir of '%-.192s' (errno: %d - %s)''),
     (1019, ''Can't change dir to '%-.192s' (errno: %d - %s)''),
     (1020, ''Record has changed since last read in table '%-.192s'' @ [CHR 0x27]),
     (1021, ''Disk full (%s); waiting for someone to free some space... (errno: %d - %s)''),
     (1022, ''Can't write; duplicate key in table '%-.192s'' @ [CHR 0x27]),
     (1023, ''Error on close of '%-.192s' (errno: %d - %s)''),
     (1024, ''Error reading file '%-.200s' (errno: %d - %s)''),
     (1025, ''Error on rename of '%-.210s' to '%-.210s' (errno: %d - %s)''),
     (1026, ''Error writing file '%-.200s' (errno: %d - %s)''),
     (1027, [CHR 0x27] @ ''%-.192s' is locked against change''),
     (1028, ''Sort aborted''),
     (1029, ''View '%-.192s' doesn't exist for '%-.192s'' @ [CHR 0x27]),
     (1030, ''Got error %d from storage engine''),
     (1031, ''Table storage engine for '%-.192s' doesn't have this option''),
     (1032, ''Can't find record in '%-.192s'' @ [CHR 0x27]),
     (1033, ''Incorrect information in file: '%-.200s'' @ [CHR 0x27]),
     (1034, ''Incorrect key file for table '%-.200s'; try to repair it''),
     (1035, ''Old key file for table '%-.192s'; repair it!''),
     (1036, ''Table '%-.192s' is read only''),
     (1037, ''Out of memory; restart server and try again (needed %d bytes)''),
     (1038, ''Out of sort memory, consider increasing server sort buffer size''),
     (1039, ''Unexpected EOF found when reading file '%-.192s' (errno: %d - %s)''),
     (1040, ''Too many connections''),
     (1041, ''Out of memory; check if mysqld or some other process uses all available memory; if not, you may have to use 'ulimit' to allow mysqld to use more memory or you can add more swap space''),
     (1042, ''Can't get hostname for your address''),
     (1043, ''Bad handshake''),
     (1044, ''Access denied for user '%-.48s'@'%-.64s' to database '%-.192s'' @ [CHR 0x27]),
     (1045, ''Access denied for user '%-.48s'@'%-.64s' (using password: %s)''),
     (1046, ''No database selected''),
     (1047, ''Unknown command''),
     (1048, ''Column '%-.192s' cannot be null''),
     (1049, ''Unknown database '%-.192s'' @ [CHR 0x27]),
     (1050, ''Table '%-.192s' already exists''),
     (1051, ''Unknown table '%-.100s'' @ [CHR 0x27]),
     (1052, ''Column '%-.192s' in %-.192s is ambiguous''),
     (1053, ''Server shutdown in progress''),
     (1054, ''Unknown column '%-.192s' in '%-.192s'' @ [CHR 0x27]),
     (1055, [CHR 0x27] @ ''%-.192s' isn't in GROUP BY''),
     (1056, ''Can't group on '%-.192s'' @ [CHR 0x27]),
     (1057, ''Statement has sum functions and columns in same statement''),
     (1058, ''Column count doesn't match value count''),
     (1059, ''Identifier name '%-.100s' is too long''),
     (1060, ''Duplicate column name '%-.192s'' @ [CHR 0x27]),
     (1061, ''Duplicate key name '%-.192s'' @ [CHR 0x27]),
     (1062, ''Duplicate entry '%-.192s' for key %d''),
     (1063, ''Incorrect column specifier for column '%-.192s'' @ [CHR 0x27]),
     (1064, ''%s near '%-.80s' at line %d''),
     (1065, ''Query was empty''),
     (1066, ''Not unique table/alias: '%-.192s'' @ [CHR 0x27]),
     (1067, ''Invalid default value for '%-.192s'' @ [CHR 0x27]),
     (1068, ''Multiple primary key defined''),
     (1069, ''Too many keys specified; max %d keys allowed''),
     (1070, ''Too many key parts specified; max %d parts allowed''),
     (1071, ''Specified key was too long; max key length is %d bytes''),
     (1072, ''Key column '%-.192s' doesn't exist in table''),
     (1073, ''BLOB column '%-.192s' can't be used in key specification with the used table type''),
     (1074, ''Column length too big for column '%-.192s' (max = %lu); use BLOB or TEXT instead''),
     (1075, ''Incorrect table definition; there can be only one auto column and it must be defined as a key''),
     (1076, ''%s: ready for connections.'' @ [CHR 0x0A] @ ''Version: '%s'  socket: '%s'  port: %d''),
     (1077, ''%s: Normal shutdown'' @ [CHR 0x0A]),
     (1078, ''%s: Got signal %d. Aborting!'' @ [CHR 0x0A]),
     (1079, ''%s: Shutdown complete'' @ [CHR 0x0A]),
     (1080, ''%s: Forcing close of thread %ld  user: '%-.48s'' @ [CHR 0x27] @ [CHR 0x0A]),
     (1081, ''Can't create IP socket''),
     (1082, ''Table '%-.192s' has no index like the one used in CREATE INDEX; recreate the table''),
     (1083, ''Field separator argument is not what is expected; check the manual''),
     (1084, ''You can't use fixed rowlength with BLOBs; please use 'fields terminated by'' @ [CHR 0x27]),
     (1085, ''The file '%-.128s' must be in the database directory or be readable by all''),
     (1086, ''File '%-.200s' already exists''),
     (1087, ''Records: %ld  Deleted: %ld  Skipped: %ld  Warnings: %ld''),
     (1088, ''Records: %ld  Duplicates: %ld''),
     (1089, ''Incorrect prefix key; the used key part isn't a string, the used length is longer than the key part, or the storage engine doesn't support unique prefix keys''),
     (1090, ''You can't delete all columns with ALTER TABLE; use DROP TABLE instead''),
     (1091, ''Can't DROP '%-.192s'; check that column/key exists''),
     (1092, ''Records: %ld  Duplicates: %ld  Warnings: %ld''),
     (1093, ''You can't specify target table '%-.192s' for update in FROM clause''),
     (1094, ''Unknown thread id: %lu''),
     (1095, ''You are not owner of thread %lu''),
     (1096, ''No tables used''),
     (1097, ''Too many strings for column %-.192s and SET''),
     (1098, ''Can't generate a unique log-filename %-.200s.(1-999)'' @ [CHR 0x0A]),
     (1099, ''Table '%-.192s' was locked with a READ lock and can't be updated''),
     (1100, ''Table '%-.192s' was not locked with LOCK TABLES''),
     (1101, ''BLOB/TEXT column '%-.192s' can't have a default value''),
     (1102, ''Incorrect database name '%-.100s'' @ [CHR 0x27]),
     (1103, ''Incorrect table name '%-.100s'' @ [CHR 0x27]),
     (1104, ''The SELECT would examine more than MAXJOINSIZE rows; check your WHERE and use SET SQLBIGSELECTS=1 or SET MAXJOINSIZE=# if the SELECT is okay''),
     (1105, ''Unknown error''),
     (1106, ''Unknown procedure '%-.192s'' @ [CHR 0x27]),
     (1107, ''Incorrect parameter count to procedure '%-.192s'' @ [CHR 0x27]),
     (1108, ''Incorrect parameters to procedure '%-.192s'' @ [CHR 0x27]),
     (1109, ''Unknown table '%-.192s' in %-.32s''),
     (1110, ''Column '%-.192s' specified twice''),
     (1111, ''Invalid use of group function''),
     (1112, ''Table '%-.192s' uses an extension that doesn't exist in this MySQL version''),
     (1113, ''A table must have at least 1 column''),
     (1114, ''The table '%-.192s' is full''),
     (1115, ''Unknown character set: '%-.64s'' @ [CHR 0x27]),
     (1116, ''Too many tables; MySQL can only use %d tables in a join''),
     (1117, ''Too many columns''),
     (1118, ''Row size too large. The maximum row size for the used table type, not counting BLOBs, is %ld. This includes storage overhead, check the manual. You have to change some columns to TEXT or BLOBs''),
     (1119, ''Thread stack overrun:  Used: %ld of a %ld stack.  Use 'mysqld --threadStack=#' to specify a bigger stack if needed''),
     (1120, ''Cross dependency found in OUTER JOIN; examine your ON conditions''),
     (1121, ''Table handler doesn't support NULL in given index. Please change column '%-.192s' to be NOT NULL or use another handler''),
     (1122, ''Can't load function '%-.192s'' @ [CHR 0x27]),
     (1123, ''Can't initialize function '%-.192s'; %-.80s''),
     (1124, ''No paths allowed for shared library''),
     (1125, ''Function '%-.192s' already exists''),
     (1126, ''Can't open shared library '%-.192s' (errno: %d %-.128s)''),
     (1127, ''Can't find symbol '%-.128s' in library''),
     (1128, ''Function '%-.192s' is not defined''),
     (1129, ''Host '%-.64s' is blocked because of many connection errors; unblock with 'mysqladmin flush-hosts'' @ [CHR 0x27]),
     (1130, ''Host '%-.64s' is not allowed to connect to this MySQL server''),
     (1131, ''You are using MySQL as an anonymous user and anonymous users are not allowed to change passwords''),
     (1132, ''You must have privileges to update tables in the mysql database to be able to change passwords for others''),
     (1133, ''Can't find any matching row in the user table''),
     (1134, ''Rows matched: %ld  Changed: %ld  Warnings: %ld''),
     (1135, ''Can't create a new thread (errno %d); if you are not out of available memory, you can consult the manual for a possible OS-dependent bug''),
     (1136, ''Column count doesn't match value count at row %ld''),
     (1137, ''Can't reopen table: '%-.192s'' @ [CHR 0x27]),
     (1138, ''Invalid use of NULL value''),
     (1139, ''Got error '%-.64s' from regexp''),
     (1140, ''Mixing of GROUP columns (MIN(),MAX(),COUNT(),...) with no GROUP columns is illegal if there is no GROUP BY clause''),
     (1141, ''There is no such grant defined for user '%-.48s' on host '%-.64s'' @ [CHR 0x27]),
     (1142, ''%-.128s command denied to user '%-.48s'@'%-.64s' for table '%-.64s'' @ [CHR 0x27]),
     (1143, ''%-.16s command denied to user '%-.48s'@'%-.64s' for column '%-.192s' in table '%-.192s'' @ [CHR 0x27]),
     (1144, ''Illegal GRANT/REVOKE command; please consult the manual to see which privileges can be used'')]"

definition errNames2 :: "(u16 \<times> string) list" where
  "errNames2 =
    [(1145, ''The host or user argument to GRANT is too long''),
     (1146, ''Table '%-.192s.%-.192s' doesn't exist''),
     (1147, ''There is no such grant defined for user '%-.48s' on host '%-.64s' on table '%-.192s'' @ [CHR 0x27]),
     (1148, ''The used command is not allowed with this MySQL version''),
     (1149, ''You have an error in your SQL syntax; check the manual that corresponds to your MySQL server version for the right syntax to use''),
     (1150, ''Delayed insert thread couldn't get requested lock for table %-.192s''),
     (1151, ''Too many delayed threads in use''),
     (1152, ''Aborted connection %ld to db: '%-.192s' user: '%-.48s' (%-.64s)''),
     (1153, ''Got a packet bigger than 'maxAllowedPacket' bytes''),
     (1154, ''Got a read error from the connection pipe''),
     (1155, ''Got an error from fcntl()''),
     (1156, ''Got packets out of order''),
     (1157, ''Couldn't uncompress communication packet''),
     (1158, ''Got an error reading communication packets''),
     (1159, ''Got timeout reading communication packets''),
     (1160, ''Got an error writing communication packets''),
     (1161, ''Got timeout writing communication packets''),
     (1162, ''Result string is longer than 'maxAllowedPacket' bytes''),
     (1163, ''The used table type doesn't support BLOB/TEXT columns''),
     (1164, ''The used table type doesn't support AUTOINCREMENT columns''),
     (1165, ''INSERT DELAYED can't be used with table '%-.192s' because it is locked with LOCK TABLES''),
     (1166, ''Incorrect column name '%-.100s'' @ [CHR 0x27]),
     (1167, ''The used storage engine can't index column '%-.192s'' @ [CHR 0x27]),
     (1168, ''Unable to open underlying table which is differently defined or of non-MyISAM type or doesn't exist''),
     (1169, ''Can't write, because of unique constraint, to table '%-.192s'' @ [CHR 0x27]),
     (1170, ''BLOB/TEXT column '%-.192s' used in key specification without a key length''),
     (1171, ''All parts of a PRIMARY KEY must be NOT NULL; if you need NULL in a key, use UNIQUE instead''),
     (1172, ''Result consisted of more than one row''),
     (1173, ''This table type requires a primary key''),
     (1174, ''This version of MySQL is not compiled with RAID support''),
     (1175, ''You are using safe update mode and you tried to update a table without a WHERE that uses a KEY column''),
     (1176, ''Key '%-.192s' doesn't exist in table '%-.192s'' @ [CHR 0x27]),
     (1177, ''Can't open table''),
     (1178, ''The storage engine for the table doesn't support %s''),
     (1179, ''You are not allowed to execute this command in a transaction''),
     (1180, ''Got error %d during COMMIT''),
     (1181, ''Got error %d during ROLLBACK''),
     (1182, ''Got error %d during FLUSHLOGS''),
     (1183, ''Got error %d during CHECKPOINT''),
     (1184, ''Aborted connection %ld to db: '%-.192s' user: '%-.48s' host: '%-.64s' (%-.64s)''),
     (1185, ''The storage engine for the table does not support binary table dump''),
     (1186, ''Binlog closed, cannot RESET MASTER''),
     (1187, ''Failed rebuilding the index of  dumped table '%-.192s'' @ [CHR 0x27]),
     (1188, ''Error from master: '%-.64s'' @ [CHR 0x27]),
     (1189, ''Net error reading from master''),
     (1190, ''Net error writing to master''),
     (1191, ''Can't find FULLTEXT index matching the column list''),
     (1192, ''Can't execute the given command because you have active locked tables or an active transaction''),
     (1193, ''Unknown system variable '%-.64s'' @ [CHR 0x27]),
     (1194, ''Table '%-.192s' is marked as crashed and should be repaired''),
     (1195, ''Table '%-.192s' is marked as crashed and last (automatic?) repair failed''),
     (1196, ''Some non-transactional changed tables couldn't be rolled back''),
     (1197, ''Multi-statement transaction required more than 'maxBinlogCacheSize' bytes of storage; increase this mysqld variable and try again''),
     (1198, ''This operation cannot be performed with a running slave; run STOP SLAVE first''),
     (1199, ''This operation requires a running slave; configure slave and do START SLAVE''),
     (1200, ''The server is not configured as slave; fix in config file or with CHANGE MASTER TO''),
     (1201, ''Could not initialize master info structure; more error messages can be found in the MySQL error log''),
     (1202, ''Could not create slave thread; check system resources''),
     (1203, ''User %-.64s already has more than 'maxUserConnections' active connections''),
     (1204, ''You may only use constant expressions with SET''),
     (1205, ''Lock wait timeout exceeded; try restarting transaction''),
     (1206, ''The total number of locks exceeds the lock table size''),
     (1207, ''Update locks cannot be acquired during a READ UNCOMMITTED transaction''),
     (1208, ''DROP DATABASE not allowed while thread is holding global read lock''),
     (1209, ''CREATE DATABASE not allowed while thread is holding global read lock''),
     (1210, ''Incorrect arguments to %s''),
     (1211, [CHR 0x27] @ ''%-.48s'@'%-.64s' is not allowed to create new users''),
     (1212, ''Incorrect table definition; all MERGE tables must be in the same database''),
     (1213, ''Deadlock found when trying to get lock; try restarting transaction''),
     (1214, ''The used table type doesn't support FULLTEXT indexes''),
     (1215, ''Cannot add foreign key constraint''),
     (1216, ''Cannot add or update a child row: a foreign key constraint fails''),
     (1217, ''Cannot delete or update a parent row: a foreign key constraint fails''),
     (1218, ''Error connecting to master: %-.128s''),
     (1219, ''Error running query on master: %-.128s''),
     (1220, ''Error when executing command %s: %-.128s''),
     (1221, ''Incorrect usage of %s and %s''),
     (1222, ''The used SELECT statements have a different number of columns''),
     (1223, ''Can't execute the query because you have a conflicting read lock''),
     (1224, ''Mixing of transactional and non-transactional tables is disabled''),
     (1225, ''Option '%s' used twice in statement''),
     (1226, ''User '%-.64s' has exceeded the '%s' resource (current value: %ld)''),
     (1227, ''Access denied; you need (at least one of) the %-.128s privilege(s) for this operation''),
     (1228, ''Variable '%-.64s' is a SESSION variable and can't be used with SET GLOBAL''),
     (1229, ''Variable '%-.64s' is a GLOBAL variable and should be set with SET GLOBAL''),
     (1230, ''Variable '%-.64s' doesn't have a default value''),
     (1231, ''Variable '%-.64s' can't be set to the value of '%-.200s'' @ [CHR 0x27]),
     (1232, ''Incorrect argument type to variable '%-.64s'' @ [CHR 0x27]),
     (1233, ''Variable '%-.64s' can only be set, not read''),
     (1234, ''Incorrect usage/placement of '%s'' @ [CHR 0x27]),
     (1235, ''This version of MySQL doesn't yet support '%s'' @ [CHR 0x27]),
     (1236, ''Got fatal error %d from master when reading data from binary log: '%-.320s'' @ [CHR 0x27]),
     (1237, ''Slave SQL thread ignored the query because of replicate-*-table rules''),
     (1238, ''Variable '%-.192s' is a %s variable''),
     (1239, ''Incorrect foreign key definition for '%-.192s': %s''),
     (1240, ''Key reference and table reference don't match''),
     (1241, ''Operand should contain %d column(s)''),
     (1242, ''Subquery returns more than 1 row''),
     (1243, ''Unknown prepared statement handler (%.*s) given to %s''),
     (1244, ''Help database is corrupt or does not exist''),
     (1245, ''Cyclic reference on subqueries''),
     (1246, ''Converting column '%s' from %s to %s''),
     (1247, ''Reference '%-.64s' not supported (%s)''),
     (1248, ''Every derived table must have its own alias''),
     (1249, ''Select %u was reduced during optimization''),
     (1250, ''Table '%-.192s' from one of the SELECTs cannot be used in %-.32s''),
     (1251, ''Client does not support authentication protocol requested by server; consider upgrading MySQL client''),
     (1252, ''All parts of a SPATIAL index must be NOT NULL''),
     (1253, ''COLLATION '%s' is not valid for CHARACTER SET '%s'' @ [CHR 0x27]),
     (1254, ''Slave is already running''),
     (1255, ''Slave already has been stopped''),
     (1256, ''Uncompressed data size too large; the maximum size is %d (probably, length of uncompressed data was corrupted)''),
     (1257, ''ZLIB: Not enough memory''),
     (1258, ''ZLIB: Not enough room in the output buffer (probably, length of uncompressed data was corrupted)''),
     (1259, ''ZLIB: Input data corrupted''),
     (1260, ''Row %u was cut by GROUPCONCAT()''),
     (1261, ''Row %ld doesn't contain data for all columns''),
     (1262, ''Row %ld was truncated; it contained more data than there were input columns''),
     (1263, ''Column set to default value; NULL supplied to NOT NULL column '%s' at row %ld''),
     (1264, ''Out of range value for column '%s' at row %ld''),
     (1265, ''Data truncated for column '%s' at row %ld''),
     (1266, ''Using storage engine %s for table '%s'' @ [CHR 0x27]),
     (1267, ''Illegal mix of collations (%s,%s) and (%s,%s) for operation '%s'' @ [CHR 0x27]),
     (1268, ''Cannot drop one or more of the requested users''),
     (1269, ''Can't revoke all privileges for one or more of the requested users''),
     (1270, ''Illegal mix of collations (%s,%s), (%s,%s), (%s,%s) for operation '%s'' @ [CHR 0x27]),
     (1271, ''Illegal mix of collations for operation '%s'' @ [CHR 0x27]),
     (1272, ''Variable '%-.64s' is not a variable component (can't be used as XXXX.variableName)''),
     (1273, ''Unknown collation: '%-.64s'' @ [CHR 0x27]),
     (1274, ''SSL parameters in CHANGE MASTER are ignored because this MySQL slave was compiled without SSL support; they can be used later if MySQL slave with SSL is started''),
     (1275, ''Server is running in --secure-auth mode, but '%s'@'%s' has a password in the old format; please change the password to the new format''),
     (1276, ''Field or reference '%-.192s%s%-.192s%s%-.192s' of SELECT #%d was resolved in SELECT #%d''),
     (1277, ''Incorrect parameter or combination of parameters for START SLAVE UNTIL''),
     (1278, ''It is recommended to use --skip-slave-start when doing step-by-step replication with START SLAVE UNTIL; otherwise, you will get problems if you get an unexpected slave's mysqld restart''),
     (1279, ''SQL thread is not to be started so UNTIL options are ignored''),
     (1280, ''Incorrect index name '%-.100s'' @ [CHR 0x27]),
     (1281, ''Incorrect catalog name '%-.100s'' @ [CHR 0x27]),
     (1282, ''Query cache failed to set size %lu; new query cache size is %lu''),
     (1283, ''Column '%-.192s' cannot be part of FULLTEXT index''),
     (1284, ''Unknown key cache '%-.100s'' @ [CHR 0x27]),
     (1285, ''MySQL is started in --skip-name-resolve mode; you must restart it without this switch for this grant to work''),
     (1286, ''Unknown storage engine '%s'' @ [CHR 0x27]),
     (1287, [CHR 0x27] @ ''%s' is deprecated and will be removed in a future release. Please use %s instead''),
     (1288, ''The target table %-.100s of the %s is not updatable''),
     (1289, ''The '%s' feature is disabled; you need MySQL built with '%s' to have it working'')]"

definition errNames3 :: "(u16 \<times> string) list" where
  "errNames3 =
    [(1290, ''The MySQL server is running with the %s option so it cannot execute this statement''),
     (1291, ''Column '%-.100s' has duplicated value '%-.64s' in %s''),
     (1292, ''Truncated incorrect %-.32s value: '%-.128s'' @ [CHR 0x27]),
     (1293, ''Incorrect table definition; there can be only one TIMESTAMP column with CURRENTTIMESTAMP in DEFAULT or ON UPDATE clause''),
     (1294, ''Invalid ON UPDATE clause for '%-.192s' column''),
     (1295, ''This command is not supported in the prepared statement protocol yet''),
     (1296, ''Got error %d '%-.100s' from %s''),
     (1297, ''Got temporary error %d '%-.100s' from %s''),
     (1298, ''Unknown or incorrect time zone: '%-.64s'' @ [CHR 0x27]),
     (1299, ''Invalid TIMESTAMP value in column '%s' at row %ld''),
     (1300, ''Invalid %s character string: '%.64s'' @ [CHR 0x27]),
     (1301, ''Result of %s() was larger than maxAllowedPacket (%ld) - truncated''),
     (1302, ''Conflicting declarations: '%s%s' and '%s%s'' @ [CHR 0x27]),
     (1303, ''Can't create a %s from within another stored routine''),
     (1304, ''%s %s already exists''),
     (1305, ''%s %s does not exist''),
     (1306, ''Failed to DROP %s %s''),
     (1307, ''Failed to CREATE %s %s''),
     (1308, ''%s with no matching label: %s''),
     (1309, ''Redefining label %s''),
     (1310, ''End-label %s without match''),
     (1311, ''Referring to uninitialized variable %s''),
     (1312, ''PROCEDURE %s can't return a result set in the given context''),
     (1313, ''RETURN is only allowed in a FUNCTION''),
     (1314, ''%s is not allowed in stored procedures''),
     (1315, ''The update log is deprecated and replaced by the binary log; SET SQLLOGUPDATE has been ignored.''),
     (1316, ''The update log is deprecated and replaced by the binary log; SET SQLLOGUPDATE has been translated to SET SQLLOGBIN.''),
     (1317, ''Query execution was interrupted''),
     (1318, ''Incorrect number of arguments for %s %s; expected %u, got %u''),
     (1319, ''Undefined CONDITION: %s''),
     (1320, ''No RETURN found in FUNCTION %s''),
     (1321, ''FUNCTION %s ended without RETURN''),
     (1322, ''Cursor statement must be a SELECT''),
     (1323, ''Cursor SELECT must not have INTO''),
     (1324, ''Undefined CURSOR: %s''),
     (1325, ''Cursor is already open''),
     (1326, ''Cursor is not open''),
     (1327, ''Undeclared variable: %s''),
     (1328, ''Incorrect number of FETCH variables''),
     (1329, ''No data - zero rows fetched, selected, or processed''),
     (1330, ''Duplicate parameter: %s''),
     (1331, ''Duplicate variable: %s''),
     (1332, ''Duplicate condition: %s''),
     (1333, ''Duplicate cursor: %s''),
     (1334, ''Failed to ALTER %s %s''),
     (1335, ''Subquery value not supported''),
     (1336, ''%s is not allowed in stored function or trigger''),
     (1337, ''Variable or condition declaration after cursor or handler declaration''),
     (1338, ''Cursor declaration after handler declaration''),
     (1339, ''Case not found for CASE statement''),
     (1340, ''Configuration file '%-.192s' is too big''),
     (1341, ''Malformed file type header in file '%-.192s'' @ [CHR 0x27]),
     (1342, ''Unexpected end of file while parsing comment '%-.200s'' @ [CHR 0x27]),
     (1343, ''Error while parsing parameter '%-.192s' (line: '%-.192s')''),
     (1344, ''Unexpected end of file while skipping unknown parameter '%-.192s'' @ [CHR 0x27]),
     (1345, ''EXPLAIN/SHOW can not be issued; lacking privileges for underlying table''),
     (1346, ''File '%-.192s' has unknown type '%-.64s' in its header''),
     (1347, [CHR 0x27] @ ''%-.192s.%-.192s' is not %s''),
     (1348, ''Column '%-.192s' is not updatable''),
     (1349, ''View's SELECT contains a subquery in the FROM clause''),
     (1350, ''View's SELECT contains a '%s' clause''),
     (1351, ''View's SELECT contains a variable or parameter''),
     (1352, ''View's SELECT refers to a temporary table '%-.192s'' @ [CHR 0x27]),
     (1353, ''View's SELECT and view's field list have different column counts''),
     (1354, ''View merge algorithm can't be used here for now (assumed undefined algorithm)''),
     (1355, ''View being updated does not have complete key of underlying table in it''),
     (1356, ''View '%-.192s.%-.192s' references invalid table(s) or column(s) or function(s) or definer/invoker of view lack rights to use them''),
     (1357, ''Can't drop or alter a %s from within another stored routine''),
     (1358, ''GOTO is not allowed in a stored procedure handler''),
     (1359, ''Trigger already exists''),
     (1360, ''Trigger does not exist''),
     (1361, ''Trigger's '%-.192s' is view or temporary table''),
     (1362, ''Updating of %s row is not allowed in %strigger''),
     (1363, ''There is no %s row in %s trigger''),
     (1364, ''Field '%-.192s' doesn't have a default value''),
     (1365, ''Division by 0''),
     (1366, ''Incorrect %-.32s value: '%-.128s' for column '%.192s' at row %ld''),
     (1367, ''Illegal %s '%-.192s' value found during parsing''),
     (1368, ''CHECK OPTION on non-updatable view '%-.192s.%-.192s'' @ [CHR 0x27]),
     (1369, ''CHECK OPTION failed '%-.192s.%-.192s'' @ [CHR 0x27]),
     (1370, ''%-.16s command denied to user '%-.48s'@'%-.64s' for routine '%-.192s'' @ [CHR 0x27]),
     (1371, ''Failed purging old relay logs: %s''),
     (1372, ''Password hash should be a %d-digit hexadecimal number''),
     (1373, ''Target log not found in binlog index''),
     (1374, ''I/O error reading log index file''),
     (1375, ''Server configuration does not permit binlog purge''),
     (1376, ''Failed on fseek()''),
     (1377, ''Fatal error during log purge''),
     (1378, ''A purgeable log is in use, will not purge''),
     (1379, ''Unknown error during log purge''),
     (1380, ''Failed initializing relay log position: %s''),
     (1381, ''You are not using binary logging''),
     (1382, ''The '%-.64s' syntax is reserved for purposes internal to the MySQL server''),
     (1383, ''WSAStartup Failed''),
     (1384, ''Can't handle procedures with different groups yet''),
     (1385, ''Select must have a group with this procedure''),
     (1386, ''Can't use ORDER clause with this procedure''),
     (1387, ''Binary logging and replication forbid changing the global server %s''),
     (1388, ''Can't map file: %-.200s, errno: %d''),
     (1389, ''Wrong magic in %-.64s''),
     (1390, ''Prepared statement contains too many placeholders''),
     (1391, ''Key part '%-.192s' length cannot be 0''),
     (1392, ''View text checksum failed''),
     (1393, ''Can not modify more than one base table through a join view '%-.192s.%-.192s'' @ [CHR 0x27]),
     (1394, ''Can not insert into join view '%-.192s.%-.192s' without fields list''),
     (1395, ''Can not delete from join view '%-.192s.%-.192s'' @ [CHR 0x27]),
     (1396, ''Operation %s failed for %.256s''),
     (1397, ''XAERNOTA: Unknown XID''),
     (1398, ''XAERINVAL: Invalid arguments (or unsupported command)''),
     (1399, ''XAERRMFAIL: The command cannot be executed when global transaction is in the  %.64s state''),
     (1400, ''XAEROUTSIDE: Some work is done outside global transaction''),
     (1401, ''XAERRMERR: Fatal error occurred in the transaction branch - check your data for consistency''),
     (1402, ''XARBROLLBACK: Transaction branch was rolled back''),
     (1403, ''There is no such grant defined for user '%-.48s' on host '%-.64s' on routine '%-.192s'' @ [CHR 0x27]),
     (1404, ''Failed to grant EXECUTE and ALTER ROUTINE privileges''),
     (1405, ''Failed to revoke all privileges to dropped routine''),
     (1406, ''Data too long for column '%s' at row %ld''),
     (1407, ''Bad SQLSTATE: '%s'' @ [CHR 0x27]),
     (1408, ''%s: ready for connections.'' @ [CHR 0x0A] @ ''Version: '%s'  socket: '%s'  port: %d  %s''),
     (1409, ''Can't load value from file with fixed size rows to variable''),
     (1410, ''You are not allowed to create a user with GRANT''),
     (1411, ''Incorrect %-.32s value: '%-.128s' for function %-.32s''),
     (1412, ''Table definition has changed, please retry transaction''),
     (1413, ''Duplicate handler declared in the same block''),
     (1414, ''OUT or INOUT argument %d for routine %s is not a variable or NEW pseudo-variable in BEFORE trigger''),
     (1415, ''Not allowed to return a result set from a %s''),
     (1416, ''Cannot get geometry object from data you send to the GEOMETRY field''),
     (1417, ''A routine failed and has neither NO SQL nor READS SQL DATA in its declaration and binary logging is enabled; if non-transactional tables were updated, the binary log will miss their changes''),
     (1418, ''This function has none of DETERMINISTIC, NO SQL, or READS SQL DATA in its declaration and binary logging is enabled (you *might* want to use the less safe logBinTrustFunctionCreators variable)''),
     (1419, ''You do not have the SUPER privilege and binary logging is enabled (you *might* want to use the less safe logBinTrustFunctionCreators variable)''),
     (1420, ''You can't execute a prepared statement which has an open cursor associated with it. Reset the statement to re-execute it.''),
     (1421, ''The statement (%lu) has no open cursor.''),
     (1422, ''Explicit or implicit commit is not allowed in stored function or trigger.''),
     (1423, ''Field of view '%-.192s.%-.192s' underlying table doesn't have a default value''),
     (1424, ''Recursive stored functions and triggers are not allowed.''),
     (1425, ''Too big scale %d specified for column '%-.192s'. Maximum is %lu.''),
     (1426, ''Too big precision %d specified for column '%-.192s'. Maximum is %lu.''),
     (1427, ''For float(M,D), double(M,D) or decimal(M,D), M must be >= D (column '%-.192s').''),
     (1428, ''You can't combine write-locking of system tables with other tables or lock types''),
     (1429, ''Unable to connect to foreign data source: %.64s''),
     (1430, ''There was a problem processing the query on the foreign data source. Data source : %-.64s''),
     (1431, ''The foreign data source you are trying to reference does not exist. Data source :  %-.64s''),
     (1432, ''Can't create federated table. The data source connection string '%-.64s' is not in the correct format''),
     (1433, ''The data source connection string '%-.64s' is not in the correct format''),
     (1434, ''Can't create federated table. Foreign data src :  %-.64s'')]"

definition errNames4 :: "(u16 \<times> string) list" where
  "errNames4 =
    [(1435, ''Trigger in wrong schema''),
     (1436, ''Thread stack overrun:  %ld bytes used of a %ld byte stack, and %ld bytes needed.  Use 'mysqld --threadStack=#' to specify a bigger stack.''),
     (1437, ''Routine body for '%-.100s' is too long''),
     (1438, ''Cannot drop default keycache''),
     (1439, ''Display width out of range for column '%-.192s' (max = %lu)''),
     (1440, ''XAERDUPID: The XID already exists''),
     (1441, ''Datetime function: %-.32s field overflow''),
     (1442, ''Can't update table '%-.192s' in stored function/trigger because it is already used by statement which invoked this stored function/trigger.''),
     (1443, ''The definition of table '%-.192s' prevents operation %.192s on table '%-.192s'.''),
     (1444, ''The prepared statement contains a stored routine call that refers to that same statement. It's not allowed to execute a prepared statement in such a recursive manner''),
     (1445, ''Not allowed to set autocommit from a stored function or trigger''),
     (1446, ''Definer is not fully qualified''),
     (1447, ''View '%-.192s'.'%-.192s' has no definer information (old table format). Current user is used as definer. Please recreate the view!''),
     (1448, ''You need the SUPER privilege for creation view with '%-.192s'@'%-.192s' definer''),
     (1449, ''The user specified as a definer ('%-.64s'@'%-.64s') does not exist''),
     (1450, ''Changing schema from '%-.192s' to '%-.192s' is not allowed.''),
     (1451, ''Cannot delete or update a parent row: a foreign key constraint fails (%.192s)''),
     (1452, ''Cannot add or update a child row: a foreign key constraint fails (%.192s)''),
     (1453, ''Variable '%-.64s' must be quoted with `...`, or renamed''),
     (1454, ''No definer attribute for trigger '%-.192s'.'%-.192s'. The trigger will be activated under the authorization of the invoker, which may have insufficient privileges. Please recreate the trigger.''),
     (1455, [CHR 0x27] @ ''%-.192s' has an old format, you should re-create the '%s' object(s)''),
     (1456, ''Recursive limit %d (as set by the maxSpRecursionDepth variable) was exceeded for routine %.192s''),
     (1457, ''Failed to load routine %-.192s. The table mysql.proc is missing, corrupt, or contains bad data (internal code %d)''),
     (1458, ''Incorrect routine name '%-.192s'' @ [CHR 0x27]),
     (1459, ''Table upgrade required. Please do \"REPAIR TABLE `%-.32s`\"''),
     (1460, ''AGGREGATE is not supported for stored functions''),
     (1461, ''Can't create more than maxPreparedStmtCount statements (current value: %lu)''),
     (1462, ''`%-.192s`.`%-.192s` contains view recursion''),
     (1463, ''Non-grouping field '%-.192s' is used in %-.64s clause''),
     (1464, ''The used table type doesn't support SPATIAL indexes''),
     (1465, ''Triggers can not be created on system tables''),
     (1466, ''Leading spaces are removed from name '%s'' @ [CHR 0x27]),
     (1467, ''Failed to read auto-increment value from storage engine''),
     (1468, ''user name''),
     (1469, ''host name''),
     (1470, ''String '%-.70s' is too long for %s (should be no longer than %d)''),
     (1471, ''The target table %-.100s of the %s is not insertable-into''),
     (1472, ''Table '%-.64s' is differently defined or of non-MyISAM type or doesn't exist''),
     (1473, ''Too high level of nesting for select''),
     (1474, ''Name '%-.64s' has become '' @ [CHR 0x27] @ [CHR 0x27]),
     (1475, ''First character of the FIELDS TERMINATED string is ambiguous; please use non-optional and non-empty FIELDS ENCLOSED BY''),
     (1476, ''The foreign server, %s, you are trying to create already exists.''),
     (1477, ''The foreign server name you are trying to reference does not exist. Data source :  %-.64s''),
     (1478, ''Table storage engine '%-.64s' does not support the create option '%.64s'' @ [CHR 0x27]),
     (1479, ''Syntax : %-.64s PARTITIONING requires definition of VALUES %-.64s for each partition''),
     (1480, ''Only %-.64s PARTITIONING can use VALUES %-.64s in partition definition''),
     (1481, ''MAXVALUE can only be used in last partition definition''),
     (1482, ''Subpartitions can only be hash partitions and by key''),
     (1483, ''Must define subpartitions on all partitions if on one partition''),
     (1484, ''Wrong number of partitions defined, mismatch with previous setting''),
     (1485, ''Wrong number of subpartitions defined, mismatch with previous setting''),
     (1486, ''Constant, random or timezone-dependent expressions in (sub)partitioning function are not allowed''),
     (1487, ''Expression in RANGE/LIST VALUES must be constant''),
     (1488, ''Field in list of fields for partition function not found in table''),
     (1489, ''List of fields is only allowed in KEY partitions''),
     (1490, ''The partition info in the frm file is not consistent with what can be written into the frm file''),
     (1491, ''The %-.192s function returns the wrong type''),
     (1492, ''For %-.64s partitions each partition must be defined''),
     (1493, ''VALUES LESS THAN value must be strictly increasing for each partition''),
     (1494, ''VALUES value must be of same type as partition function''),
     (1495, ''Multiple definition of same constant in list partitioning''),
     (1496, ''Partitioning can not be used stand-alone in query''),
     (1497, ''The mix of handlers in the partitions is not allowed in this version of MySQL''),
     (1498, ''For the partitioned engine it is necessary to define all %-.64s''),
     (1499, ''Too many partitions (including subpartitions) were defined''),
     (1500, ''It is only possible to mix RANGE/LIST partitioning with HASH/KEY partitioning for subpartitioning''),
     (1501, ''Failed to create specific handler file''),
     (1502, ''A BLOB field is not allowed in partition function''),
     (1503, ''A %-.192s must include all columns in the table's partitioning function''),
     (1504, ''Number of %-.64s = 0 is not an allowed value''),
     (1505, ''Partition management on a not partitioned table is not possible''),
     (1506, ''Foreign key clause is not yet supported in conjunction with partitioning''),
     (1507, ''Error in list of partitions to %-.64s''),
     (1508, ''Cannot remove all partitions, use DROP TABLE instead''),
     (1509, ''COALESCE PARTITION can only be used on HASH/KEY partitions''),
     (1510, ''REORGANIZE PARTITION can only be used to reorganize partitions not to change their numbers''),
     (1511, ''REORGANIZE PARTITION without parameters can only be used on auto-partitioned tables using HASH PARTITIONs''),
     (1512, ''%-.64s PARTITION can only be used on RANGE/LIST partitions''),
     (1513, ''Trying to Add partition(s) with wrong number of subpartitions''),
     (1514, ''At least one partition must be added''),
     (1515, ''At least one partition must be coalesced''),
     (1516, ''More partitions to reorganize than there are partitions''),
     (1517, ''Duplicate partition name %-.192s''),
     (1518, ''It is not allowed to shut off binlog on this command''),
     (1519, ''When reorganizing a set of partitions they must be in consecutive order''),
     (1520, ''Reorganize of range partitions cannot change total ranges except for last partition where it can extend the range''),
     (1521, ''Partition function not supported in this version for this handler''),
     (1522, ''Partition state cannot be defined from CREATE/ALTER TABLE''),
     (1523, ''The %-.64s handler only supports 32 bit integers in VALUES''),
     (1524, ''Plugin '%-.192s' is not loaded''),
     (1525, ''Incorrect %-.32s value: '%-.128s'' @ [CHR 0x27]),
     (1526, ''Table has no partition for value %-.64s''),
     (1527, ''It is not allowed to specify %s more than once''),
     (1528, ''Failed to create %s''),
     (1529, ''Failed to drop %s''),
     (1530, ''The handler doesn't support autoextend of tablespaces''),
     (1531, ''A size parameter was incorrectly specified, either number or on the form 10M''),
     (1532, ''The size number was correct but we don't allow the digit part to be more than 2 billion''),
     (1533, ''Failed to alter: %s''),
     (1534, ''Writing one row to the row-based binary log failed''),
     (1535, ''Table definition on master and slave does not match: %s''),
     (1536, ''Slave running with --log-slave-updates must use row-based binary logging to be able to replicate row-based binary log events''),
     (1537, ''Event '%-.192s' already exists''),
     (1538, ''Failed to store event %s. Error code %d from storage engine.''),
     (1539, ''Unknown event '%-.192s'' @ [CHR 0x27]),
     (1540, ''Failed to alter event '%-.192s'' @ [CHR 0x27]),
     (1541, ''Failed to drop %s''),
     (1542, ''INTERVAL is either not positive or too big''),
     (1543, ''ENDS is either invalid or before STARTS''),
     (1544, ''Event execution time is in the past. Event has been disabled''),
     (1545, ''Failed to open mysql.event''),
     (1546, ''No datetime expression provided''),
     (1547, ''Column count of mysql.%s is wrong. Expected %d, found %d. The table is probably corrupted''),
     (1548, ''Cannot load from mysql.%s. The table is probably corrupted''),
     (1549, ''Failed to delete the event from mysql.event''),
     (1550, ''Error during compilation of event's body''),
     (1551, ''Same old and new event name''),
     (1552, ''Data for column '%s' too long''),
     (1553, ''Cannot drop index '%-.192s': needed in a foreign key constraint''),
     (1554, ''The syntax '%s' is deprecated and will be removed in MySQL %s. Please use %s instead''),
     (1555, ''You can't write-lock a log table. Only read access is possible''),
     (1556, ''You can't use locks with log tables.''),
     (1557, ''Upholding foreign key constraints for table '%.192s', entry '%-.192s', key %d would lead to a duplicate entry''),
     (1558, ''Column count of mysql.%s is wrong. Expected %d, found %d. Created with MySQL %d, now running %d. Please use mysqlUpgrade to fix this error.''),
     (1559, ''Cannot switch out of the row-based binary log format when the session has open temporary tables''),
     (1560, ''Cannot change the binary logging format inside a stored function or trigger''),
     (1561, ''The NDB cluster engine does not support changing the binlog format on the fly yet''),
     (1562, ''Cannot create temporary table with partitions''),
     (1563, ''Partition constant is out of partition function domain''),
     (1564, ''This partition function is not allowed''),
     (1565, ''Error in DDL log''),
     (1566, ''Not allowed to use NULL value in VALUES LESS THAN''),
     (1567, ''Incorrect partition name''),
     (1568, ''Transaction characteristics can't be changed while a transaction is in progress''),
     (1569, ''ALTER TABLE causes autoIncrement resequencing, resulting in duplicate entry '%-.192s' for key '%-.192s'' @ [CHR 0x27]),
     (1570, ''Internal scheduler error %d''),
     (1571, ''Error during starting/stopping of the scheduler. Error code %u''),
     (1572, ''Engine cannot be used in partitioned tables''),
     (1573, ''Cannot activate '%-.64s' log''),
     (1574, ''The server was not built with row-based replication''),
     (1575, ''Decoding of base64 string failed''),
     (1576, ''Recursion of EVENT DDL statements is forbidden when body is present''),
     (1577, ''Cannot proceed because system tables used by Event Scheduler were found damaged at server start''),
     (1578, ''Only integers allowed as number here''),
     (1579, ''This storage engine cannot be used for log tables\"'')]"

definition errNames5 :: "(u16 \<times> string) list" where
  "errNames5 =
    [(1580, ''You cannot '%s' a log table if logging is enabled''),
     (1581, ''Cannot rename '%s'. When logging enabled, rename to/from log table must rename two tables: the log table to an archive table and another table back to '%s'' @ [CHR 0x27]),
     (1582, ''Incorrect parameter count in the call to native function '%-.192s'' @ [CHR 0x27]),
     (1583, ''Incorrect parameters in the call to native function '%-.192s'' @ [CHR 0x27]),
     (1584, ''Incorrect parameters in the call to stored function '%-.192s'' @ [CHR 0x27]),
     (1585, ''This function '%-.192s' has the same name as a native function''),
     (1586, ''Duplicate entry '%-.64s' for key '%-.192s'' @ [CHR 0x27]),
     (1587, ''Too many files opened, please execute the command again''),
     (1588, ''Event execution time is in the past and ON COMPLETION NOT PRESERVE is set. The event was dropped immediately after creation.''),
     (1589, ''Event execution time is in the past and ON COMPLETION NOT PRESERVE is set. The event was not changed. Specify a time in the future.''),
     (1590, ''The incident %s occured on the master. Message: %-.64s''),
     (1591, ''Table has no partition for some existing values''),
     (1592, ''Unsafe statement written to the binary log using statement format since BINLOGFORMAT = STATEMENT. %s''),
     (1593, ''Fatal : %s''),
     (1594, ''Relay log read failure: %s''),
     (1595, ''Relay log write failure: %s''),
     (1596, ''Failed to create %s''),
     (1597, ''Master command %s failed: %s''),
     (1598, ''Binary logging not possible. Message: %s''),
     (1599, ''View `%-.64s`.`%-.64s` has no creation context''),
     (1600, ''Creation context of view `%-.64s`.`%-.64s' is invalid''),
     (1601, ''Creation context of stored routine `%-.64s`.`%-.64s` is invalid''),
     (1602, ''Corrupted TRG file for table `%-.64s`.`%-.64s`''),
     (1603, ''Triggers for table `%-.64s`.`%-.64s` have no creation context''),
     (1604, ''Trigger creation context of table `%-.64s`.`%-.64s` is invalid''),
     (1605, ''Creation context of event `%-.64s`.`%-.64s` is invalid''),
     (1606, ''Cannot open table for trigger `%-.64s`.`%-.64s`''),
     (1607, ''Cannot create stored routine `%-.64s`. Check warnings''),
     (1608, ''Ambiguous slave modes combination. %s''),
     (1609, ''The BINLOG statement of type `%s` was not preceded by a format description BINLOG statement.''),
     (1610, ''Corrupted replication event was detected''),
     (1611, ''Invalid column reference (%-.64s) in LOAD DATA''),
     (1612, ''Being purged log %s was not found''),
     (1613, ''XARBTIMEOUT: Transaction branch was rolled back: took too long''),
     (1614, ''XARBDEADLOCK: Transaction branch was rolled back: deadlock was detected''),
     (1615, ''Prepared statement needs to be re-prepared''),
     (1616, ''DELAYED option not supported for table '%-.192s'' @ [CHR 0x27]),
     (1617, ''The master info structure does not exist''),
     (1618, ''<%-.64s> option ignored''),
     (1619, ''Built-in plugins cannot be deleted''),
     (1620, ''Plugin is busy and will be uninstalled on shutdown''),
     (1621, ''%s variable '%s' is read-only. Use SET %s to assign the value''),
     (1622, ''Storage engine %s does not support rollback for this statement. Transaction rolled back and must be restarted''),
     (1623, ''Unexpected master's heartbeat data: %s''),
     (1624, ''The requested value for the heartbeat period is either negative or exceeds the maximum allowed (%s seconds).''),
     (1625, ''Bad schema for mysql.ndbReplication table. Message: %-.64s''),
     (1626, ''Error in parsing conflict function. Message: %-.64s''),
     (1627, ''Write to exceptions table failed. Message: %-.128s\"''),
     (1628, ''Comment for table '%-.64s' is too long (max = %lu)''),
     (1629, ''Comment for field '%-.64s' is too long (max = %lu)''),
     (1630, ''FUNCTION %s does not exist. Check the 'Function Name Parsing and Resolution' section in the Reference Manual''),
     (1631, ''Database''),
     (1632, ''Table''),
     (1633, ''Partition''),
     (1634, ''Subpartition''),
     (1635, ''Temporary''),
     (1636, ''Renamed''),
     (1637, ''Too many active concurrent transactions''),
     (1638, ''Non-ASCII separator arguments are not fully supported''),
     (1639, ''debug sync point wait timed out''),
     (1640, ''debug sync point hit limit reached''),
     (1641, ''Duplicate condition information item '%s'' @ [CHR 0x27]),
     (1642, ''Unhandled user-defined warning condition''),
     (1643, ''Unhandled user-defined not found condition''),
     (1644, ''Unhandled user-defined exception condition''),
     (1645, ''RESIGNAL when handler not active''),
     (1646, ''SIGNAL/RESIGNAL can only use a CONDITION defined with SQLSTATE''),
     (1647, ''Data truncated for condition item '%s'' @ [CHR 0x27]),
     (1648, ''Data too long for condition item '%s'' @ [CHR 0x27]),
     (1649, ''Unknown locale: '%-.64s'' @ [CHR 0x27]),
     (1650, ''The requested server id %d clashes with the slave startup option --replicate-same-server-id''),
     (1651, ''Query cache is disabled; restart the server with queryCacheType=1 to enable it''),
     (1652, ''Duplicate partition field name '%-.192s'' @ [CHR 0x27]),
     (1653, ''Inconsistency in usage of column lists for partitioning''),
     (1654, ''Partition column values of incorrect type''),
     (1655, ''Too many fields in '%-.192s'' @ [CHR 0x27]),
     (1656, ''Cannot use MAXVALUE as value in VALUES IN''),
     (1657, ''Cannot have more than one value for this type of %-.64s partitioning''),
     (1658, ''Row expressions in VALUES IN only allowed for multi-field column partitioning''),
     (1659, ''Field '%-.192s' is of a not allowed type for this type of partitioning''),
     (1660, ''The total length of the partitioning fields is too large''),
     (1661, ''Cannot execute statement: impossible to write to binary log since both row-incapable engines and statement-incapable engines are involved.''),
     (1662, ''Cannot execute statement: impossible to write to binary log since BINLOGFORMAT = ROW and at least one table uses a storage engine limited to statement-based logging.''),
     (1663, ''Cannot execute statement: impossible to write to binary log since statement is unsafe, storage engine is limited to statement-based logging, and BINLOGFORMAT = MIXED. %s''),
     (1664, ''Cannot execute statement: impossible to write to binary log since statement is in row format and at least one table uses a storage engine limited to statement-based logging.''),
     (1665, ''Cannot execute statement: impossible to write to binary log since BINLOGFORMAT = STATEMENT and at least one table uses a storage engine limited to row-based logging.%s''),
     (1666, ''Cannot execute statement: impossible to write to binary log since statement is in row format and BINLOGFORMAT = STATEMENT.''),
     (1667, ''Cannot execute statement: impossible to write to binary log since more than one engine is involved and at least one engine is self-logging.''),
     (1668, ''The statement is unsafe because it uses a LIMIT clause. This is unsafe because the set of rows included cannot be predicted.''),
     (1669, ''The statement is unsafe because it uses INSERT DELAYED. This is unsafe because the times when rows are inserted cannot be predicted.''),
     (1670, ''The statement is unsafe because it uses the general log, slow query log, or performanceSchema table(s). This is unsafe because system tables may differ on slaves.''),
     (1671, ''Statement is unsafe because it invokes a trigger or a stored function that inserts into an AUTOINCREMENT column. Inserted values cannot be logged correctly.''),
     (1672, ''Statement is unsafe because it uses a UDF which may not return the same value on the slave.''),
     (1673, ''Statement is unsafe because it uses a system variable that may have a different value on the slave.''),
     (1674, ''Statement is unsafe because it uses a system function that may return a different value on the slave.''),
     (1675, ''Statement is unsafe because it accesses a non-transactional table after accessing a transactional table within the same transaction.''),
     (1676, ''%s Statement: %s''),
     (1677, ''Column %d of table '%-.192s.%-.192s' cannot be converted from type '%-.32s' to type '%-.32s'' @ [CHR 0x27]),
     (1678, ''Can't create conversion table for table '%-.192s.%-.192s'' @ [CHR 0x27]),
     (1679, ''Cannot modify @@session.binlogFormat inside a transaction''),
     (1680, ''The path specified for %.64s is too long.''),
     (1681, [CHR 0x27] @ ''%s' is deprecated and will be removed in a future release.''),
     (1682, ''Native table '%-.64s'.'%-.64s' has the wrong structure''),
     (1683, ''Invalid performanceSchema usage.''),
     (1684, ''Table '%s'.'%s' was skipped since its definition is being modified by concurrent DDL statement''),
     (1685, ''Cannot modify @@session.binlogDirectNonTransactionalUpdates inside a transaction''),
     (1686, ''Cannot change the binlog direct flag inside a stored function or trigger''),
     (1687, ''A SPATIAL index may only contain a geometrical type column''),
     (1688, ''Comment for index '%-.64s' is too long (max = %lu)''),
     (1689, ''Wait on a lock was aborted due to a pending exclusive lock''),
     (1690, ''%s value is out of range in '%s'' @ [CHR 0x27]),
     (1691, ''A variable of a non-integer based type in LIMIT clause''),
     (1692, ''Mixing self-logging and non-self-logging engines in a statement is unsafe.''),
     (1693, ''Statement accesses nontransactional table as well as transactional or temporary table, and writes to any of them.''),
     (1694, ''Cannot modify @@session.sqlLogBin inside a transaction''),
     (1695, ''Cannot change the sqlLogBin inside a stored function or trigger''),
     (1696, ''Failed to read from the .par file''),
     (1697, ''VALUES value for partition '%-.64s' must have type INT''),
     (1698, ''Access denied for user '%-.48s'@'%-.64s'' @ [CHR 0x27]),
     (1699, ''SET PASSWORD has no significance for users authenticating via plugins''),
     (1700, ''GRANT with IDENTIFIED WITH is illegal because the user %-.*s already exists''),
     (1701, ''Cannot truncate a table referenced in a foreign key constraint (%.192s)''),
     (1702, ''Plugin '%s' is forcePlusPermanent and can not be unloaded''),
     (1703, ''The requested value for the heartbeat period is less than 1 millisecond. The value is reset to 0, meaning that heartbeating will effectively be disabled.''),
     (1704, ''The requested value for the heartbeat period exceeds the value of `slaveNetTimeout' seconds. A sensible value for the period should be less than the timeout.''),
     (1705, ''Multi-row statements required more than 'maxBinlogStmtCacheSize' bytes of storage; increase this mysqld variable and try again''),
     (1706, ''Primary key/partition key update is not allowed since the table is updated both as '%-.192s' and '%-.192s'.''),
     (1707, ''Table rebuild required. Please do \"ALTER TABLE `%-.32s` FORCE\" or dump/reload to fix it!''),
     (1708, ''The value of '%s' should be no less than the value of '%s'' @ [CHR 0x27]),
     (1709, ''Index column size too large. The maximum column size is %lu bytes.''),
     (1710, ''Trigger '%-.64s' has an error in its body: '%-.256s'' @ [CHR 0x27]),
     (1711, ''Unknown trigger has an error in its body: '%-.256s'' @ [CHR 0x27]),
     (1712, ''Index %s is corrupted''),
     (1713, ''Undo log record is too big.''),
     (1714, ''INSERT IGNORE... SELECT is unsafe because the order in which rows are retrieved by the SELECT determines which (if any) rows are ignored. This order cannot be predicted and may differ on master and the slave.''),
     (1715, ''INSERT... SELECT... ON DUPLICATE KEY UPDATE is unsafe because the order in which rows are retrieved by the SELECT determines which (if any) rows are updated. This order cannot be predicted and may differ on master and the slave.''),
     (1716, ''REPLACE... SELECT is unsafe because the order in which rows are retrieved by the SELECT determines which (if any) rows are replaced. This order cannot be predicted and may differ on master and the slave.''),
     (1717, ''CREATE... IGNORE SELECT is unsafe because the order in which rows are retrieved by the SELECT determines which (if any) rows are ignored. This order cannot be predicted and may differ on master and the slave.''),
     (1718, ''CREATE... REPLACE SELECT is unsafe because the order in which rows are retrieved by the SELECT determines which (if any) rows are replaced. This order cannot be predicted and may differ on master and the slave.''),
     (1719, ''UPDATE IGNORE is unsafe because the order in which rows are updated determines which (if any) rows are ignored. This order cannot be predicted and may differ on master and the slave.''),
     (1720, ''Plugin '%s' is marked as not dynamically uninstallable. You have to stop the server to uninstall it.''),
     (1721, ''Plugin '%s' is marked as not dynamically installable. You have to stop the server to install it.''),
     (1722, ''Statements writing to a table with an auto-increment column after selecting from another table are unsafe because the order in which rows are retrieved determines what (if any) rows will be written. This order cannot be predicted and may differ on master and the slave.''),
     (1723, ''CREATE TABLE... SELECT...  on a table with an auto-increment column is unsafe because the order in which rows are retrieved by the SELECT determines which (if any) rows are inserted. This order cannot be predicted and may differ on master and the slave.''),
     (1724, ''INSERT... ON DUPLICATE KEY UPDATE  on a table with more than one UNIQUE KEY is unsafe'')]"

definition errNames6 :: "(u16 \<times> string) list" where
  "errNames6 =
    [(1725, ''Table is being used in foreign key check.''),
     (1726, ''Storage engine '%s' does not support system tables. [%s.%s]''),
     (1727, ''INSERT into autoincrement field which is not the first part in the composed primary key is unsafe.''),
     (1728, ''Cannot load from %s.%s. The table is probably corrupted''),
     (1729, ''The requested value %u for the master delay exceeds the maximum %u''),
     (1730, ''Only FormatDescriptionLogEvent and row events are allowed in BINLOG statements (but %s was provided)''),
     (1731, ''Non matching attribute '%-.64s' between partition and table''),
     (1732, ''Table to exchange with partition is partitioned: '%-.64s'' @ [CHR 0x27]),
     (1733, ''Table to exchange with partition is temporary: '%-.64s'' @ [CHR 0x27]),
     (1734, ''Subpartitioned table, use subpartition instead of partition''),
     (1735, ''Unknown partition '%-.64s' in table '%-.64s'' @ [CHR 0x27]),
     (1736, ''Tables have different definitions''),
     (1737, ''Found a row that does not match the partition''),
     (1738, ''Option binlogCacheSize (%lu) is greater than maxBinlogCacheSize (%lu); setting binlogCacheSize equal to maxBinlogCacheSize.''),
     (1739, ''Cannot use %-.64s access on index '%-.64s' due to type or collation conversion on field '%-.64s'' @ [CHR 0x27]),
     (1740, ''Table to exchange with partition has foreign key references: '%-.64s'' @ [CHR 0x27]),
     (1741, ''Key value '%-.192s' was not found in table '%-.192s.%-.192s'' @ [CHR 0x27]),
     (1742, ''Data for column '%s' too long''),
     (1743, ''Replication event checksum verification failed while reading from network.''),
     (1744, ''Replication event checksum verification failed while reading from a log file.''),
     (1745, ''Option binlogStmtCacheSize (%lu) is greater than maxBinlogStmtCacheSize (%lu); setting binlogStmtCacheSize equal to maxBinlogStmtCacheSize.''),
     (1746, ''Can't update table '%-.192s' while '%-.192s' is being created.''),
     (1747, ''PARTITION () clause on non partitioned table''),
     (1748, ''Found a row not matching the given partition set''),
     (1749, ''partition '%-.64s' doesn't exist''),
     (1750, ''Failure while changing the type of replication repository: %s.''),
     (1751, ''The creation of some temporary tables could not be rolled back.''),
     (1752, ''Some temporary tables were dropped, but these operations could not be rolled back.''),
     (1753, ''%s is not supported in multi-threaded slave mode. %s''),
     (1754, ''The number of modified databases exceeds the maximum %d; the database names will not be included in the replication event metadata.''),
     (1755, ''Cannot execute the current event group in the parallel mode. Encountered event %s, relay-log name %s, position %s which prevents execution of this event group in parallel mode. Reason: %s.''),
     (1756, ''%s''),
     (1757, ''FULLTEXT index is not supported for partitioned tables.''),
     (1758, ''Invalid condition number''),
     (1759, ''Sending passwords in plain text without SSL/TLS is extremely insecure.''),
     (1760, ''Storing MySQL user name or password information in the master.info repository is not secure and is therefore not recommended. Please see the MySQL Manual for more about this issue and possible alternatives.''),
     (1761, ''Foreign key constraint for table '%.192s', record '%-.192s' would lead to a duplicate entry in table '%.192s', key '%.192s'' @ [CHR 0x27]),
     (1762, ''Foreign key constraint for table '%.192s', record '%-.192s' would lead to a duplicate entry in a child table''),
     (1763, ''Setting authentication options is not possible when only the Slave SQL Thread is being started.''),
     (1764, ''The table does not have FULLTEXT index to support this query''),
     (1765, ''The system variable %.200s cannot be set in stored functions or triggers.''),
     (1766, ''The system variable %.200s cannot be set when there is an ongoing transaction.''),
     (1767, ''The system variable @@SESSION.GTIDNEXT has the value %.200s, which is not listed in @@SESSION.GTIDNEXTLIST.''),
     (1768, ''When @@SESSION.GTIDNEXTLIST == NULL, the system variable @@SESSION.GTIDNEXT cannot change inside a transaction.''),
     (1769, ''The statement 'SET %.200s' cannot invoke a stored function.''),
     (1770, ''The system variable @@SESSION.GTIDNEXT cannot be 'AUTOMATIC' when @@SESSION.GTIDNEXTLIST is non-NULL.''),
     (1771, ''Skipping transaction %.200s because it has already been executed and logged.''),
     (1772, ''Malformed GTID set specification '%.200s'.''),
     (1773, ''Malformed GTID set encoding.''),
     (1774, ''Malformed GTID specification '%.200s'.''),
     (1775, ''Impossible to generate Global Transaction Identifier: the integer component reached the maximal value. Restart the server with a new serverUuid.''),
     (1776, ''Parameters MASTERLOGFILE, MASTERLOGPOS, RELAYLOGFILE and RELAYLOGPOS cannot be set when MASTERAUTOPOSITION is active.''),
     (1777, ''CHANGE MASTER TO MASTERAUTOPOSITION = 1 can only be executed when @@GLOBAL.GTIDMODE = ON.''),
     (1778, ''Cannot execute statements with implicit commit inside a transaction when @@SESSION.GTIDNEXT != AUTOMATIC or @@SESSION.GTIDNEXTLIST != NULL.''),
     (1779, ''@@GLOBAL.GTIDMODE = ON or UPGRADESTEP2 requires @@GLOBAL.ENFORCEGTIDCONSISTENCY = 1.''),
     (1780, ''@@GLOBAL.GTIDMODE = ON or UPGRADESTEP1 or UPGRADESTEP2 requires --log-bin and --log-slave-updates.''),
     (1781, ''@@SESSION.GTIDNEXT cannot be set to UUID:NUMBER when @@GLOBAL.GTIDMODE = OFF.''),
     (1782, ''@@SESSION.GTIDNEXT cannot be set to ANONYMOUS when @@GLOBAL.GTIDMODE = ON.''),
     (1783, ''@@SESSION.GTIDNEXTLIST cannot be set to a non-NULL value when @@GLOBAL.GTIDMODE = OFF.''),
     (1784, ''Found a GtidLogEvent or PreviousGtidsLogEvent when @@GLOBAL.GTIDMODE = OFF.''),
     (1785, ''When @@GLOBAL.ENFORCEGTIDCONSISTENCY = 1, updates to non-transactional tables can only be done in either autocommitted statements or single-statement transactions, and never in the same statement as updates to transactional tables.''),
     (1786, ''CREATE TABLE ... SELECT is forbidden when @@GLOBAL.ENFORCEGTIDCONSISTENCY = 1.''),
     (1787, ''When @@GLOBAL.ENFORCEGTIDCONSISTENCY = 1, the statements CREATE TEMPORARY TABLE and DROP TEMPORARY TABLE can be executed in a non-transactional context only, and require that AUTOCOMMIT = 1.''),
     (1788, ''The value of @@GLOBAL.GTIDMODE can only change one step at a time: OFF <-> UPGRADESTEP1 <-> UPGRADESTEP2 <-> ON. Also note that this value must be stepped up or down simultaneously on all servers; see the Manual for instructions.''),
     (1789, ''The slave is connecting using CHANGE MASTER TO MASTERAUTOPOSITION = 1, but the master has purged binary logs containing GTIDs that the slave requires.''),
     (1790, ''@@SESSION.GTIDNEXT cannot be changed by a client that owns a GTID. The client owns %s. Ownership is released on COMMIT or ROLLBACK.''),
     (1791, ''Unknown EXPLAIN format name: '%s'' @ [CHR 0x27]),
     (1792, ''Cannot execute statement in a READ ONLY transaction.''),
     (1793, ''Comment for table partition '%-.64s' is too long (max = %lu)''),
     (1794, ''Slave is not configured or failed to initialize properly. You must at least set --server-id to enable either a master or a slave. Additional error messages can be found in the MySQL error log.''),
     (1795, ''InnoDB presently supports one FULLTEXT index creation at a time''),
     (1796, ''Cannot create FULLTEXT index on temporary InnoDB table''),
     (1797, ''Column '%-.192s' is of wrong type for an InnoDB FULLTEXT index''),
     (1798, ''Index '%-.192s' is of wrong type for an InnoDB FULLTEXT index''),
     (1799, ''Creating index '%-.192s' required more than 'innodbOnlineAlterLogMaxSize' bytes of modification log. Please try again.''),
     (1800, ''Unknown ALGORITHM '%s'' @ [CHR 0x27]),
     (1801, ''Unknown LOCK type '%s'' @ [CHR 0x27]),
     (1802, ''CHANGE MASTER cannot be executed when the slave was stopped with an error or killed in MTS mode. Consider using RESET SLAVE or START SLAVE UNTIL.''),
     (1803, ''Cannot recover after SLAVE errored out in parallel execution mode. Additional error messages can be found in the MySQL error log.''),
     (1804, ''Cannot clean up worker info tables. Additional error messages can be found in the MySQL error log.''),
     (1805, ''Column count of %s.%s is wrong. Expected %d, found %d. The table is probably corrupted''),
     (1806, ''Slave must silently retry current transaction''),
     (1807, ''There is a foreign key check running on table '%-.192s'. Cannot discard the table.''),
     (1808, ''Schema mismatch (%s)''),
     (1809, ''Table '%-.192s' in system tablespace''),
     (1810, ''IO Read : (%lu, %s) %s''),
     (1811, ''IO Write : (%lu, %s) %s''),
     (1812, ''Tablespace is missing for table '%-.192s'' @ [CHR 0x27]),
     (1813, ''Tablespace for table '%-.192s' exists. Please DISCARD the tablespace before IMPORT.''),
     (1814, ''Tablespace has been discarded for table '%-.192s'' @ [CHR 0x27]),
     (1815, ''Internal : %s''),
     (1816, ''ALTER TABLE '%-.192s' IMPORT TABLESPACE failed with error %lu : '%s'' @ [CHR 0x27]),
     (1817, ''Index corrupt: %s''),
     (1818, ''YEAR(%lu) column type is deprecated. Creating YEAR(4) column instead.''),
     (1819, ''Your password does not satisfy the current policy requirements''),
     (1820, ''You must SET PASSWORD before executing this statement''),
     (1821, ''Failed to add the foreign key constaint. Missing index for constraint '%s' in the foreign table '%s'' @ [CHR 0x27]),
     (1822, ''Failed to add the foreign key constaint. Missing index for constraint '%s' in the referenced table '%s'' @ [CHR 0x27]),
     (1823, ''Failed to add the foreign key constraint '%s' to system tables''),
     (1824, ''Failed to open the referenced table '%s'' @ [CHR 0x27]),
     (1825, ''Failed to add the foreign key constraint on table '%s'. Incorrect options in FOREIGN KEY constraint '%s'' @ [CHR 0x27]),
     (1826, ''Duplicate foreign key constraint name '%s'' @ [CHR 0x27]),
     (1827, ''The password hash doesn't have the expected format. Check if the correct password algorithm is being used with the PASSWORD() function.''),
     (1828, ''Cannot drop column '%-.192s': needed in a foreign key constraint '%-.192s'' @ [CHR 0x27]),
     (1829, ''Cannot drop column '%-.192s': needed in a foreign key constraint '%-.192s' of table '%-.192s'' @ [CHR 0x27]),
     (1830, ''Column '%-.192s' cannot be NOT NULL: needed in a foreign key constraint '%-.192s' SET NULL''),
     (1831, ''Duplicate index '%-.64s' defined on the table '%-.64s.%-.64s'. This is deprecated and will be disallowed in a future release.''),
     (1832, ''Cannot change column '%-.192s': used in a foreign key constraint '%-.192s'' @ [CHR 0x27]),
     (1833, ''Cannot change column '%-.192s': used in a foreign key constraint '%-.192s' of table '%-.192s'' @ [CHR 0x27]),
     (1834, ''Cannot delete rows from table which is parent in a foreign key constraint '%-.192s' of table '%-.192s'' @ [CHR 0x27]),
     (1835, ''Malformed communication packet.''),
     (1836, ''Running in read-only mode''),
     (1837, ''When @@SESSION.GTIDNEXT is set to a GTID, you must explicitly set it again after a COMMIT or ROLLBACK. If you see this error message in the slave SQL thread, it means that a table in the current transaction is transactional on the master and non-transactional on the slave. In a client connection, it means that you executed SET @@SESSION.GTIDNEXT before a transaction and forgot to set @@SESSION.GTIDNEXT to a different identifier or to 'AUTOMATIC' after COMMIT or ROLLBACK. Current @@SESSION.GTIDNEXT is '%s'.''),
     (1838, ''The system variable %.200s cannot be set in stored procedures.''),
     (1839, ''@@GLOBAL.GTIDPURGED can only be set when @@GLOBAL.GTIDMODE = ON.''),
     (1840, ''@@GLOBAL.GTIDPURGED can only be set when @@GLOBAL.GTIDEXECUTED is empty.''),
     (1841, ''@@GLOBAL.GTIDPURGED can only be set when there are no ongoing transactions (not even in other clients).''),
     (1842, ''@@GLOBAL.GTIDPURGED was changed from '%s' to '%s'.''),
     (1843, ''@@GLOBAL.GTIDEXECUTED was changed from '%s' to '%s'.''),
     (1844, ''Cannot execute statement: impossible to write to binary log since BINLOGFORMAT = STATEMENT, and both replicated and non replicated tables are written to.''),
     (1845, ''%s is not supported for this operation. Try %s.''),
     (1846, ''%s is not supported. Reason: %s. Try %s.''),
     (1847, ''COPY algorithm requires a lock''),
     (1848, ''Partition specific operations do not yet support LOCK/ALGORITHM''),
     (1849, ''Columns participating in a foreign key are renamed''),
     (1850, ''Cannot change column type INPLACE''),
     (1851, ''Adding foreign keys needs foreignKeyChecks=OFF''),
     (1852, ''Creating unique indexes with IGNORE requires COPY algorithm to remove duplicate rows''),
     (1853, ''Dropping a primary key is not allowed without also adding a new primary key''),
     (1854, ''Adding an auto-increment column requires a lock''),
     (1855, ''Cannot replace hidden FTSDOCID with a user-visible one''),
     (1856, ''Cannot drop or rename FTSDOCID''),
     (1857, ''Fulltext index creation requires a lock''),
     (1858, ''sqlSlaveSkipCounter can not be set when the server is running with @@GLOBAL.GTIDMODE = ON. Instead, for each transaction that you want to skip, generate an empty transaction with the same GTID as the transaction''),
     (1859, ''Duplicate entry for key '%-.192s'' @ [CHR 0x27]),
     (1860, ''Long database name and identifier for object resulted in path length exceeding %d characters. Path: '%s'.''),
     (1861, ''cannot silently convert NULL values, as required in this SQLMODE''),
     (1862, ''Your password has expired. To log in you must change it using a client that supports expired passwords.''),
     (1863, ''Found a row in wrong partition %s'')]"

definition MySQLErrName :: "(u16 \<times> string) list" where
  "MySQLErrName = errNames1 @ errNames2 @ errNames3 @ errNames4 @ errNames5 @ errNames6"

section \<open>States\<close>

definition DefaultMySQLState :: string where "DefaultMySQLState = ''HY000''"

definition sqlStates1 :: "(u16 \<times> string) list" where
  "sqlStates1 =
    [(1022, ''23000''),
     (1037, ''HY001''),
     (1038, ''HY001''),
     (1040, ''08004''),
     (1042, ''08S01''),
     (1043, ''08S01''),
     (1044, ''42000''),
     (1045, ''28000''),
     (1046, ''3D000''),
     (1047, ''08S01''),
     (1048, ''23000''),
     (1049, ''42000''),
     (1050, ''42S01''),
     (1051, ''42S02''),
     (1052, ''23000''),
     (1053, ''08S01''),
     (1054, ''42S22''),
     (1055, ''42000''),
     (1057, ''42000''),
     (1056, ''42000''),
     (1058, ''21S01''),
     (1059, ''42000''),
     (1060, ''42S21''),
     (1061, ''42000''),
     (1062, ''23000''),
     (1063, ''42000''),
     (1064, ''42000''),
     (1065, ''42000''),
     (1066, ''42000''),
     (1067, ''42000''),
     (1068, ''42000''),
     (1069, ''42000''),
     (1070, ''42000''),
     (1071, ''42000''),
     (1072, ''42000''),
     (1073, ''42000''),
     (1074, ''42000''),
     (1075, ''42000''),
     (1080, ''08S01''),
     (1081, ''08S01''),
     (1082, ''42S12''),
     (1083, ''42000''),
     (1084, ''42000''),
     (1090, ''42000''),
     (1091, ''42000''),
     (1101, ''42000''),
     (1102, ''42000''),
     (1103, ''42000''),
     (1104, ''42000''),
     (1106, ''42000''),
     (1107, ''42000''),
     (1109, ''42S02''),
     (1110, ''42000''),
     (1112, ''42000''),
     (1113, ''42000''),
     (1115, ''42000''),
     (1118, ''42000''),
     (1120, ''42000''),
     (1121, ''42000''),
     (1131, ''42000''),
     (1132, ''42000''),
     (1133, ''42000''),
     (1136, ''21S01''),
     (1138, ''22004''),
     (1139, ''42000''),
     (1140, ''42000''),
     (1141, ''42000''),
     (1142, ''42000''),
     (1143, ''42000''),
     (1144, ''42000''),
     (1145, ''42000''),
     (1146, ''42S02''),
     (1147, ''42000''),
     (1148, ''42000''),
     (1149, ''42000''),
     (1152, ''08S01''),
     (1153, ''08S01''),
     (1154, ''08S01''),
     (1155, ''08S01''),
     (1156, ''08S01''),
     (1157, ''08S01''),
     (1158, ''08S01''),
     (1159, ''08S01''),
     (1160, ''08S01''),
     (1161, ''08S01''),
     (1162, ''42000''),
     (1163, ''42000''),
     (1164, ''42000''),
     (1166, ''42000''),
     (1167, ''42000''),
     (1169, ''23000''),
     (1170, ''42000''),
     (1171, ''42000''),
     (1172, ''42000''),
     (1173, ''42000''),
     (1176, ''42000''),
     (1177, ''42000''),
     (1178, ''42000''),
     (1179, ''25000''),
     (1184, ''08S01''),
     (1189, ''08S01''),
     (1190, ''08S01''),
     (1203, ''42000''),
     (1207, ''25000''),
     (1211, ''42000''),
     (1213, ''40001''),
     (1216, ''23000''),
     (1217, ''23000''),
     (1218, ''08S01''),
     (1222, ''21000''),
     (1226, ''42000''),
     (1227, ''42000''),
     (1230, ''42000''),
     (1231, ''42000''),
     (1232, ''42000'')]"

definition sqlStates2 :: "(u16 \<times> string) list" where
  "sqlStates2 =
    [(1234, ''42000''),
     (1235, ''42000''),
     (1239, ''42000''),
     (1241, ''21000''),
     (1242, ''21000''),
     (1247, ''42S22''),
     (1248, ''42000''),
     (1249, ''01000''),
     (1250, ''42000''),
     (1251, ''08004''),
     (1252, ''42000''),
     (1253, ''42000''),
     (1261, ''01000''),
     (1262, ''01000''),
     (1263, ''22004''),
     (1264, ''22003''),
     (1265, ''01000''),
     (1280, ''42000''),
     (1281, ''42000''),
     (1286, ''42000''),
     (1292, ''22007''),
     (1303, ''2F003''),
     (1304, ''42000''),
     (1305, ''42000''),
     (1308, ''42000''),
     (1309, ''42000''),
     (1310, ''42000''),
     (1311, ''01000''),
     (1312, ''0A000''),
     (1313, ''42000''),
     (1314, ''0A000''),
     (1315, ''42000''),
     (1316, ''42000''),
     (1317, ''70100''),
     (1318, ''42000''),
     (1319, ''42000''),
     (1320, ''42000''),
     (1321, ''2F005''),
     (1322, ''42000''),
     (1323, ''42000''),
     (1324, ''42000''),
     (1325, ''24000''),
     (1326, ''24000''),
     (1327, ''42000''),
     (1329, ''02000''),
     (1330, ''42000''),
     (1331, ''42000''),
     (1332, ''42000''),
     (1333, ''42000''),
     (1335, ''0A000''),
     (1336, ''0A000''),
     (1337, ''42000''),
     (1338, ''42000''),
     (1339, ''20000''),
     (1365, ''22012''),
     (1367, ''22007''),
     (1370, ''42000''),
     (1397, ''XAE04''),
     (1398, ''XAE05''),
     (1399, ''XAE07''),
     (1400, ''XAE09''),
     (1401, ''XAE03''),
     (1402, ''XA100''),
     (1403, ''42000''),
     (1406, ''22001''),
     (1407, ''42000''),
     (1410, ''42000''),
     (1413, ''42000''),
     (1414, ''42000''),
     (1415, ''0A000''),
     (1416, ''22003''),
     (1425, ''42000''),
     (1426, ''42000''),
     (1427, ''42000''),
     (1437, ''42000''),
     (1439, ''42000''),
     (1440, ''XAE08''),
     (1441, ''22008''),
     (1451, ''23000''),
     (1452, ''23000''),
     (1453, ''42000''),
     (1458, ''42000''),
     (1460, ''42000''),
     (1461, ''42000''),
     (1463, ''42000''),
     (1557, ''23000''),
     (1568, ''25001''),
     (1582, ''42000''),
     (1583, ''42000''),
     (1584, ''42000''),
     (1586, ''23000''),
     (1613, ''XA106''),
     (1614, ''XA102''),
     (1630, ''42000''),
     (1641, ''42000''),
     (1642, ''01000''),
     (1643, ''02000''),
     (1644, ''HY000''),
     (1645, ''0K000''),
     (1687, ''42000''),
     (1690, ''22003''),
     (1698, ''28000''),
     (1701, ''42000''),
     (1758, ''35000''),
     (1761, ''23000''),
     (1762, ''23000''),
     (1792, ''25006''),
     (1845, ''0A000''),
     (1846, ''0A000''),
     (1859, ''23000'')]"

definition MySQLState :: "(u16 \<times> string) list" where
  "MySQLState = sqlStates1 @ sqlStates2"

end
