(* ===== verification/Go_Text.thy ===== *)
theory Go_Text
  imports Go_Prelude
begin

text \<open>
  Texts as Go's library reads them: runes in UTF-8, names compared without case, and decimal digits. Formats, JSON and
  the settings build on it.
\<close>

section \<open>Runes\<close>

text \<open>The length of the first rune of a string, as \<^verbatim>\<open>utf8.DecodeRuneInString\<close> finds it; a byte that
  starts no valid encoding counts as one.\<close>

definition contByte :: "byte list \<Rightarrow> nat \<Rightarrow> byte \<Rightarrow> byte \<Rightarrow> bool" where
  "contByte s i lo hi \<longleftrightarrow> i < length s \<and> lo \<le> s ! i \<and> s ! i \<le> hi"

definition runeLen :: "byte list \<Rightarrow> nat" where
  "runeLen s =
     (let b = s ! 0; c = (\<lambda>i. contByte s i 0x80 0xbf) in
      if 0xc2 \<le> b \<and> b \<le> 0xdf then (if c 1 then 2 else 1)
      else if b = 0xe0 then (if contByte s 1 0xa0 0xbf \<and> c 2 then 3 else 1)
      else if b = 0xed then (if contByte s 1 0x80 0x9f \<and> c 2 then 3 else 1)
      else if 0xe1 \<le> b \<and> b \<le> 0xef then (if c 1 \<and> c 2 then 3 else 1)
      else if b = 0xf0 then (if contByte s 1 0x90 0xbf \<and> c 2 \<and> c 3 then 4 else 1)
      else if b = 0xf4 then (if contByte s 1 0x80 0x8f \<and> c 2 \<and> c 3 then 4 else 1)
      else if 0xf1 \<le> b \<and> b \<le> 0xf3 then (if c 1 \<and> c 2 \<and> c 3 then 4 else 1)
      else 1)"

lemma runeLen_pos: "0 < runeLen s"
  by (simp add: runeLen_def Let_def)

fun takeRunes :: "nat \<Rightarrow> byte list \<Rightarrow> byte list" where
  "takeRunes 0 s = []"
| "takeRunes (Suc n) [] = []"
| "takeRunes (Suc n) (b # s) =
     (let k = runeLen (b # s) in take k (b # s) @ takeRunes n (drop k (b # s)))"

text \<open>\<^verbatim>\<open>utf8.EncodeRune\<close>, and the character that stands for what is no rune.\<close>

definition encodeRune :: "nat \<Rightarrow> byte list" where
  "encodeRune n =
     (if n < 0x80 then [of_nat n]
      else if n < 0x800 then [of_nat (0xc0 + n div 64), of_nat (0x80 + n mod 64)]
      else if n < 0x10000 then [of_nat (0xe0 + n div 4096), of_nat (0x80 + n div 64 mod 64), of_nat (0x80 + n mod 64)]
      else [of_nat (0xf0 + n div 262144), of_nat (0x80 + n div 4096 mod 64), of_nat (0x80 + n div 64 mod 64),
            of_nat (0x80 + n mod 64)])"

definition RuneError :: "byte list" where
  "RuneError = [0xef, 0xbf, 0xbd]"

section \<open>Names and digits\<close>

text \<open>A name in lower case; two letters outside ASCII, the long s and the sign of the kelvin, fold to s and k. A name
  in ASCII equals another under \<^verbatim>\<open>strings.EqualFold\<close> when both fold to the same.\<close>

definition lowerByte :: "byte \<Rightarrow> byte" where
  "lowerByte b = (if 0x41 \<le> b \<and> b \<le> 0x5a then b + 0x20 else b)"

function foldName :: "byte list \<Rightarrow> byte list" where
  "foldName [] = []"
| "foldName (b # s) =
     (if take 2 (b # s) = [0xc5, 0xbf] then 0x73 # foldName (drop 1 s)
      else if take 3 (b # s) = [0xe2, 0x84, 0xaa] then 0x6b # foldName (drop 2 s)
      else lowerByte b # foldName s)"
  by pat_completeness auto
termination by (relation "measure length") auto

definition EqualFold :: "byte list \<Rightarrow> byte list \<Rightarrow> bool" where
  "EqualFold a b \<longleftrightarrow> foldName a = foldName b"

definition isDigit :: "byte \<Rightarrow> bool" where
  "isDigit b \<longleftrightarrow> 0x30 \<le> b \<and> b \<le> 0x39"

definition decVal :: "byte list \<Rightarrow> nat" where
  "decVal ds = foldl (\<lambda>a d. 10 * a + unat (d - 0x30)) 0 ds"

end
