(* ===== verification/Mysql_NewErr.thy ===== *)
theory Mysql_NewErr
  imports Mysql_Codec Mysql_Tables Go_Text
begin

text \<open>
  \<^verbatim>\<open>mysql/error.go\<close>: how an error of the proxy gets its text. \<open>Sprintf\<close> is \<^verbatim>\<open>fmt.Sprintf\<close> for the
  formats of \<open>MySQLErrName\<close>: the flag \<open>-\<close>, a precision (digits or \<open>*\<close>), no width, and the verbs that
  occur there; its arguments are strings and integers, each with the name of its Go type.
\<close>

section \<open>Formats\<close>

datatype prec = NoPrec | Prec nat | StarPrec

datatype piece = Lit char | Verb prec char | NoVerb

datatype scan_state = InText | AfterPercent | AfterDot | InDigits nat | AfterStar

definition digitVal :: "char \<Rightarrow> nat option" where
  "digitVal c = (let n = of_char c :: nat in if 48 \<le> n \<and> n \<le> 57 then Some (n - 48) else None)"

fun scan :: "scan_state \<Rightarrow> string \<Rightarrow> piece list" where
  "scan st [] = (if st = InText then [] else [NoVerb])"
| "scan InText (c # r) = (if c = CHR ''%'' then scan AfterPercent r else Lit c # scan InText r)"
| "scan AfterPercent (c # r) =
     (if c = CHR ''-'' then scan AfterPercent r
      else if c = CHR ''.'' then scan AfterDot r
      else Verb NoPrec c # scan InText r)"
| "scan AfterDot (c # r) =
     (if c = CHR ''*'' then scan AfterStar r
      else (case digitVal c of Some d \<Rightarrow> scan (InDigits d) r | None \<Rightarrow> Verb (Prec 0) c # scan InText r))"
| "scan (InDigits n) (c # r) =
     (case digitVal c of Some d \<Rightarrow> scan (InDigits (10 * n + d)) r | None \<Rightarrow> Verb (Prec n) c # scan InText r)"
| "scan AfterStar (c # r) = Verb StarPrec c # scan InText r"

section \<open>Arguments\<close>

datatype fmt_arg = StrArg "byte list" | IntArg string int

definition intText :: "nat option \<Rightarrow> int \<Rightarrow> byte list" where
  "intText p i =
     (let ds = (if p = Some 0 \<and> i = 0 then [] else decDigits (nat \<bar>i\<bar>));
          pad = (case p of None \<Rightarrow> 0 | Some k \<Rightarrow> k - length ds)
      in (if i < 0 then str ''-'' else []) @ replicate pad 0x30 @ ds)"

definition strText :: "nat option \<Rightarrow> byte list \<Rightarrow> byte list" where
  "strText p s = (case p of None \<Rightarrow> s | Some k \<Rightarrow> takeRunes k s)"

fun valueText :: "nat option \<Rightarrow> fmt_arg \<Rightarrow> byte list" where
  "valueText p (StrArg s) = strText p s"
| "valueText p (IntArg ty i) = intText p i"

fun typeName :: "fmt_arg \<Rightarrow> string" where
  "typeName (StrArg s) = ''string''"
| "typeName (IntArg ty i) = ty"

definition badVerb :: "nat option \<Rightarrow> char \<Rightarrow> fmt_arg \<Rightarrow> byte list" where
  "badVerb p v a = str ''%!'' @ str [v] @ str ''('' @ str (typeName a) @ str ''='' @ valueText p a @ str '')''"

definition printArg :: "nat option \<Rightarrow> char \<Rightarrow> fmt_arg \<Rightarrow> byte list" where
  "printArg p v a =
     (case a of
        StrArg s \<Rightarrow> if v = CHR ''s'' \<or> v = CHR ''v'' then strText p s else badVerb p v a
      | IntArg ty i \<Rightarrow> if v = CHR ''d'' \<or> v = CHR ''v'' then intText p i else badVerb p v a)"

section \<open>Sprintf\<close>

text \<open>A precision given as \<open>*\<close>: the precision if the argument is an integer that is not negative and
  not above a million, and what is written if it is not.\<close>

definition starPrec :: "fmt_arg list \<Rightarrow> nat option \<times> byte list \<times> fmt_arg list" where
  "starPrec args =
     (case args of
        IntArg ty i # r \<Rightarrow> if 0 \<le> i \<and> i \<le> 1000000 then (Some (nat i), [], r) else (None, str ''%!(BADPREC)'', r)
      | StrArg s # r \<Rightarrow> (None, str ''%!(BADPREC)'', r)
      | [] \<Rightarrow> (None, str ''%!(BADPREC)'', []))"

definition verbText :: "nat option \<Rightarrow> char \<Rightarrow> fmt_arg list \<Rightarrow> byte list \<times> fmt_arg list" where
  "verbText p v args =
     (if v = CHR ''%'' then (str ''%'', args)
      else (case args of
              [] \<Rightarrow> (str ''%!'' @ str [v] @ str ''(MISSING)'', [])
            | a # r \<Rightarrow> (printArg p v a, r)))"

definition extraText :: "fmt_arg list \<Rightarrow> byte list" where
  "extraText args =
     (if args = [] then []
      else str ''%!(EXTRA '' @
        concat (map (\<lambda>(i, a). (if 0 < i then str '', '' else []) @ str (typeName a) @ str ''='' @ valueText None a)
          (zip [0..<length args] args)) @ str '')'')"

fun render :: "piece list \<Rightarrow> fmt_arg list \<Rightarrow> byte list" where
  "render [] args = extraText args"
| "render (Lit c # ps) args = of_char c # render ps args"
| "render (NoVerb # ps) args = str ''%!(NOVERB)'' @ render ps args"
| "render (Verb p v # ps) args =
     (case p of
        NoPrec \<Rightarrow> (case verbText None v args of (t, r) \<Rightarrow> t @ render ps r)
      | Prec k \<Rightarrow> (case verbText (Some k) v args of (t, r) \<Rightarrow> t @ render ps r)
      | StarPrec \<Rightarrow>
          (case starPrec args of
             (q, bad, r) \<Rightarrow> (case verbText q v r of (t, r) \<Rightarrow> bad @ t @ render ps r)))"

definition Sprintf :: "string \<Rightarrow> fmt_arg list \<Rightarrow> byte list" where
  "Sprintf format args = render (scan InText format) args"

text \<open>\<^verbatim>\<open>fmt.Sprint\<close>: a blank between two operands when neither is a string.\<close>

fun Sprint :: "fmt_arg list \<Rightarrow> byte list" where
  "Sprint [] = []"
| "Sprint [a] = valueText None a"
| "Sprint (a # b # r) =
     valueText None a @
     (case (a, b) of (IntArg _ _, IntArg _ _) \<Rightarrow> str '' '' | _ \<Rightarrow> []) @ Sprint (b # r)"

section \<open>Errors\<close>

definition sqlState :: "u16 \<Rightarrow> byte list" where
  "sqlState errCode =
     str (case map_of MySQLState errCode of Some s \<Rightarrow> s | None \<Rightarrow> DefaultMySQLState)"

definition NewErr :: "u16 \<Rightarrow> fmt_arg list \<Rightarrow> SQLError" where
  "NewErr errCode args =
     \<lparr>Code = errCode,
      Message = (case map_of MySQLErrName errCode of Some format \<Rightarrow> Sprintf format args | None \<Rightarrow> Sprint args),
      State = sqlState errCode\<rparr>"

definition NewErrf :: "u16 \<Rightarrow> string \<Rightarrow> fmt_arg list \<Rightarrow> SQLError" where
  "NewErrf errCode format args =
     \<lparr>Code = errCode, Message = Sprintf format args, State = sqlState errCode\<rparr>"

definition SQLError_Error :: "SQLError \<Rightarrow> byte list" where
  "SQLError_Error e =
     str ''ERROR '' @ intText None (uint (Code e)) @ str '' ('' @ State e @ str ''): '' @ Message e"

definition MySQLError_Error :: "MySQLError \<Rightarrow> byte list" where
  "MySQLError_Error e = str ''Error '' @ intText None (uint (Number e)) @ str '': '' @ MyMessage e"

definition ErrUnknown :: u16 where "ErrUnknown = 1105"

definition ErrUnknownStmtHandler :: u16 where "ErrUnknownStmtHandler = 1243"

text \<open>A group of warnings: level, code and message of each.\<close>

record MySQLWarning =
  w_Level :: "byte list"
  w_Code :: "byte list"
  w_Message :: "byte list"

fun MySQLWarnings_Error :: "MySQLWarning list \<Rightarrow> byte list" where
  "MySQLWarnings_Error [] = []"
| "MySQLWarnings_Error [w] = w_Level w @ str '' '' @ w_Code w @ str '': '' @ w_Message w"
| "MySQLWarnings_Error (w # ws) =
     w_Level w @ str '' '' @ w_Code w @ str '': '' @ w_Message w @ [0x0d, 0x0a] @ MySQLWarnings_Error ws"

text \<open>The logger of the package for critical errors is any value; nil is refused.\<close>

definition mysql_SetLogger :: "'l option \<Rightarrow> 'l \<Rightarrow> unit res \<times> 'l" where
  "mysql_SetLogger logger errLog =
     (case logger of None \<Rightarrow> (Err NilLogger, errLog) | Some l \<Rightarrow> (Ok (), l))"

section \<open>The tables\<close>

lemmas MySQLErrName_defs = MySQLErrName_def errNames1_def errNames2_def errNames3_def errNames4_def
  errNames5_def errNames6_def

lemmas MySQLState_defs = MySQLState_def sqlStates1_def sqlStates2_def

text \<open>The codes of \<open>MySQLErrName\<close> ascend, so a code that is in the table is found there.\<close>

fun increasing :: "u16 list \<Rightarrow> bool" where
  "increasing (x # y # r) \<longleftrightarrow> x < y \<and> increasing (y # r)"
| "increasing _ \<longleftrightarrow> True"

lemma increasing_distinct: "increasing xs \<Longrightarrow> distinct xs \<and> (\<forall>y \<in> set (tl xs). hd xs < y)"
proof (induction xs rule: increasing.induct)
  case (1 x y r)
  then show ?case by fastforce
qed simp_all

lemma MySQLErrName_increasing: "increasing (map fst MySQLErrName)"
  by (simp add: MySQLErrName_defs)

lemma MySQLErrName_lookup: "(c, f) \<in> set MySQLErrName \<Longrightarrow> map_of MySQLErrName c = Some f"
  using increasing_distinct [OF MySQLErrName_increasing] by (simp add: map_of_is_SomeI)

lemma ErrUnknown_name: "map_of MySQLErrName ErrUnknown = Some ''Unknown error''"
  by (rule MySQLErrName_lookup)
    (simp only: ErrUnknown_def MySQLErrName_def errNames1_def set_append Un_iff list.set insert_iff refl simp_thms)

lemma ErrUnknownStmtHandler_name:
  "map_of MySQLErrName ErrUnknownStmtHandler = Some ''Unknown prepared statement handler (%.*s) given to %s''"
  by (rule MySQLErrName_lookup)
    (simp only: ErrUnknownStmtHandler_def MySQLErrName_def errNames2_def set_append Un_iff list.set insert_iff refl simp_thms)

lemma MySQLState_lengths: "\<forall>(c, s) \<in> set MySQLState. length s = 5"
  by (simp add: MySQLState_defs)

lemma sqlState_length: "length (sqlState c) = 5"
  using MySQLState_lengths map_of_SomeD [of MySQLState c]
  by (auto simp: sqlState_def DefaultMySQLState_def split: option.split)

section \<open>Properties\<close>

text \<open>Both constructors keep the code and give the error a SQLSTATE of five bytes, the same one.\<close>

lemma newErr_state:
  "Code (NewErr c args) = c \<and> Code (NewErrf c f args') = c \<and> length (State (NewErr c args)) = 5 \<and>
    State (NewErrf c f args') = State (NewErr c args)"
  by (simp add: NewErr_def NewErrf_def sqlState_length)

text \<open>The message of an unknown error, which is what the proxy makes of every error of its own: the format
  takes no argument, so the text of the error shows up as an extra one.\<close>

lemma newErr_unknown:
  "Message (NewErr ErrUnknown [StrArg s]) = str ''Unknown error%!(EXTRA string='' @ s @ str '')''"
  by (simp add: NewErr_def ErrUnknown_name Sprintf_def str_def extraText_def strText_def)

text \<open>The format for an unknown statement takes a precision and two strings; the statement's id, the
  only argument, is used up as the precision.\<close>

lemma newErr_unknown_stmt:
  assumes "0 \<le> n" and "n \<le> 1000000"
  shows "Message (NewErr ErrUnknownStmtHandler [IntArg ''uint32'' n]) =
    str ''Unknown prepared statement handler (%!s(MISSING)) given to %!s(MISSING)''"
  using assms
  by (simp add: NewErr_def ErrUnknownStmtHandler_name Sprintf_def str_def starPrec_def verbText_def extraText_def)

lemma newErr_unknown_stmt_witness:
  "Message (NewErr ErrUnknownStmtHandler [IntArg ''uint32'' 7]) =
    str ''Unknown prepared statement handler (%!s(MISSING)) given to %!s(MISSING)''"
  by (rule newErr_unknown_stmt) simp_all

end
