(* ===== verification/Mysql_Time.thy ===== *)
theory Mysql_Time
  imports Mysql_Codec
begin

text \<open>
  The time utilities of \<^verbatim>\<open>server/utils.go\<close>: the text of a binary DATE, DATETIME or TIME value
  (\<open>formatBinaryDateTime\<close>) and the reading of such a value (\<open>parseBinaryDateTime\<close>).
\<close>

section \<open>Digits\<close>

definition digits01 :: "byte list" where
  "digits01 = concat (replicate 10 (str ''0123456789''))"

definition digits10 :: "byte list" where
  "digits10 = concat (map (replicate 10) (str ''0123456789''))"

text \<open>\<^verbatim>\<open>digits01[p]\<close>, \<^verbatim>\<open>digits10[p]\<close>: an index of 100 or more panics.\<close>

definition digit :: "byte list \<Rightarrow> byte \<Rightarrow> byte res" where
  "digit ds p = (if unat p < length ds then Ok (ds ! unat p) else Panic)"

fun allOk :: "'a res list \<Rightarrow> 'a list res" where
  "allOk [] = Ok []"
| "allOk (r # rs) = bindR r (\<lambda>a. bindR (allOk rs) (\<lambda>as. Ok (a # as)))"

definition zeroText :: "byte list" where
  "zeroText = str ''0000-00-00 00:00:00.000000''"

text \<open>The zero value. Go does not say how much room \<^verbatim>\<open>[]byte("...")\<close> leaves behind the 26 bytes:
  \<open>spare\<close> is what is there.\<close>

definition zeroDateTime :: "byte list \<Rightarrow> gslice" where
  "zeroDateTime spare = \<lparr>vis = zeroText, ext = spare, org = None\<rparr>"

section \<open>The text of a binary value\<close>

text \<open>The digits of the fraction, from the second switch over \<open>decimals\<close>.\<close>

definition fraction :: "byte \<Rightarrow> byte \<Rightarrow> byte \<Rightarrow> byte \<Rightarrow> byte list res" where
  "fraction decimals p1 p2 p3 =
     (if decimals = 1 then allOk [Ok 0x2e, digit digits10 p1]
      else if decimals = 2 then allOk [Ok 0x2e, digit digits10 p1, digit digits01 p1]
      else if decimals = 3 then allOk [Ok 0x2e, digit digits10 p1, digit digits01 p1, digit digits10 p2]
      else if decimals = 4
      then allOk [Ok 0x2e, digit digits10 p1, digit digits01 p1, digit digits10 p2, digit digits01 p2]
      else if decimals = 5
      then allOk [Ok 0x2e, digit digits10 p1, digit digits01 p1, digit digits10 p2, digit digits01 p2,
        digit digits10 p3]
      else allOk [Ok 0x2e, digit digits10 p1, digit digits01 p1, digit digits10 p2, digit digits01 p2,
        digit digits10 p3, digit digits01 p3])"

text \<open>From the hour on: \<open>p1\<close> is the two-digit hour and \<open>src\<close> what follows the hour.\<close>

definition formatClock :: "byte list \<Rightarrow> byte list \<Rightarrow> byte \<Rightarrow> byte list \<Rightarrow> byte \<Rightarrow> byte \<Rightarrow> byte list res" where
  "formatClock spare dst p1 src zOffs length' =
     (let p2 = src ! 0; p3 = src ! 1 in
      bindR (allOk [digit digits10 p1, digit digits01 p1, Ok 0x3a, digit digits10 p2, digit digits01 p2, Ok 0x3a,
        digit digits10 p3, digit digits01 p3]) (\<lambda>ds.
      (let dst = dst @ ds in
       if length' \<le> of_nat (length dst) then Ok dst
       else
         (let src = drop 2 src in
          if length src = 0
          then bindR (gsub (zeroDateTime spare) 19 (uint (zOffs + length'))) (\<lambda>z. Ok (dst @ vis z))
          else
            bindR (leUint32 (take 4 src)) (\<lambda>microsecs.
            (let p1 = ucast (microsecs div 10000) :: byte;
                 microsecs = microsecs - 10000 * ucast p1;
                 p2 = ucast (microsecs div 100) :: byte;
                 microsecs = microsecs - 100 * ucast p2;
                 p3 = ucast microsecs :: byte
             in bindR (fraction (zOffs + length' - 20) p1 p2 p3) (\<lambda>f. Ok (dst @ f))))))))"

definition formatTime :: "byte list \<Rightarrow> byte list \<Rightarrow> byte \<Rightarrow> byte list res" where
  "formatTime spare src length' =
     (if length' \<notin> {8, 10, 11, 12, 13, 14, 15} then Err (IllegalTimeLength length')
      else if length src \<notin> {8, 12} then Err (InvalidTimePacket (length src))
      else
        (let dst = (if src ! 0 = 1 then [0x2d] else []) in
         if src ! 1 \<noteq> 0 then
           (let hour = ucast (src ! 1) * 24 + ucast (src ! 5) :: u16;
                pt = ucast (hour div 100) :: byte;
                p1 = ucast (hour - 100 * ucast pt) :: byte
            in bindR (digit digits01 pt) (\<lambda>h. formatClock spare (dst @ [h]) p1 (drop 6 src) 11 length'))
         else formatClock spare dst (src ! 5) (drop 6 src) 11 length'))"

definition dateKind :: "byte \<Rightarrow> byte list" where
  "dateKind length' = str ''DATE'' @ (if 10 < length' then str ''TIME'' else [])"

definition formatDate :: "byte list \<Rightarrow> byte list \<Rightarrow> byte \<Rightarrow> byte list res" where
  "formatDate spare src length' =
     (if length' \<notin> {10, 19, 21, 22, 23, 24, 25, 26} then Err (IllegalDateLength (dateKind length') length')
      else if length src \<notin> {4, 7, 11} then Err (IllegalDatePacket (dateKind length') (length src))
      else
        bindR (leUint16 (take 2 src)) (\<lambda>year.
        (let pt = ucast (year div 100) :: byte;
             p1 = ucast (year - 100 * ucast pt) :: byte;
             p2 = src ! 2; p3 = src ! 3
         in
         bindR (allOk [digit digits10 pt, digit digits01 pt, digit digits10 p1, digit digits01 p1, Ok 0x2d,
           digit digits10 p2, digit digits01 p2, Ok 0x2d, digit digits10 p3, digit digits01 p3]) (\<lambda>dst.
           if length' = 10 then Ok dst
           else if length src = 4
           then bindR (gsub (zeroDateTime spare) 10 (uint length')) (\<lambda>z. Ok (dst @ vis z))
           else formatClock spare (dst @ [0x20]) (src ! 4) (drop 5 src) 0 length'))))"

definition formatBinaryDateTime :: "byte list \<Rightarrow> byte list \<Rightarrow> byte \<Rightarrow> bool \<Rightarrow> byte list res" where
  "formatBinaryDateTime spare src length' justTime =
     (if length src = 0 then
        (if justTime then bindR (gsub (zeroDateTime spare) 11 (uint (11 + length'))) (\<lambda>z. Ok (vis z))
         else bindR (gsub (zeroDateTime spare) 0 (uint length')) (\<lambda>z. Ok (vis z)))
      else if justTime then formatTime spare src length'
      else formatDate spare src length')"

section \<open>What the text should be\<close>

definition dig :: "nat \<Rightarrow> byte" where "dig n = of_nat (n mod 10) + 0x30"

definition two :: "nat \<Rightarrow> byte list" where "two n = [dig (n div 10), dig n]"

definition clockText :: "nat \<Rightarrow> nat \<Rightarrow> nat \<Rightarrow> nat \<Rightarrow> byte list" where
  "clockText h mi s us = two h @ [0x3a] @ two mi @ [0x3a] @ two s @ [0x2e] @
     two (us div 10000) @ two (us div 100 mod 100) @ two (us mod 100)"

definition dateText :: "nat \<Rightarrow> nat \<Rightarrow> nat \<Rightarrow> byte list" where
  "dateText y mo d = two (y div 100) @ two (y mod 100) @ [0x2d] @ two mo @ [0x2d] @ two d"

lemma digit_two:
  "p < 100 \<Longrightarrow> digit digits10 (of_nat p) = Ok (dig (p div 10))"
  "p < 100 \<Longrightarrow> digit digits01 (of_nat p) = Ok (dig p)"
proof -
  have t: "digits10 = map (\<lambda>p. dig (p div 10)) [0..<100]" and o: "digits01 = map dig [0..<100]" by code_simp+
  have "length digits10 = 100" "length digits01 = 100" unfolding t o by (simp_all only: length_map length_upt)
  moreover have "digits10 ! p = dig (p div 10)" "digits01 ! p = dig p" if "p < 100"
    unfolding t o using that by (simp_all only: nth_map length_upt nth_upt diff_zero add_0)
  ultimately show "p < 100 \<Longrightarrow> digit digits10 (of_nat p) = Ok (dig (p div 10))"
    "p < 100 \<Longrightarrow> digit digits01 (of_nat p) = Ok (dig p)"
    by (simp_all add: digit_def unat_of_nat take_bit_eq_mod)
qed

lemma us_digits:
  assumes "us < 1000000"
  shows "(ucast ((of_nat us :: u32) div 10000) :: byte) = of_nat (us div 10000)"
    and "(of_nat us :: u32) - 10000 * ucast (of_nat (us div 10000) :: byte) = of_nat (us mod 10000)"
proof -
  have u: "unat (of_nat us :: u32) = us" using assms by (simp add: unat_of_nat take_bit_eq_mod)
  then have d: "(of_nat us :: u32) div 10000 = of_nat (us div 10000)"
    by (simp add: word_unat_eq_iff unat_div unat_of_nat take_bit_eq_mod)
  show "(ucast ((of_nat us :: u32) div 10000) :: byte) = of_nat (us div 10000)"
    using assms by (simp add: d word_unat_eq_iff unsigned_ucast_eq unat_of_nat take_bit_eq_mod)
  have "ucast (of_nat (us div 10000) :: byte) = (of_nat (us div 10000) :: u32)"
    using assms by (simp add: word_unat_eq_iff unsigned_ucast_eq unat_of_nat take_bit_eq_mod)
  then have "(of_nat us :: u32) - 10000 * ucast (of_nat (us div 10000) :: byte) = of_nat us - of_nat (10000 * (us div 10000))"
    by simp
  also have "\<dots> = of_nat (us - 10000 * (us div 10000))" by (simp add: of_nat_diff)
  finally show "(of_nat us :: u32) - 10000 * ucast (of_nat (us div 10000) :: byte) = of_nat (us mod 10000)"
    by (simp add: minus_mult_div_eq_mod)
qed

lemma us_digits2:
  assumes "us < 10000"
  shows "(ucast ((of_nat us :: u32) div 100) :: byte) = of_nat (us div 100)"
    and "(ucast ((of_nat us :: u32) - 100 * ucast (of_nat (us div 100) :: byte)) :: byte) = of_nat (us mod 100)"
proof -
  have u: "unat (of_nat us :: u32) = us" using assms by (simp add: unat_of_nat take_bit_eq_mod)
  then have d: "(of_nat us :: u32) div 100 = of_nat (us div 100)"
    by (simp add: word_unat_eq_iff unat_div unat_of_nat take_bit_eq_mod)
  show "(ucast ((of_nat us :: u32) div 100) :: byte) = of_nat (us div 100)"
    using assms by (simp add: d word_unat_eq_iff unsigned_ucast_eq unat_of_nat take_bit_eq_mod)
  have "ucast (of_nat (us div 100) :: byte) = (of_nat (us div 100) :: u32)"
    using assms by (simp add: word_unat_eq_iff unsigned_ucast_eq unat_of_nat take_bit_eq_mod)
  then have "(of_nat us :: u32) - 100 * ucast (of_nat (us div 100) :: byte) = of_nat us - of_nat (100 * (us div 100))"
    by simp
  also have "\<dots> = of_nat (us - 100 * (us div 100))" by (simp add: of_nat_diff)
  also have "us - 100 * (us div 100) = us mod 100" by (simp add: minus_mult_div_eq_mod)
  finally have "(of_nat us :: u32) - 100 * ucast (of_nat (us div 100) :: byte) = of_nat (us mod 100)" .
  then show "(ucast ((of_nat us :: u32) - 100 * ucast (of_nat (us div 100) :: byte)) :: byte) = of_nat (us mod 100)"
    by (simp add: word_unat_eq_iff unsigned_ucast_eq unat_of_nat take_bit_eq_mod)
qed

lemma fraction_text:
  assumes "p1 < 100" and "p2 < 100" and "p3 < 100" and "k \<in> {1, 2, 3, 4, 5, 6}"
  shows "fraction (of_nat k) (of_nat p1) (of_nat p2) (of_nat p3) =
    Ok (take (1 + k) ([0x2e] @ two p1 @ two p2 @ two p3))"
  using assms by (auto simp: fraction_def digit_two two_def)

lemma gsub_zero: "i \<le> j \<Longrightarrow> j \<le> 26 \<Longrightarrow> gsub (zeroDateTime spare) (int i) (int j) =
    Ok \<lparr>vis = take (j - i) (drop i zeroText), ext = drop j (zeroText @ spare),
      org = None\<rparr>"
  by (subst gsub_in) (simp_all add: zeroDateTime_def zeroText_def)

text \<open>The clock, for the length of the text that stands before it: nothing, a fraction of one to six digits.\<close>

lemma take_behind: "length a = 8 \<Longrightarrow> take (9 + k) (a @ b) = a @ take (1 + k) b"
  by simp

lemma formatClock_text:
  assumes "h < 100" and "mi < 100" and "s < 100" and "us < 1000000"
    and f: "f = putUint32 (of_nat us) \<or> f = [] \<and> us = 0"
    and k: "k \<in> {1, 2, 3, 4, 5, 6}" and z: "zOffs + length' = of_nat (20 + k)"
    and l: "\<not> length' \<le> of_nat (length dst + 8)"
  shows "formatClock spare dst (of_nat h) ([of_nat mi, of_nat s] @ f) zOffs length' =
    Ok (dst @ take (9 + k) (clockText h mi s us))"
proof -
  let ?hms = "two h @ [0x3a] @ two mi @ [0x3a] @ two s"
  have hms: "allOk [digit digits10 (of_nat h), digit digits01 (of_nat h), Ok 0x3a, digit digits10 (of_nat mi),
      digit digits01 (of_nat mi), Ok 0x3a, digit digits10 (of_nat s), digit digits01 (of_nat s)] = Ok ?hms"
    using assms(1-3) by (simp add: digit_two two_def)
  have lh: "length (dst @ ?hms) = length dst + 8" by (simp add: two_def)
  have fr: "[0x2e] @ two (us div 10000) @ two (us div 100 mod 100) @ two (us mod 100) =
      drop 8 (clockText h mi s us)" by (simp add: clockText_def two_def)
  have "clockText h mi s us = ?hms @ drop 8 (clockText h mi s us)" by (simp add: clockText_def two_def)
  then have t: "take (9 + k) (clockText h mi s us) = ?hms @ take (1 + k) (drop 8 (clockText h mi s us))"
    using take_behind [of ?hms k] by (metis lh length_append add_left_cancel)
  show ?thesis
  proof (cases "f = []")
    case True
    with f have us: "us = 0" by (auto simp: putUint32_def)
    have "uint (zOffs + length') = int (20 + k)" using k by (auto simp: z)
    then have "gsub (zeroDateTime spare) 19 (uint (zOffs + length')) =
        Ok \<lparr>vis = take (1 + k) (drop 19 zeroText),
          ext = drop (20 + k) (zeroText @ spare), org = None\<rparr>"
      using gsub_zero [of 19 "20 + k" spare] k by auto
    moreover have "drop 8 (clockText h mi s us) = drop 19 zeroText"
      by (simp add: us clockText_def two_def dig_def zeroText_def str_def)
    ultimately show ?thesis
      unfolding formatClock_def Let_def True using hms lh l t by simp
  next
    case False
    with f have ff: "f = putUint32 (of_nat us)" by simp
    have "us mod 10000 < 10000" by simp
    note d = us_digits [OF assms(4)] us_digits2 [OF this]
    have dd: "us mod 10000 div 100 = us div 100 mod 100" "us mod 10000 mod 100 = us mod 100"
      using div_mult2_eq [of us 100 100] mod_mult2_eq [of us 100 100] by simp_all
    have z': "zOffs + length' - 20 = of_nat k" by (simp add: z)
    have "fraction (of_nat k) (of_nat (us div 10000)) (of_nat (us div 100 mod 100)) (of_nat (us mod 100)) =
        Ok (take (1 + k) ([0x2e] @ two (us div 10000) @ two (us div 100 mod 100) @ two (us mod 100)))"
      by (rule fraction_text) (use assms(4) k in auto)
    then have "fraction (zOffs + length' - 20) (of_nat (us div 10000)) (of_nat (us div 100 mod 100)) (of_nat (us mod 100)) =
        Ok (take (1 + k) (drop 8 (clockText h mi s us)))"
      unfolding z' fr .
    then show ?thesis
      unfolding formatClock_def Let_def ff
      using hms lh l t leUint32_put [of "of_nat us" "[]"] d dd by (simp add: putUint32_def)
  qed
qed

lemma formatClock_whole:
  assumes "h < 100" and "mi < 100" and "s < 100" and "length' \<le> of_nat (length dst + 8)"
  shows "formatClock spare dst (of_nat h) ([of_nat mi, of_nat s] @ f) zOffs length' = Ok (dst @ take 8 (clockText h mi s us))"
proof -
  let ?hms = "two h @ [0x3a] @ two mi @ [0x3a] @ two s"
  have "allOk [digit digits10 (of_nat h), digit digits01 (of_nat h), Ok 0x3a, digit digits10 (of_nat mi),
      digit digits01 (of_nat mi), Ok 0x3a, digit digits10 (of_nat s), digit digits01 (of_nat s)] = Ok ?hms"
    using assms(1-3) by (simp add: digit_two two_def)
  moreover have "take 8 (clockText h mi s us) = ?hms" by (simp add: clockText_def two_def)
  moreover have "length (dst @ ?hms) = length dst + 8" by (simp add: two_def)
  ultimately show ?thesis using assms(4) by (simp add: formatClock_def Let_def)
qed

section \<open>Dates\<close>

lemma year_digits:
  assumes "y < 10000"
  shows "(ucast ((of_nat y :: u16) div 100) :: byte) = of_nat (y div 100)"
    and "(ucast ((of_nat y :: u16) - 100 * ucast (of_nat (y div 100) :: byte)) :: byte) = of_nat (y mod 100)"
proof -
  have "unat (of_nat y :: u16) = y" using assms by (simp add: unat_of_nat take_bit_eq_mod)
  then have d: "(of_nat y :: u16) div 100 = of_nat (y div 100)"
    by (simp add: word_unat_eq_iff unat_div unat_of_nat take_bit_eq_mod)
  show "(ucast ((of_nat y :: u16) div 100) :: byte) = of_nat (y div 100)"
    using assms by (simp add: d word_unat_eq_iff unsigned_ucast_eq unat_of_nat take_bit_eq_mod)
  have "ucast (of_nat (y div 100) :: byte) = (of_nat (y div 100) :: u16)"
    using assms by (simp add: word_unat_eq_iff unsigned_ucast_eq unat_of_nat take_bit_eq_mod)
  then have "(of_nat y :: u16) - 100 * ucast (of_nat (y div 100) :: byte) = of_nat y - of_nat (100 * (y div 100))"
    by simp
  also have "\<dots> = of_nat (y - 100 * (y div 100))" by (simp add: of_nat_diff)
  also have "y - 100 * (y div 100) = y mod 100" by (simp add: minus_mult_div_eq_mod)
  finally have "(of_nat y :: u16) - 100 * ucast (of_nat (y div 100) :: byte) = of_nat (y mod 100)" .
  then show "(ucast ((of_nat y :: u16) - 100 * ucast (of_nat (y div 100) :: byte)) :: byte) = of_nat (y mod 100)"
    by (simp add: word_unat_eq_iff unsigned_ucast_eq unat_of_nat take_bit_eq_mod)
qed

text \<open>How MySQL sends a DATE or DATETIME: parts at the end that are zero are left out.\<close>

definition binDateTime :: "nat \<Rightarrow> nat \<Rightarrow> nat \<Rightarrow> nat \<Rightarrow> nat \<Rightarrow> nat \<Rightarrow> nat \<Rightarrow> byte list" where
  "binDateTime y mo d h mi s us =
     (if us \<noteq> 0 then putUint16 (of_nat y) @ [of_nat mo, of_nat d, of_nat h, of_nat mi, of_nat s] @ putUint32 (of_nat us)
      else if h \<noteq> 0 \<or> mi \<noteq> 0 \<or> s \<noteq> 0 then putUint16 (of_nat y) @ [of_nat mo, of_nat d, of_nat h, of_nat mi, of_nat s]
      else if y \<noteq> 0 \<or> mo \<noteq> 0 \<or> d \<noteq> 0 then putUint16 (of_nat y) @ [of_nat mo, of_nat d]
      else [])"

definition dateTimeText :: "nat \<Rightarrow> nat \<Rightarrow> nat \<Rightarrow> nat \<Rightarrow> nat \<Rightarrow> nat \<Rightarrow> nat \<Rightarrow> byte list" where
  "dateTimeText y mo d h mi s us = dateText y mo d @ [0x20] @ clockText h mi s us"

lemma formatDate_head:
  assumes "y < 10000" and "mo < 100" and "d < 100" and l: "length' \<in> {10, 19, 21, 22, 23, 24, 25, 26}"
    and r: "length rest \<in> {0, 3, 7}"
  shows "formatDate spare (putUint16 (of_nat y) @ [of_nat mo, of_nat d] @ rest) length' =
    (if length' = 10 then Ok (dateText y mo d)
     else if rest = [] then bindR (gsub (zeroDateTime spare) 10 (uint length')) (\<lambda>z. Ok (dateText y mo d @ vis z))
     else formatClock spare (dateText y mo d @ [0x20]) (hd rest) (tl rest) 0 length')"
proof -
  have p: "length (putUint16 (of_nat y)) = 2" by (simp add: putUint16_def)
  have "allOk [digit digits10 (of_nat (y div 100)), digit digits01 (of_nat (y div 100)), digit digits10 (of_nat (y mod 100)),
      digit digits01 (of_nat (y mod 100)), Ok 0x2d, digit digits10 (of_nat mo), digit digits01 (of_nat mo), Ok 0x2d,
      digit digits10 (of_nat d), digit digits01 (of_nat d)] = Ok (dateText y mo d)"
    using assms(1-3) by (simp add: digit_two two_def dateText_def)
  moreover have "take 2 (putUint16 (of_nat y) @ [of_nat mo, of_nat d] @ rest) = putUint16 (of_nat y)" by (simp add: putUint16_def)
  ultimately show ?thesis
    using l r p year_digits [OF assms(1)] leUint16_put [of "of_nat y" "[]"]
    by (cases rest) (auto simp: formatDate_def Let_def putUint16_def)
qed

lemma length_dateText: "length (dateText y mo d) = 10"
  by (simp add: dateText_def two_def)

lemma zero_text: "dateTimeText 0 0 0 0 0 0 0 = zeroText"
  by (simp add: dateTimeText_def dateText_def clockText_def two_def dig_def zeroText_def str_def)

lemma zero_clock: "[0x20] @ clockText 0 0 0 0 = drop 10 zeroText"
  by (simp add: clockText_def two_def dig_def zeroText_def str_def)

lemma lengths_small: "l \<in> {10, 19, 21, 22, 23, 24, 25, 26 :: byte} \<Longrightarrow> 10 \<le> unat l \<and> unat l \<le> 26"
  by auto

lemma formatDate_clock:
  assumes "y < 10000" "mo < 100" "d < 100" "h < 100" "mi < 100" "s < 100" "us < 1000000"
    and l: "length' \<in> {10, 19, 21, 22, 23, 24, 25, 26}" and f: "f = putUint32 (of_nat us) \<or> f = [] \<and> us = 0"
  shows "formatDate spare (putUint16 (of_nat y) @ [of_nat mo, of_nat d] @ [of_nat h, of_nat mi, of_nat s] @ f) length' =
    Ok (take (unat length') (dateTimeText y mo d h mi s us))"
proof -
  let ?dst = "dateText y mo d @ [0x20]"
  have ld: "length ?dst = 11" by (simp add: length_dateText)
  have tk: "take (n + 11) (dateTimeText y mo d h mi s us) = ?dst @ take n (clockText h mi s us)" for n
    using ld by (simp add: dateTimeText_def)
  have "length ([of_nat h, of_nat mi, of_nat s] @ f) \<in> {0, 3, 7}" using f by (auto simp: putUint32_def)
  note head = formatDate_head [OF assms(1-3) l this, of spare]
  define k where "k = unat length' - 20"
  have "length' = 10 \<or> length' = 19 \<or> k \<in> {1, 2, 3, 4, 5, 6} \<and> length' = of_nat (20 + k)"
    using l by (auto simp: k_def)
  then consider "length' = 10" | "length' = 19" | "k \<in> {1, 2, 3, 4, 5, 6}" "length' = of_nat (20 + k)" by blast
  then show ?thesis
  proof cases
    case 1
    have "take 10 (dateTimeText y mo d h mi s us) = dateText y mo d" by (simp add: dateTimeText_def length_dateText)
    then show ?thesis unfolding head using 1 by simp
  next
    case 2
    then have "length' \<le> of_nat (length ?dst + 8)" using ld by simp
    from formatClock_whole [OF assms(4-6) this] tk [of 8] show ?thesis unfolding head using 2 by simp
  next
    case 3
    have lk: "unat length' = 20 + k" using 3 by auto
    have z: "0 + length' = of_nat (20 + k)" using 3 by simp
    have "\<not> length' \<le> of_nat (length ?dst + 8)" using 3 ld by auto
    from formatClock_text [OF assms(4-7) f 3(1) z this] have
      "formatClock spare ?dst (of_nat h) ([of_nat mi, of_nat s] @ f) 0 length' = Ok (?dst @ take (9 + k) (clockText h mi s us))" .
    moreover have "length' \<noteq> 10" using lk by auto
    moreover have "take (unat length') (dateTimeText y mo d h mi s us) = ?dst @ take (9 + k) (clockText h mi s us)"
      using tk [of "9 + k"] by (simp only: lk) (simp add: add.commute)
    ultimately show ?thesis unfolding head by simp
  qed
qed

lemma formatDate_day:
  assumes "y < 10000" "mo < 100" "d < 100" and l: "length' \<in> {10, 19, 21, 22, 23, 24, 25, 26}"
  shows "formatDate spare (putUint16 (of_nat y) @ [of_nat mo, of_nat d] @ []) length' =
    Ok (take (unat length') (dateTimeText y mo d 0 0 0 0))"
proof -
  have head: "formatDate spare (putUint16 (of_nat y) @ [of_nat mo, of_nat d] @ []) length' =
    (if length' = 10 then Ok (dateText y mo d)
     else bindR (gsub (zeroDateTime spare) 10 (uint length')) (\<lambda>z. Ok (dateText y mo d @ vis z)))"
    using formatDate_head [OF assms(1-3) l, of "[]" spare] by simp
  note u = lengths_small [OF l]
  have "gsub (zeroDateTime spare) (int 10) (int (unat length')) =
      Ok \<lparr>vis = take (unat length' - 10) (drop 10 zeroText), ext = drop (unat length') (zeroText @ spare), org = None\<rparr>"
    by (rule gsub_zero) (use u in auto)
  moreover have "int (unat length') = uint length'" by simp
  ultimately have g: "gsub (zeroDateTime spare) 10 (uint length') =
      Ok \<lparr>vis = take (unat length' - 10) (drop 10 zeroText), ext = drop (unat length') (zeroText @ spare), org = None\<rparr>"
    by simp
  have "dateTimeText y mo d 0 0 0 0 = dateText y mo d @ drop 10 zeroText"
    unfolding dateTimeText_def zero_clock ..
  then have tk: "take (unat length') (dateTimeText y mo d 0 0 0 0) =
      dateText y mo d @ take (unat length' - 10) (drop 10 zeroText)"
    using u by (simp add: length_dateText)
  show ?thesis
  proof (cases "length' = 10")
    case True
    then have "unat length' - 10 = 0" by simp
    with True tk show ?thesis unfolding head by simp
  next
    case False
    with g tk show ?thesis unfolding head by simp
  qed
qed

text \<open>The text of a DATE or DATETIME, of any of the lengths a column can have, is the beginning, of that length,
  of \<^verbatim>\<open>YYYY-MM-DD HH:MM:SS.ffffff\<close>, whichever parts the packet leaves out.\<close>

lemma formatBinaryDateTime_text:
  assumes "y < 10000" "mo < 100" "d < 100" "h < 100" "mi < 100" "s < 100" "us < 1000000"
    and "length' \<in> {10, 19, 21, 22, 23, 24, 25, 26}"
  shows "formatBinaryDateTime spare (binDateTime y mo d h mi s us) length' False =
    Ok (take (unat length') (dateTimeText y mo d h mi s us))"
proof -
  have p: "length (putUint16 (of_nat y)) = 2" by (simp add: putUint16_def)
  consider "us \<noteq> 0" | "us = 0" "h \<noteq> 0 \<or> mi \<noteq> 0 \<or> s \<noteq> 0" | "us = 0" "h = 0" "mi = 0" "s = 0" "y \<noteq> 0 \<or> mo \<noteq> 0 \<or> d \<noteq> 0"
    | "us = 0" "h = 0" "mi = 0" "s = 0" "y = 0" "mo = 0" "d = 0" by blast
  then show ?thesis
  proof cases
    case 1
    with formatDate_clock [OF assms, of "putUint32 (of_nat us)" spare] p show ?thesis
      by (simp add: formatBinaryDateTime_def binDateTime_def)
  next
    case 2
    with formatDate_clock [OF assms, of "[]" spare] p show ?thesis
      by (auto simp: formatBinaryDateTime_def binDateTime_def)
  next
    case 3
    with formatDate_day [OF assms(1-3,8), of spare] p show ?thesis
      by (auto simp: formatBinaryDateTime_def binDateTime_def)
  next
    case 4
    have "gsub (zeroDateTime spare) (int 0) (int (unat length')) =
        Ok \<lparr>vis = take (unat length' - 0) (drop 0 zeroText), ext = drop (unat length') (zeroText @ spare), org = None\<rparr>"
      by (rule gsub_zero) (use lengths_small [OF assms(8)] in auto)
    moreover have "int (unat length') = uint length'" by simp
    moreover have "binDateTime y mo d h mi s us = []" using 4 by (simp add: binDateTime_def)
    ultimately show ?thesis using 4 by (simp add: formatBinaryDateTime_def zero_text)
  qed
qed

section \<open>Times\<close>

text \<open>How MySQL sends a TIME: sign, days, hours, minutes and seconds, and the microseconds when there are
  any.\<close>

definition binTime :: "bool \<Rightarrow> nat \<Rightarrow> nat \<Rightarrow> nat \<Rightarrow> nat \<Rightarrow> nat \<Rightarrow> byte list" where
  "binTime neg days h mi s us =
     (let hms = [if neg then 1 else 0, of_nat days, 0, 0, 0, of_nat h, of_nat mi, of_nat s] in
      if us \<noteq> 0 then hms @ putUint32 (of_nat us)
      else if neg \<or> days \<noteq> 0 \<or> h \<noteq> 0 \<or> mi \<noteq> 0 \<or> s \<noteq> 0 then hms
      else [])"

text \<open>What stands before the two digits of the hour.\<close>

definition timePrefix :: "bool \<Rightarrow> nat \<Rightarrow> nat \<Rightarrow> byte list" where
  "timePrefix neg days h = (if neg then [0x2d] else []) @ (if days = 0 then [] else [dig ((24 * days + h) div 100)])"

lemma length_timePrefix: "length (timePrefix neg days h) \<le> 2"
  by (simp add: timePrefix_def)

lemma hour_word:
  assumes "days < 35" and "h < 24"
  shows "ucast (of_nat days :: byte) * 24 + ucast (of_nat h :: byte) = (of_nat (24 * days + h) :: u16)"
proof -
  have "ucast (of_nat days :: byte) = (of_nat days :: u16)" "ucast (of_nat h :: byte) = (of_nat h :: u16)"
    using assms by (simp_all add: word_unat_eq_iff unsigned_ucast_eq unat_of_nat take_bit_eq_mod)
  then show ?thesis by simp
qed

lemma formatTime_head:
  assumes "days < 35" and "h < 24" and "length' \<in> {8, 10, 11, 12, 13, 14, 15}" and f: "length f \<in> {0, 4}"
  shows "formatTime spare ([if neg then 1 else 0, of_nat days, 0, 0, 0, of_nat h, of_nat mi, of_nat s] @ f) length' =
    formatClock spare (timePrefix neg days h) (of_nat ((24 * days + h) mod 100)) ([of_nat mi, of_nat s] @ f) 11 length'"
proof -
  let ?H = "24 * days + h"
  have H: "?H < 1000" "?H < 10000" using assms(1,2) by simp_all
  have z: "(of_nat days :: byte) = 0 \<longleftrightarrow> days = 0"
    using assms(1) by (simp add: word_unat_eq_iff unat_of_nat take_bit_eq_mod)
  have d: "digit digits01 (of_nat (?H div 100)) = Ok (dig (?H div 100))" using H by (intro digit_two) simp
  have "h mod 100 = h" using assms(2) by simp
  then show ?thesis
    using assms(3) f z d year_digits [OF H(2)] hour_word [OF assms(1,2)]
    unfolding formatTime_def Let_def timePrefix_def
    by (cases "days = 0") auto
qed

text \<open>C38: the text of a TIME is the sign, the hours, and the beginning of minutes, seconds and fraction that the
  length of the column asks for, with two deviations. Days put a third digit before the hours, also when
  there are fewer than 100 of them; and with both a sign and a third digit a single fractional digit is
  lost, because the text has reached the length already.\<close>

theorem time_text:
  assumes "days < 35" "h < 24" "mi < 100" "s < 100" "us < 1000000" and l: "length' \<in> {8, 10, 11, 12, 13, 14, 15}"
  shows "formatBinaryDateTime spare (binTime neg days h mi s us) length' True =
    Ok (timePrefix neg days h @ take (if length' = 10 \<and> neg \<and> days \<noteq> 0 then 8 else unat length')
      (clockText ((24 * days + h) mod 100) mi s us))"
proof (cases "us = 0 \<and> \<not> neg \<and> days = 0 \<and> h = 0 \<and> mi = 0 \<and> s = 0")
  case True
  have "unat (11 + length') = 11 + unat length'" "unat length' \<le> 15" using l by auto
  then have "gsub (zeroDateTime spare) (int 11) (int (unat (11 + length'))) =
      Ok \<lparr>vis = take (unat (11 + length') - 11) (drop 11 zeroText), ext = drop (unat (11 + length')) (zeroText @ spare), org = None\<rparr>"
    by (intro gsub_zero) auto
  moreover have "int (unat (11 + length')) = uint (11 + length')" by simp
  moreover have "clockText 0 0 0 0 = drop 11 zeroText"
    by (simp add: clockText_def two_def dig_def zeroText_def str_def)
  moreover have "binTime neg days h mi s us = []" using True by (simp add: binTime_def)
  ultimately show ?thesis
    using True \<open>unat (11 + length') = 11 + unat length'\<close>
    by (simp add: formatBinaryDateTime_def timePrefix_def)
next
  case False
  let ?pre = "timePrefix neg days h" and ?c = "clockText ((24 * days + h) mod 100) mi s us"
  obtain f where f: "f = putUint32 (of_nat us) \<or> f = [] \<and> us = 0"
    and b: "binTime neg days h mi s us = [if neg then 1 else 0, of_nat days, 0, 0, 0, of_nat h, of_nat mi, of_nat s] @ f"
    using False by (cases "us = 0") (auto simp: binTime_def Let_def)
  have "length f \<in> {0, 4}" using f by (auto simp: putUint32_def)
  note head = formatTime_head [OF assms(1,2) l this, of spare neg mi s]
  have e: "formatBinaryDateTime spare (binTime neg days h mi s us) length' True =
      formatClock spare ?pre (of_nat ((24 * days + h) mod 100)) ([of_nat mi, of_nat s] @ f) 11 length'"
    unfolding b head [symmetric] by (simp add: formatBinaryDateTime_def)
  have hh: "(24 * days + h) mod 100 < 100" by simp
  have pre: "length ?pre = (if neg then 1 else 0) + (if days = 0 then 0 else 1)" by (simp add: timePrefix_def)
  show ?thesis
  proof (cases "length' = 8 \<or> length' = 10 \<and> neg \<and> days \<noteq> 0")
    case True
    then have "length' \<le> of_nat (length ?pre + 8)" by (auto simp: pre)
    from formatClock_whole [OF hh assms(3,4) this] True show ?thesis unfolding e by auto
  next
    case False
    define k where "k = unat length' - 9"
    have k: "k \<in> {1, 2, 3, 4, 5, 6}" "11 + length' = of_nat (20 + k)" "unat length' = 9 + k"
      using l False by (auto simp: k_def)
    have "\<not> length' \<le> of_nat (length ?pre + 8)" using l False by (auto simp: pre)
    from formatClock_text [OF hh assms(3-5) f k(1,2) this] False k(3) show ?thesis unfolding e by auto
  qed
qed

theorem time_text_witness:
  "formatBinaryDateTime [] (binTime True 5 3 4 5 600000) 10 True =
    Ok (timePrefix True 5 3 @ take (if (10 :: byte) = 10 \<and> True \<and> (5 :: nat) \<noteq> 0 then 8 else unat (10 :: byte))
      (clockText ((24 * 5 + 3) mod 100) 4 5 600000))"
  by (rule time_text) simp_all

section \<open>Reading a binary date\<close>

text \<open>
  \<^verbatim>\<open>time.Date\<close>: parts out of their range carry over into the next, so that October 32 is November 1. A
  time is the number of seconds since the year 0 in UTC, the nanoseconds, and the location. What a
  location takes off the local clock comes from the time zone database and is an argument.
\<close>

datatype location = UTC | Zone "int \<Rightarrow> int"

fun offset :: "location \<Rightarrow> int \<Rightarrow> int" where
  "offset UTC sec = 0"
| "offset (Zone f) sec = f sec"

record goTime =
  t_sec :: int
  t_nsec :: int
  t_loc :: location

definition leap :: "int \<Rightarrow> bool" where
  "leap y \<longleftrightarrow> y mod 4 = 0 \<and> (y mod 100 \<noteq> 0 \<or> y mod 400 = 0)"

definition yearDays :: "int \<Rightarrow> int" where
  "yearDays y = 365 * y + (y + 3) div 4 - (y + 99) div 100 + (y + 399) div 400"

definition daysBefore :: "nat \<Rightarrow> int" where
  "daysBefore m = [0, 31, 59, 90, 120, 151, 181, 212, 243, 273, 304, 334] ! m"

definition goDate :: "int \<Rightarrow> int \<Rightarrow> int \<Rightarrow> int \<Rightarrow> int \<Rightarrow> int \<Rightarrow> int \<Rightarrow> location \<Rightarrow> goTime" where
  "goDate y mo d h mi s ns loc =
     (let y' = y + (mo - 1) div 12;
          m = nat ((mo - 1) mod 12);
          days = yearDays y' + daysBefore m + (if leap y' \<and> 2 \<le> m then 1 else 0) + (d - 1);
          wall = days * 86400 + h * 3600 + mi * 60 + s + ns div 1000000000
      in \<lparr>t_sec = wall - offset loc wall, t_nsec = ns mod 1000000000, t_loc = loc\<rparr>)"

text \<open>\<^verbatim>\<open>time.Time{}\<close> is the first of January of the year 1.\<close>

definition zeroTime :: goTime where
  "zeroTime = goDate 1 1 1 0 0 0 0 UTC"

definition byteInt :: "gslice \<Rightarrow> int \<Rightarrow> int res" where
  "byteInt data i = bindR (idxAt data i) (\<lambda>b. Ok (uint b))"

definition parseBinaryDateTime :: "u64 \<Rightarrow> gslice \<Rightarrow> location \<Rightarrow> goTime res" where
  "parseBinaryDateTime num data loc =
     (if num = 0 then Ok zeroTime
      else if num \<in> {4, 7, 11} then
        bindR (gsub data 0 2) (\<lambda>y. bindR (leUint16 (vis y)) (\<lambda>year.
        bindR (byteInt data 2) (\<lambda>month. bindR (byteInt data 3) (\<lambda>day.
          if num = 4 then Ok (goDate (uint year) month day 0 0 0 0 loc)
          else
            bindR (byteInt data 4) (\<lambda>h. bindR (byteInt data 5) (\<lambda>mi. bindR (byteInt data 6) (\<lambda>s.
              if num = 7 then Ok (goDate (uint year) month day h mi s 0 loc)
              else
                bindR (gsub data 7 11) (\<lambda>f. bindR (leUint32 (vis f)) (\<lambda>us.
                  Ok (goDate (uint year) month day h mi s (uint us * 1000) loc))))))))))
      else Err (InvalidDatetimeLength num))"

lemma uint_byte: "n < 256 \<Longrightarrow> uint (of_nat n :: byte) = int n"
  by (simp add: uint_nat unat_of_nat take_bit_eq_mod)

lemma parseBinaryDateTime_read:
  assumes "y < 65536" "mo < 256" "d < 256" "h < 256" "mi < 256" "s < 256" "us < 2 ^ 32"
  shows "parseBinaryDateTime (of_nat (length (binDateTime y mo d h mi s us))) (slice (binDateTime y mo d h mi s us @ r)) loc =
      (if binDateTime y mo d h mi s us = [] then Ok zeroTime
       else Ok (goDate (int y) (int mo) (int d) (int h) (int mi) (int s) (int us * 1000) loc))"
proof -
  have y: "uint (of_nat y :: u16) = int y" and us: "uint (of_nat us :: u32) = int us"
    using assms by (simp_all add: uint_nat unat_of_nat take_bit_eq_mod)
  note b = uint_byte [OF assms(2)] uint_byte [OF assms(3)] uint_byte [OF assms(4)] uint_byte [OF assms(5)]
    uint_byte [OF assms(6)]
  note ds = putUint16_def putUint32_def parseBinaryDateTime_def binDateTime_def byteInt_def idxAt_def gsub_def len_def
  have l2: "leUint16 [byteAt 0 w, byteAt 8 w] = Ok w" for w using leUint16_put [of w "[]"] by (simp add: putUint16_def)
  have l4: "leUint32 [byteAt 0 w, byteAt 8 w, byteAt 16 w, byteAt 24 w] = Ok w" for w
    using leUint32_put [of w "[]"] by (simp add: putUint32_def)
  consider "us \<noteq> 0" | "us = 0" "h \<noteq> 0 \<or> mi \<noteq> 0 \<or> s \<noteq> 0" | "us = 0" "h = 0" "mi = 0" "s = 0" "y \<noteq> 0 \<or> mo \<noteq> 0 \<or> d \<noteq> 0"
    | "us = 0" "h = 0" "mi = 0" "s = 0" "y = 0" "mo = 0" "d = 0" by blast
  then show ?thesis
    by cases (auto simp: ds y us b l2 l4)
qed

end
