(* ===== verification/Mysql_Const.thy ===== *)
theory Mysql_Const
  imports Go_Prelude
begin

text \<open>
  The protocol's constants, \<^verbatim>\<open>mysql/const.go\<close>: packet headers, capability flags, command bytes, the
  types and flags of columns, and status flags. Each \<^verbatim>\<open>iota\<close> block is a datatype of its names with a function that gives the value.
\<close>

definition MinProtocolVersion :: byte where "MinProtocolVersion = 10"

definition MaxPacketSize :: nat where "MaxPacketSize = 2 ^ 24 - 1"

definition TimeFormat :: "byte list" where "TimeFormat = str ''2006-01-02 15:04:05.999999''"

definition ServerVersion :: "byte list" where "ServerVersion = str ''5.5-igo-mysql-0.1''"

definition HeaderOK :: byte where "HeaderOK = 0x00"
definition HeaderLocalInFile :: byte where "HeaderLocalInFile = 0xfb"
definition HeaderEOF :: byte where "HeaderEOF = 0xfe"
definition HeaderERR :: byte where "HeaderERR = 0xff"

lemmas header_defs = HeaderOK_def HeaderLocalInFile_def HeaderEOF_def HeaderERR_def

lemma MaxPacketSize_val: "MaxPacketSize = 16777215"
  by (simp add: MaxPacketSize_def)

section \<open>Capability flags\<close>

datatype client_flag =
    ClientLongPassword | ClientFoundRows | ClientLongFlag | ClientConnectWithDB | ClientNoSchema
  | ClientCompress | ClientODBC | ClientLocalFiles | ClientIgnoreSpace | ClientProtocol41
  | ClientInteractive | ClientSSL | ClientIgnoreSIGPIPE | ClientTransactions | ClientReserved
  | ClientSecureConn | ClientMultiStatements | ClientMultiResults | ClientPSMultiResults
  | ClientPluginAuth | ClientConnectAttrs | ClientPluginAuthLenEncClientData
  | ClientCanHandleExpiredPasswords | ClientSessionTrack | ClientDeprecateEOF

fun client_flag_iota :: "client_flag \<Rightarrow> nat" where
  "client_flag_iota ClientLongPassword = 0"
| "client_flag_iota ClientFoundRows = 1"
| "client_flag_iota ClientLongFlag = 2"
| "client_flag_iota ClientConnectWithDB = 3"
| "client_flag_iota ClientNoSchema = 4"
| "client_flag_iota ClientCompress = 5"
| "client_flag_iota ClientODBC = 6"
| "client_flag_iota ClientLocalFiles = 7"
| "client_flag_iota ClientIgnoreSpace = 8"
| "client_flag_iota ClientProtocol41 = 9"
| "client_flag_iota ClientInteractive = 10"
| "client_flag_iota ClientSSL = 11"
| "client_flag_iota ClientIgnoreSIGPIPE = 12"
| "client_flag_iota ClientTransactions = 13"
| "client_flag_iota ClientReserved = 14"
| "client_flag_iota ClientSecureConn = 15"
| "client_flag_iota ClientMultiStatements = 16"
| "client_flag_iota ClientMultiResults = 17"
| "client_flag_iota ClientPSMultiResults = 18"
| "client_flag_iota ClientPluginAuth = 19"
| "client_flag_iota ClientConnectAttrs = 20"
| "client_flag_iota ClientPluginAuthLenEncClientData = 21"
| "client_flag_iota ClientCanHandleExpiredPasswords = 22"
| "client_flag_iota ClientSessionTrack = 23"
| "client_flag_iota ClientDeprecateEOF = 24"

definition client_flag :: "client_flag \<Rightarrow> u32" where
  "client_flag f = push_bit (client_flag_iota f) 1"

definition DefaultCapability :: u32 where
  "DefaultCapability = client_flag ClientLongPassword OR client_flag ClientLongFlag OR
     client_flag ClientConnectWithDB OR client_flag ClientProtocol41 OR
     client_flag ClientTransactions OR client_flag ClientSecureConn OR client_flag ClientFoundRows"

definition hasFlag :: "u32 \<Rightarrow> client_flag \<Rightarrow> bool" where
  "hasFlag w f \<longleftrightarrow> w AND client_flag f \<noteq> 0"

lemma client_flag_iota_less: "client_flag_iota f < 32"
  by (cases f) simp_all

lemma client_flag_iota_inj: "client_flag_iota f = client_flag_iota g \<longleftrightarrow> f = g"
  by (cases f; cases g) simp_all

lemma bit_client_flag: "bit (client_flag f) i \<longleftrightarrow> i = client_flag_iota f"
  using client_flag_iota_less [of f] by (auto simp: client_flag_def bit_simps)

lemma hasFlag_bit: "hasFlag w f \<longleftrightarrow> bit w (client_flag_iota f)"
proof
  assume "hasFlag w f"
  then obtain i where "bit (w AND client_flag f) i" by (auto simp: hasFlag_def bit_eq_iff)
  then show "bit w (client_flag_iota f)" by (auto simp: bit_and_iff bit_client_flag)
next
  assume "bit w (client_flag_iota f)"
  then have "bit (w AND client_flag f) (client_flag_iota f)" by (simp add: bit_and_iff bit_client_flag)
  then show "hasFlag w f" by (auto simp: hasFlag_def)
qed

lemma hasFlag_or: "hasFlag (v OR w) f \<longleftrightarrow> hasFlag v f \<or> hasFlag w f"
  by (simp add: hasFlag_bit bit_or_iff)

lemma hasFlag_and: "hasFlag (v AND w) f \<longleftrightarrow> hasFlag v f \<and> hasFlag w f"
  by (simp add: hasFlag_bit bit_and_iff)

lemma hasFlag_client_flag [simp]: "hasFlag (client_flag g) f \<longleftrightarrow> f = g"
  by (auto simp: hasFlag_bit bit_client_flag client_flag_iota_inj)

section \<open>Commands\<close>

datatype com =
    ComQuit | ComInitDB | ComQuery | ComFieldList | ComCreateDB | ComDropDB | ComRefresh
  | ComShutdown | ComStatistics | ComProcessInfo | ComConnect | ComProcessKill | ComDebug | ComPing
  | ComTime | ComDelayedInsert | ComChangeUser | ComBinlogDump | ComTableDump | ComConnectOut
  | ComRegisterSlave | ComStmtPrepare | ComStmtExecute | ComStmtSendLongData | ComStmtClose
  | ComStmtReset | ComSetOption | ComStmtFetch

fun com_byte :: "com \<Rightarrow> byte" where
  "com_byte ComQuit = 1"
| "com_byte ComInitDB = 2"
| "com_byte ComQuery = 3"
| "com_byte ComFieldList = 4"
| "com_byte ComCreateDB = 5"
| "com_byte ComDropDB = 6"
| "com_byte ComRefresh = 7"
| "com_byte ComShutdown = 8"
| "com_byte ComStatistics = 9"
| "com_byte ComProcessInfo = 10"
| "com_byte ComConnect = 11"
| "com_byte ComProcessKill = 12"
| "com_byte ComDebug = 13"
| "com_byte ComPing = 14"
| "com_byte ComTime = 15"
| "com_byte ComDelayedInsert = 16"
| "com_byte ComChangeUser = 17"
| "com_byte ComBinlogDump = 18"
| "com_byte ComTableDump = 19"
| "com_byte ComConnectOut = 20"
| "com_byte ComRegisterSlave = 21"
| "com_byte ComStmtPrepare = 22"
| "com_byte ComStmtExecute = 23"
| "com_byte ComStmtSendLongData = 24"
| "com_byte ComStmtClose = 25"
| "com_byte ComStmtReset = 26"
| "com_byte ComSetOption = 27"
| "com_byte ComStmtFetch = 28"

section \<open>Columns\<close>

text \<open>The types and flags of columns. The second block of types starts again at \<^verbatim>\<open>0xf5\<close>.\<close>

datatype field_type =
    FieldTypeDecimal | FieldTypeTiny | FieldTypeShort | FieldTypeLong | FieldTypeFloat
   | FieldTypeDouble | FieldTypeNULL | FieldTypeTimestamp | FieldTypeLongLong | FieldTypeInt24
   | FieldTypeDate | FieldTypeTime | FieldTypeDateTime | FieldTypeYear | FieldTypeNewDate
   | FieldTypeVarChar | FieldTypeBit | FieldTypeJSON | FieldTypeNewDecimal | FieldTypeEnum
   | FieldTypeSet | FieldTypeTinyBLOB | FieldTypeMediumBLOB | FieldTypeLongBLOB | FieldTypeBLOB
   | FieldTypeVarString | FieldTypeString | FieldTypeGeometry

fun field_type_byte :: "field_type \<Rightarrow> byte" where
  "field_type_byte FieldTypeDecimal = 0x0"
| "field_type_byte FieldTypeTiny = 0x1"
| "field_type_byte FieldTypeShort = 0x2"
| "field_type_byte FieldTypeLong = 0x3"
| "field_type_byte FieldTypeFloat = 0x4"
| "field_type_byte FieldTypeDouble = 0x5"
| "field_type_byte FieldTypeNULL = 0x6"
| "field_type_byte FieldTypeTimestamp = 0x7"
| "field_type_byte FieldTypeLongLong = 0x8"
| "field_type_byte FieldTypeInt24 = 0x9"
| "field_type_byte FieldTypeDate = 0xa"
| "field_type_byte FieldTypeTime = 0xb"
| "field_type_byte FieldTypeDateTime = 0xc"
| "field_type_byte FieldTypeYear = 0xd"
| "field_type_byte FieldTypeNewDate = 0xe"
| "field_type_byte FieldTypeVarChar = 0xf"
| "field_type_byte FieldTypeBit = 0x10"
| "field_type_byte FieldTypeJSON = 0xf5"
| "field_type_byte FieldTypeNewDecimal = 0xf6"
| "field_type_byte FieldTypeEnum = 0xf7"
| "field_type_byte FieldTypeSet = 0xf8"
| "field_type_byte FieldTypeTinyBLOB = 0xf9"
| "field_type_byte FieldTypeMediumBLOB = 0xfa"
| "field_type_byte FieldTypeLongBLOB = 0xfb"
| "field_type_byte FieldTypeBLOB = 0xfc"
| "field_type_byte FieldTypeVarString = 0xfd"
| "field_type_byte FieldTypeString = 0xfe"
| "field_type_byte FieldTypeGeometry = 0xff"

datatype field_flag =
    FlagNotNULL | FlagPriKey | FlagUniqueKey | FlagMultipleKey | FlagBLOB | FlagUnsigned
   | FlagZeroFill | FlagBinary | FlagEnum | FlagAutoIncrement | FlagTimestamp | FlagSet
   | FlagUnknown1 | FlagUnknown2 | FlagUnknown3 | FlagUnknown4

fun field_flag_iota :: "field_flag \<Rightarrow> nat" where
  "field_flag_iota FlagNotNULL = 0"
| "field_flag_iota FlagPriKey = 1"
| "field_flag_iota FlagUniqueKey = 2"
| "field_flag_iota FlagMultipleKey = 3"
| "field_flag_iota FlagBLOB = 4"
| "field_flag_iota FlagUnsigned = 5"
| "field_flag_iota FlagZeroFill = 6"
| "field_flag_iota FlagBinary = 7"
| "field_flag_iota FlagEnum = 8"
| "field_flag_iota FlagAutoIncrement = 9"
| "field_flag_iota FlagTimestamp = 10"
| "field_flag_iota FlagSet = 11"
| "field_flag_iota FlagUnknown1 = 12"
| "field_flag_iota FlagUnknown2 = 13"
| "field_flag_iota FlagUnknown3 = 14"
| "field_flag_iota FlagUnknown4 = 15"

definition field_flag :: "field_flag \<Rightarrow> u16" where
  "field_flag f = push_bit (field_flag_iota f) 1"

lemma field_type_byte_inj: "inj field_type_byte"
proof (rule injI)
  fix s t
  assume "field_type_byte s = field_type_byte t"
  then have "unat (field_type_byte s) = unat (field_type_byte t)" by simp
  then show "s = t" by (cases s; cases t) simp_all
qed

text \<open>The sixteen flags are the sixteen bits of the word.\<close>

lemma bit_field_flag: "bit (field_flag f) i \<longleftrightarrow> i = field_flag_iota f"
proof -
  have "field_flag_iota f < 16" by (cases f) simp_all
  then show ?thesis by (auto simp: field_flag_def bit_simps)
qed

section \<open>Status flags\<close>

datatype status_flag =
    StatusInTrans | StatusInAutocommit | StatusReserved | StatusMoreResultsExists
  | StatusNoGoodIndexUsed | StatusNoIndexUsed | StatusCursorExists | StatusLastRowSent
  | StatusDbDropped | StatusNoBackslashEscapes | StatusMetadataChanged | StatusQueryWasSlow
  | StatusPsOutParams | StatusInTransReadonly | StatusSessionStateChanged

fun status_flag_iota :: "status_flag \<Rightarrow> nat" where
  "status_flag_iota StatusInTrans = 0"
| "status_flag_iota StatusInAutocommit = 1"
| "status_flag_iota StatusReserved = 2"
| "status_flag_iota StatusMoreResultsExists = 3"
| "status_flag_iota StatusNoGoodIndexUsed = 4"
| "status_flag_iota StatusNoIndexUsed = 5"
| "status_flag_iota StatusCursorExists = 6"
| "status_flag_iota StatusLastRowSent = 7"
| "status_flag_iota StatusDbDropped = 8"
| "status_flag_iota StatusNoBackslashEscapes = 9"
| "status_flag_iota StatusMetadataChanged = 10"
| "status_flag_iota StatusQueryWasSlow = 11"
| "status_flag_iota StatusPsOutParams = 12"
| "status_flag_iota StatusInTransReadonly = 13"
| "status_flag_iota StatusSessionStateChanged = 14"

definition status_flag :: "status_flag \<Rightarrow> u16" where
  "status_flag f = push_bit (status_flag_iota f) 1"

end
