(* ===== verification/Mysql_NullTime.thy ===== *)
theory Mysql_NullTime
  imports Mysql_Time Mysql_Const
begin

text \<open>
  Dates and times as text, \<^verbatim>\<open>server/utils.go\<close>: \<open>parseDateTime\<close> reads the text of a DATE or DATETIME, and
  \<open>NullTime\<close> is a destination for such a column. The text is read by \<^verbatim>\<open>time.Parse\<close> of the standard
  library, modelled here for the layouts that the beginnings of \<open>TimeFormat\<close> are.
\<close>

section \<open>\<^verbatim>\<open>time.Parse\<close>\<close>

datatype chunk = LongYear | ZeroMonth | ZeroDay | Hour | ZeroMinute | ZeroSecond | FracSecond9 nat

definition isDig :: "byte \<Rightarrow> bool" where
  "isDig c \<longleftrightarrow> 0x30 \<le> c \<and> c \<le> 0x39"

definition isDigit :: "byte list \<Rightarrow> nat \<Rightarrow> bool" where
  "isDigit s i \<longleftrightarrow> i < length s \<and> isDig (s ! i)"

text \<open>The next part of a layout: the text before it, the part, and the rest of the layout.\<close>

definition stdAt :: "byte list \<Rightarrow> (chunk \<times> byte list) option" where
  "stdAt layout =
     (if take 4 layout = str ''2006'' then Some (LongYear, drop 4 layout)
      else if take 2 layout = str ''01'' then Some (ZeroMonth, drop 2 layout)
      else if take 2 layout = str ''02'' then Some (ZeroDay, drop 2 layout)
      else if take 2 layout = str ''15'' then Some (Hour, drop 2 layout)
      else if take 2 layout = str ''04'' then Some (ZeroMinute, drop 2 layout)
      else if take 2 layout = str ''05'' then Some (ZeroSecond, drop 2 layout)
      else if take 2 layout = str ''.9'' then
        (let n = length (takeWhile (\<lambda>c. c = 0x39) (drop 1 layout)) in
         if isDigit layout (1 + n) then None else Some (FracSecond9 n, drop (1 + n) layout))
      else None)"

fun nextStdChunk :: "byte list \<Rightarrow> byte list \<times> (chunk \<times> byte list) option" where
  "nextStdChunk [] = ([], None)"
| "nextStdChunk (c # cs) =
     (case stdAt (c # cs) of
        Some k \<Rightarrow> ([], Some k)
      | None \<Rightarrow> (case nextStdChunk cs of (p, k) \<Rightarrow> (c # p, k)))"

lemma stdAt_shrinks: "stdAt layout = Some (k, r) \<Longrightarrow> length r < length layout"
  by (cases layout) (auto simp: stdAt_def str_def Let_def split: if_splits)

lemma nextStdChunk_shrinks: "nextStdChunk layout = (p, Some (k, r)) \<Longrightarrow> length r < length layout"
  by (induction layout arbitrary: p) (auto dest: stdAt_shrinks simp: less_Suc_eq split: option.splits prod.splits)

text \<open>The text between two parts must be there, with at least as many spaces.\<close>

function skip :: "byte list \<Rightarrow> byte list \<Rightarrow> byte list option" where
  "skip val [] = Some val"
| "skip val (p # ps) =
     (if p = 0x20 then
        (if val \<noteq> [] \<and> hd val \<noteq> 0x20 then None
         else skip (dropWhile (\<lambda>c. c = 0x20) val) (dropWhile (\<lambda>c. c = 0x20) ps))
      else if val = [] \<or> hd val \<noteq> p then None
      else skip (tl val) ps)"
  by pat_completeness auto
termination
  by (relation "measure (\<lambda>(v, p). length p)") (auto simp: less_Suc_eq_le length_dropWhile_le)

definition numeral_of :: "byte list \<Rightarrow> nat" where
  "numeral_of ds = foldl (\<lambda>n d. 10 * n + unat (d - 0x30)) 0 ds"

definition getnum :: "byte list \<Rightarrow> bool \<Rightarrow> (nat \<times> byte list) option" where
  "getnum s fixed =
     (if \<not> isDigit s 0 then None
      else if \<not> isDigit s 1 then (if fixed then None else Some (numeral_of (take 1 s), drop 1 s))
      else Some (numeral_of (take 2 s), drop 2 s))"

text \<open>The digits behind a point: nanoseconds.\<close>

definition parseNanoseconds :: "byte list \<Rightarrow> nat" where
  "parseNanoseconds ds = numeral_of ds * 10 ^ (9 - length ds)"

text \<open>The fields of a time in UTC, as \<^verbatim>\<open>Date\<close>, \<^verbatim>\<open>Clock\<close> and \<^verbatim>\<open>Nanosecond\<close> return them.\<close>

record civil =
  cv_year :: nat
  cv_month :: nat
  cv_day :: nat
  cv_hour :: nat
  cv_min :: nat
  cv_sec :: nat
  cv_nsec :: nat

definition getfrac :: "byte list \<Rightarrow> civil \<Rightarrow> byte list \<times> civil" where
  "getfrac val c =
     (if length val < 2 \<or> val ! 0 \<noteq> 0x2e \<or> \<not> isDig (val ! 1) then (val, c)
      else (let ds = take 9 (takeWhile isDig (drop 1 val))
            in (drop (1 + length ds) val, c\<lparr>cv_nsec := parseNanoseconds ds\<rparr>)))"

text \<open>One part of the layout; \<open>layout\<close> is the rest of it. \<open>None\<close> is any of the errors of a \<^verbatim>\<open>time.ParseError\<close>. A
  fraction that stands behind the seconds is read even when the layout has none.\<close>

fun parseChunk :: "chunk \<Rightarrow> byte list \<Rightarrow> byte list \<Rightarrow> civil \<Rightarrow> (byte list \<times> civil) option" where
  "parseChunk LongYear layout val c =
     (if length val < 4 \<or> \<not> isDigit val 0 \<or> \<not> list_all isDig (take 4 val) then None
      else Some (drop 4 val, c\<lparr>cv_year := numeral_of (take 4 val)\<rparr>))"
| "parseChunk ZeroMonth layout val c =
     (case getnum val True of
        None \<Rightarrow> None
      | Some (n, val) \<Rightarrow> if n = 0 \<or> 12 < n then None else Some (val, c\<lparr>cv_month := n\<rparr>))"
| "parseChunk ZeroDay layout val c =
     (case getnum val True of None \<Rightarrow> None | Some (n, val) \<Rightarrow> Some (val, c\<lparr>cv_day := n\<rparr>))"
| "parseChunk Hour layout val c =
     (case getnum val False of
        None \<Rightarrow> None
      | Some (n, val) \<Rightarrow> if 24 \<le> n then None else Some (val, c\<lparr>cv_hour := n\<rparr>))"
| "parseChunk ZeroMinute layout val c =
     (case getnum val True of
        None \<Rightarrow> None
      | Some (n, val) \<Rightarrow> if 60 \<le> n then None else Some (val, c\<lparr>cv_min := n\<rparr>))"
| "parseChunk ZeroSecond layout val c =
     (case getnum val True of
        None \<Rightarrow> None
      | Some (n, val) \<Rightarrow>
          if 60 \<le> n then None
          else
            (let c = c\<lparr>cv_sec := n\<rparr> in
             case nextStdChunk layout of
               (_, Some (FracSecond9 _, _)) \<Rightarrow> Some (val, c)
             | _ \<Rightarrow> Some (getfrac val c)))"
| "parseChunk (FracSecond9 n) layout val c = Some (getfrac val c)"

function parseLoop :: "byte list \<Rightarrow> byte list \<Rightarrow> civil \<Rightarrow> civil option" where
  "parseLoop layout val c =
     (case nextStdChunk layout of
        (prefix, k) \<Rightarrow>
          (case skip val prefix of
             None \<Rightarrow> None
           | Some val \<Rightarrow>
               (case k of
                  None \<Rightarrow> if val = [] then Some c else None
                | Some (k, layout') \<Rightarrow>
                    (case parseChunk k layout' val c of
                       None \<Rightarrow> None
                     | Some (val, c) \<Rightarrow> parseLoop layout' val c))))"
  by pat_completeness auto
termination
  by (relation "measure (\<lambda>(l, v, c). length l)") (auto dest: nextStdChunk_shrinks [OF sym])

declare parseLoop.simps [simp del]

definition daysIn :: "nat \<Rightarrow> nat \<Rightarrow> nat" where
  "daysIn m y = (if m = 2 \<and> leap (int y) then 29 else [31, 28, 31, 30, 31, 30, 31, 31, 30, 31, 30, 31] ! (m - 1))"

definition timeParse :: "byte list \<Rightarrow> byte list \<Rightarrow> civil res" where
  "timeParse layout val =
     (case parseLoop layout val \<lparr>cv_year = 0, cv_month = 1, cv_day = 1, cv_hour = 0, cv_min = 0, cv_sec = 0, cv_nsec = 0\<rparr> of
        None \<Rightarrow> Err TimeParse
      | Some c \<Rightarrow>
          if cv_day c < 1 \<or> daysIn (cv_month c) (cv_year c) < cv_day c then Err TimeParse else Ok c)"

text \<open>\<^verbatim>\<open>time.Date\<close> of the fields.\<close>

definition dateOf :: "civil \<Rightarrow> location \<Rightarrow> goTime" where
  "dateOf c loc = goDate (int (cv_year c)) (int (cv_month c)) (int (cv_day c)) (int (cv_hour c)) (int (cv_min c))
     (int (cv_sec c)) (int (cv_nsec c)) loc"

section \<open>\<open>parseDateTime\<close> and \<open>NullTime\<close>\<close>

definition baseText :: "byte list" where
  "baseText = str ''0000-00-00 00:00:00.0000000''"

definition parseDateTime :: "byte list \<Rightarrow> location \<Rightarrow> goTime res" where
  "parseDateTime s loc =
     (if length s \<in> {10, 19, 21, 22, 23, 24, 25, 26} then
        (if s = take (length s) baseText then Ok zeroTime
         else
           bindR (timeParse (take (length s) TimeFormat) s) (\<lambda>t.
             case loc of UTC \<Rightarrow> Ok (dateOf t UTC) | Zone f \<Rightarrow> Ok (dateOf t loc)))
      else Err (InvalidTimeString s))"

record NullTime =
  Time :: goTime
  Valid :: bool

text \<open>The values a column may have: what is no time, text or NULL is \<open>OtherValue\<close>.\<close>

datatype colValue = NilValue | TimeValue goTime | BytesValue "byte list" | StringValue "byte list" | OtherValue

definition scanText :: "NullTime \<Rightarrow> byte list \<Rightarrow> unit res \<times> NullTime" where
  "scanText nt v =
     (case parseDateTime v UTC of
        Ok t \<Rightarrow> (Ok (), nt\<lparr>Time := t, Valid := True\<rparr>)
      | Err e \<Rightarrow> (Err e, nt\<lparr>Time := zeroTime, Valid := False\<rparr>)
      | Panic \<Rightarrow> (Panic, nt)
      | Spin \<Rightarrow> (Spin, nt))"

fun NullTime_Scan :: "NullTime \<Rightarrow> colValue \<Rightarrow> unit res \<times> NullTime" where
  "NullTime_Scan nt NilValue = (Ok (), nt\<lparr>Time := zeroTime, Valid := False\<rparr>)"
| "NullTime_Scan nt (TimeValue t) = (Ok (), nt\<lparr>Time := t, Valid := True\<rparr>)"
| "NullTime_Scan nt (BytesValue v) = scanText nt v"
| "NullTime_Scan nt (StringValue v) = scanText nt v"
| "NullTime_Scan nt OtherValue = (Err ScanType, nt\<lparr>Valid := False\<rparr>)"

definition NullTime_Value :: "NullTime \<Rightarrow> colValue" where
  "NullTime_Value nt = (if \<not> Valid nt then NilValue else TimeValue (Time nt))"

section \<open>Digits and layouts\<close>

lemma dig_range: "isDig (dig n)" "unat (dig n - 0x30) = n mod 10" "dig n \<noteq> 0x20" "dig n \<noteq> 0x2d" "dig n \<noteq> 0x3a" "dig n \<noteq> 0x2e"
proof -
  have "n mod 10 \<in> {0, 1, 2, 3, 4, 5, 6, 7, 8, 9}" unfolding insert_iff empty_iff by presburger
  then show "isDig (dig n)" "unat (dig n - 0x30) = n mod 10" "dig n \<noteq> 0x20" "dig n \<noteq> 0x2d" "dig n \<noteq> 0x3a" "dig n \<noteq> 0x2e"
    unfolding isDig_def dig_def by (elim insertE emptyE; simp)+
qed

lemma numeral_of_digits: "numeral_of (map dig ns) = foldl (\<lambda>n d. 10 * n + d mod 10) 0 ns"
proof -
  have "foldl (\<lambda>n d. 10 * n + unat (d - 0x30)) a (map dig ns) = foldl (\<lambda>n d. 10 * n + d mod 10) a ns" for a
    by (induction ns arbitrary: a) (simp_all add: dig_range)
  then show ?thesis by (simp add: numeral_of_def)
qed

lemma two_digits: "two n = map dig [n div 10, n]"
  by (simp add: two_def)

lemma numeral_two: "n < 100 \<Longrightarrow> numeral_of (two n) = n"
  unfolding two_digits numeral_of_digits by simp

lemma numeral_year: "y < 10000 \<Longrightarrow> numeral_of (two (y div 100) @ two (y mod 100)) = y"
  unfolding two_digits map_append [symmetric] numeral_of_digits by simp

lemma getnum_two: "n < 100 \<Longrightarrow> getnum (two n @ v) f = Some (n, v)"
  using numeral_two [of n] by (simp add: getnum_def isDigit_def two_def dig_range)

lemma nextStdChunk_layout:
  "nextStdChunk (str ''2006'' @ r) = ([], Some (LongYear, r))"
  "nextStdChunk (str ''-01'' @ r) = ([0x2d], Some (ZeroMonth, r))"
  "nextStdChunk (str ''-02'' @ r) = ([0x2d], Some (ZeroDay, r))"
  "nextStdChunk (str '' 15'' @ r) = ([0x20], Some (Hour, r))"
  "nextStdChunk (str '':04'' @ r) = ([0x3a], Some (ZeroMinute, r))"
  "nextStdChunk (str '':05'' @ r) = ([0x3a], Some (ZeroSecond, r))"
  by (simp_all add: stdAt_def str_def)

lemma nextStdChunk_fraction:
  "k \<in> {1, 2, 3, 4, 5, 6} \<Longrightarrow> nextStdChunk (0x2e # replicate k 0x39) = ([], Some (FracSecond9 k, []))"
  by (elim insertE emptyE; simp only:; code_simp)

lemma skip_one: "p \<noteq> 0x20 \<Longrightarrow> skip (p # v) [p] = Some v" "c \<noteq> 0x20 \<Longrightarrow> skip (0x20 # c # v) [0x20] = Some (c # v)"
  by simp_all

section \<open>Reading the text of a date\<close>

lemma parseLoop_step:
  assumes "nextStdChunk layout = (prefix, Some (k, layout'))" and "skip val prefix = Some val'"
  shows "parseLoop layout val c =
    (case parseChunk k layout' val' c of None \<Rightarrow> None | Some (v, c) \<Rightarrow> parseLoop layout' v c)"
  using assms by (subst parseLoop.simps) (simp del: nextStdChunk.simps)

lemma parseLoop_date:
  assumes "y < 10000" "mo < 100" "d < 100"
  shows "parseLoop (str ''2006'' @ str ''-01'' @ str ''-02'' @ l) (dateText y mo d @ v) c =
    (if mo = 0 \<or> 12 < mo then None else parseLoop l v (c\<lparr>cv_year := y, cv_month := mo, cv_day := d\<rparr>))"
proof -
  have y: "parseChunk LongYear l' (two (y div 100) @ two (y mod 100) @ w) c = Some (w, c\<lparr>cv_year := y\<rparr>)" for l' w
    using numeral_year [OF assms(1)] by (simp add: two_def isDigit_def dig_range)
  show ?thesis
    unfolding dateText_def append_assoc
    by (subst parseLoop.simps, simp only: nextStdChunk_layout prod.case skip.simps option.case y,
        subst parseLoop.simps, simp add: nextStdChunk_layout getnum_two [OF assms(2)] del: append_assoc nextStdChunk.simps,
        subst parseLoop.simps, simp add: nextStdChunk_layout getnum_two [OF assms(3)])
qed

lemma skip_space_two: "skip (0x20 # two n @ v) [0x20] = Some (two n @ v)"
  by (simp add: two_def dig_range)

text \<open>The clock, up to the seconds: \<open>F\<close> is the fraction of the layout, \<open>w\<close> that of the text.\<close>

lemma parseLoop_clock:
  assumes "h < 100" "mi < 100" "s < 100"
    and F: "F = [] \<and> w = [] \<or> (\<exists>k r. nextStdChunk F = ([], Some (FracSecond9 k, r)))"
  shows "parseLoop (str '' 15'' @ str '':04'' @ str '':05'' @ F)
      (0x20 # two h @ 0x3a # two mi @ 0x3a # two s @ w) c =
    (if 24 \<le> h \<or> 60 \<le> mi \<or> 60 \<le> s then None
     else parseLoop F w (c\<lparr>cv_hour := h, cv_min := mi, cv_sec := s\<rparr>))"
proof -
  have s: "parseChunk ZeroSecond F (two s @ w) c = (if 60 \<le> s then None else Some (w, c\<lparr>cv_sec := s\<rparr>))" for c
    using F by (auto simp: getnum_two [OF assms(3)] getfrac_def)
  let ?l3 = "str '':05'' @ F" and ?v3 = "0x3a # two s @ w"
  have 1: "skip (0x3a # two n @ v) [0x3a] = Some (two n @ v)" for n v by simp
  note l = parseLoop_step [OF nextStdChunk_layout(4) skip_space_two, of "str '':04'' @ ?l3" h "0x3a # two mi @ ?v3" c]
    parseLoop_step [OF nextStdChunk_layout(5) 1, of ?l3 mi ?v3 "c\<lparr>cv_hour := h\<rparr>"]
    parseLoop_step [OF nextStdChunk_layout(6) 1, of F s w "c\<lparr>cv_hour := h, cv_min := mi\<rparr>"]
  show ?thesis
    unfolding l parseChunk.simps(4,5) getnum_two [OF assms(1)] getnum_two [OF assms(2)] s
    by (simp add: l getnum_two [OF assms(2)] s del: parseChunk.simps(6))
qed

lemma parseLoop_end: "parseLoop [] [] c = Some c"
  by (simp add: parseLoop.simps)

definition fracDigits :: "nat \<Rightarrow> byte list" where
  "fracDigits us = two (us div 10000) @ two (us div 100 mod 100) @ two (us mod 100)"

lemma fracDigits_map: "fracDigits us = map dig [us div 100000, us div 10000, us div 1000, us div 100, us div 10, us]"
proof -
  have "n mod 100 div 10 mod 10 = n div 10 mod 10" "n mod 100 mod 10 = n mod 10" for n :: nat
    using mod_mult2_eq [of n 10 10] by simp_all
  then have d: "dig (n mod 100 div 10) = dig (n div 10)" "dig (n mod 100) = dig n" for n by (simp_all only: dig_def)
  have "us div 10000 div 10 = us div 100000" "us div 100 div 10 = us div 1000" by (simp_all flip: div_mult2_eq)
  then show ?thesis by (simp only: fracDigits_def two_def d append.simps list.map)
qed

lemma numeral_frac:
  assumes "us < 1000000" and "k \<le> 6"
  shows "numeral_of (take k (fracDigits us)) = us div 10 ^ (6 - k)"
proof -
  have "k \<in> {0, 1, 2, 3, 4, 5, 6}" using assms(2) unfolding insert_iff empty_iff by presburger
  moreover have t: "us div 100000 mod 10 = us div 100000" using assms(1) by simp
  have h: "10 * (n div 10) + n mod 10 = n" for n :: nat by simp
  have e: "10 * (us div 100000) + us div 10000 mod 10 = us div 10000" "10 * (us div 10000) + us div 1000 mod 10 = us div 1000"
    "10 * (us div 1000) + us div 100 mod 10 = us div 100" "10 * (us div 100) + us div 10 mod 10 = us div 10"
    using h [of "us div 10000"] h [of "us div 1000"] h [of "us div 100"] h [of "us div 10"]
    by (simp_all flip: div_mult2_eq)
  have z: "us div 1000000 = 0" using assms(1) by simp
  ultimately show ?thesis
    unfolding fracDigits_map take_map numeral_of_digits
    by (elim insertE emptyE; simp only: diff_zero; simp add: t e h z del: distrib_left_numeral)
qed

lemma getfrac_digits:
  assumes "us < 1000000" and "1 \<le> k" and "k \<le> 6"
  shows "getfrac (0x2e # take k (fracDigits us)) c = ([], c\<lparr>cv_nsec := us div 10 ^ (6 - k) * 10 ^ (9 - k)\<rparr>)"
proof -
  have "list_all isDig (fracDigits us)" "length (fracDigits us) = 6" by (simp_all add: fracDigits_def two_def dig_range)
  then have "\<forall>x \<in> set (take k (fracDigits us)). isDig x" and l: "length (take k (fracDigits us)) = k"
    and "isDig (fracDigits us ! 0)"
    using assms(2,3) by (auto simp: list_all_iff dest: in_set_takeD)
  then have w: "takeWhile isDig (take k (fracDigits us)) = take k (fracDigits us)" by (simp add: takeWhile_eq_all_conv)
  have t: "take 9 (take k (fracDigits us)) = take k (fracDigits us)" using assms(3) by (simp add: min_def)
  show ?thesis
    using \<open>isDig (fracDigits us ! 0)\<close> assms(2,3)
    by (simp add: getfrac_def parseNanoseconds_def w t l numeral_frac [OF assms(1,3)] del: take_take length_take)
qed

section \<open>Properties\<close>

text \<open>What a text of \<open>n\<close> characters shows of a time, and when there is such a time.\<close>

definition shown :: "nat \<Rightarrow> nat \<Rightarrow> nat \<Rightarrow> nat \<Rightarrow> nat \<Rightarrow> nat \<Rightarrow> nat \<Rightarrow> nat \<Rightarrow> civil" where
  "shown n y mo d h mi s us =
     (if n = 10 then \<lparr>cv_year = y, cv_month = mo, cv_day = d, cv_hour = 0, cv_min = 0, cv_sec = 0, cv_nsec = 0\<rparr>
      else \<lparr>cv_year = y, cv_month = mo, cv_day = d, cv_hour = h, cv_min = mi, cv_sec = s,
        cv_nsec = us div 10 ^ (26 - n) * 10 ^ (26 - n) * 1000\<rparr>)"

definition isZero :: "civil \<Rightarrow> bool" where
  "isZero c \<longleftrightarrow> cv_year c = 0 \<and> cv_month c = 0 \<and> cv_day c = 0 \<and> cv_hour c = 0 \<and> cv_min c = 0 \<and> cv_sec c = 0 \<and>
     cv_nsec c = 0"

definition isTime :: "civil \<Rightarrow> bool" where
  "isTime c \<longleftrightarrow> cv_month c \<in> {1..12} \<and> cv_day c \<in> {1..daysIn (cv_month c) (cv_year c)} \<and> cv_hour c < 24 \<and>
     cv_min c < 60 \<and> cv_sec c < 60"

lemma take_behind20: "length a = 20 \<Longrightarrow> take (20 + k) (a @ b) = a @ take k b"
  by simp

lemma text_prefixes:
  "take 10 (dateTimeText y mo d h mi s us) = dateText y mo d"
  "take 19 (dateTimeText y mo d h mi s us) = dateText y mo d @ 0x20 # two h @ 0x3a # two mi @ 0x3a # two s"
  "take (20 + k) (dateTimeText y mo d h mi s us) =
     dateText y mo d @ 0x20 # two h @ 0x3a # two mi @ 0x3a # two s @ 0x2e # take k (fracDigits us)"
proof -
  let ?a = "dateText y mo d @ 0x20 # two h @ 0x3a # two mi @ 0x3a # two s @ [0x2e]"
  have "dateTimeText y mo d h mi s us = ?a @ fracDigits us" "length ?a = 20"
    by (simp_all add: dateTimeText_def clockText_def fracDigits_def dateText_def two_def)
  then have "take (20 + k) (dateTimeText y mo d h mi s us) = ?a @ take k (fracDigits us)" by (metis take_behind20)
  then show "take (20 + k) (dateTimeText y mo d h mi s us) =
      dateText y mo d @ 0x20 # two h @ 0x3a # two mi @ 0x3a # two s @ 0x2e # take k (fracDigits us)"
    by simp
qed (simp_all add: dateTimeText_def clockText_def dateText_def two_def)

lemma layout_prefixes:
  "take 10 TimeFormat = str ''2006'' @ str ''-01'' @ str ''-02'' @ []"
  "take 19 TimeFormat = str ''2006'' @ str ''-01'' @ str ''-02'' @ str '' 15'' @ str '':04'' @ str '':05'' @ []"
  "k \<le> 6 \<Longrightarrow> take (20 + k) TimeFormat =
     str ''2006'' @ str ''-01'' @ str ''-02'' @ str '' 15'' @ str '':04'' @ str '':05'' @ 0x2e # replicate k 0x39"
proof -
  let ?a = "str ''2006'' @ str ''-01'' @ str ''-02'' @ str '' 15'' @ str '':04'' @ str '':05'' @ [0x2e :: byte]"
  have "TimeFormat = ?a @ replicate 6 0x39" by code_simp
  moreover have "length ?a = 20" by simp
  ultimately have "take (20 + k) TimeFormat = ?a @ take k (replicate 6 0x39)" by (metis take_behind20)
  then show "k \<le> 6 \<Longrightarrow> take (20 + k) TimeFormat =
      str ''2006'' @ str ''-01'' @ str ''-02'' @ str '' 15'' @ str '':04'' @ str '':05'' @ 0x2e # replicate k 0x39"
    by (simp add: min_absorb1)
qed code_simp+

lemma dig_zero: "dig n = 0x30 \<longleftrightarrow> n mod 10 = 0"
proof -
  have "unat (dig n - 0x30) = n mod 10" by (simp add: dig_range)
  then show ?thesis by (auto simp: dig_def)
qed

lemma two_zero: "n < 100 \<Longrightarrow> two n = [0x30, 0x30] \<longleftrightarrow> n = 0"
  by (auto simp: two_def dig_zero)

lemma dateText_zero:
  assumes "y < 10000" "mo < 100" "d < 100"
  shows "dateText y mo d = take 10 baseText \<longleftrightarrow> y = 0 \<and> mo = 0 \<and> d = 0"
proof -
  have "y div 100 < 100" "y mod 100 < 100" using assms(1) by simp_all
  have "dateText y mo d = take 10 baseText \<longleftrightarrow> two (y div 100) = [0x30, 0x30] \<and> two (y mod 100) = [0x30, 0x30] \<and>
      two mo = [0x30, 0x30] \<and> two d = [0x30, 0x30]"
    by (auto simp: dateText_def baseText_def str_def two_def)
  also have "\<dots> \<longleftrightarrow> y div 100 = 0 \<and> y mod 100 = 0 \<and> mo = 0 \<and> d = 0" 
    using assms by (simp add: two_zero)
  also have "\<dots> \<longleftrightarrow> y = 0 \<and> mo = 0 \<and> d = 0" by auto
  finally show ?thesis .
qed

lemma clock_zero:
  assumes "h < 100" "mi < 100" "s < 100"
  shows "0x20 # two h @ 0x3a # two mi @ 0x3a # two s = take 9 (drop 10 baseText) \<longleftrightarrow> h = 0 \<and> mi = 0 \<and> s = 0"
proof -
  have "0x20 # two h @ 0x3a # two mi @ 0x3a # two s = take 9 (drop 10 baseText) \<longleftrightarrow>
      two h = [0x30, 0x30] \<and> two mi = [0x30, 0x30] \<and> two s = [0x30, 0x30]"
    by (auto simp: baseText_def str_def two_def)
  then show ?thesis using assms by (simp add: two_zero)
qed

lemma frac_zero:
  assumes "us < 1000000" and "k \<in> {1, 2, 3, 4, 5, 6}"
  shows "take k (fracDigits us) = replicate k 0x30 \<longleftrightarrow> us div 10 ^ (6 - k) = 0"
proof
  have k: "k \<le> 6" using assms(2) by auto
  have "numeral_of (replicate k 0x30) = 0" for k by (induction k) (simp_all add: numeral_of_def)
  then show "us div 10 ^ (6 - k) = 0" if "take k (fracDigits us) = replicate k 0x30"
    using numeral_frac [OF assms(1) k] that by simp
next
  assume "us div 10 ^ (6 - k) = 0"
  then have "us < 10 ^ (6 - k)" by (simp add: div_eq_0_iff)
  moreover have "replicate 2 x = [x, x]" "replicate 3 x = [x, x, x]" "replicate 4 x = [x, x, x, x]"
    "replicate 5 x = [x, x, x, x, x]" "replicate 6 x = [x, x, x, x, x, x]" for x :: byte
    by (simp_all add: numeral_eq_Suc)
  ultimately show "take k (fracDigits us) = replicate k 0x30"
    using assms(2) unfolding fracDigits_map
    by (elim insertE emptyE; simp only:; simp add: dig_zero)
qed

lemma baseText_prefixes:
  "take 19 baseText = take 10 baseText @ take 9 (drop 10 baseText)"
  "k \<le> 6 \<Longrightarrow> take (20 + k) baseText = take 10 baseText @ take 9 (drop 10 baseText) @ 0x2e # replicate k 0x30"
proof -
  let ?a = "take 10 baseText @ take 9 (drop 10 baseText) @ [0x2e]"
  have "baseText = ?a @ replicate 7 0x30" by code_simp
  moreover have "length ?a = 20" by (simp add: baseText_def)
  ultimately have "take (20 + k) baseText = ?a @ take k (replicate 7 0x30)" by (metis take_behind20)
  then show "k \<le> 6 \<Longrightarrow> take (20 + k) baseText = take 10 baseText @ take 9 (drop 10 baseText) @ 0x2e # replicate k 0x30"
    by (simp add: min_absorb1)
qed code_simp

lemma length_dateTimeText: "length (dateTimeText y mo d h mi s us) = 26"
  by (simp add: dateTimeText_def clockText_def dateText_def two_def)

lemma prefix_cases:
  assumes "n \<in> {10, 19, 21, 22, 23, 24, 25, 26}"
  obtains "n = 10" | "n = 19" | k where "n = 20 + k" and "k \<in> {1, 2, 3, 4, 5, 6}"
  using assms by force

lemma text_zero:
  assumes "y < 10000" "mo < 100" "d < 100" "h < 100" "mi < 100" "s < 100" "us < 1000000"
    and "n \<in> {10, 19, 21, 22, 23, 24, 25, 26}"
  shows "take n (dateTimeText y mo d h mi s us) = take n baseText \<longleftrightarrow> isZero (shown n y mo d h mi s us)"
proof -
  note date = dateText_zero [OF assms(1-3)] and clock = clock_zero [OF assms(4-6)]
  have l: "length (dateText y mo d) = length (take 10 baseText)" by (simp add: dateText_def two_def baseText_def)
  from assms(8) show ?thesis
  proof (cases rule: prefix_cases)
    case 1
    then show ?thesis using date by (simp add: text_prefixes isZero_def shown_def)
  next
    case 2
    then show ?thesis
      using l date clock assms(7) by (simp add: text_prefixes baseText_prefixes isZero_def shown_def del: take_drop)
  next
    case (3 k)
    let ?c = "0x20 # two h @ 0x3a # two mi @ 0x3a # two s" and ?z = "take 9 (drop 10 baseText)"
    have k: "k \<le> 6" "n \<noteq> 10" "26 - n = 6 - k" using 3 by auto
    have "length ?c = length ?z" by (simp add: two_def baseText_def)
    then have "?c @ 0x2e # take k (fracDigits us) = ?z @ 0x2e # replicate k 0x30 \<longleftrightarrow>
        ?c = ?z \<and> take k (fracDigits us) = replicate k 0x30"
      by (simp only: append_eq_append_conv list.inject simp_thms)
    then have "dateText y mo d @ ?c @ 0x2e # take k (fracDigits us) = take 10 baseText @ ?z @ 0x2e # replicate k 0x30 \<longleftrightarrow>
        (y = 0 \<and> mo = 0 \<and> d = 0) \<and> (h = 0 \<and> mi = 0 \<and> s = 0) \<and> us div 10 ^ (6 - k) = 0"
      by (simp only: append_eq_append_conv [OF disjI1 [OF l]] date clock frac_zero [OF assms(7) 3(2)])
    then show ?thesis
      using k by (simp add: text_prefixes baseText_prefixes isZero_def shown_def 3(1) del: take_drop)
  qed
qed

lemma timeParse_text:
  assumes "y < 10000" "mo < 100" "d < 100" "h < 100" "mi < 100" "s < 100" "us < 1000000"
    and "n \<in> {10, 19, 21, 22, 23, 24, 25, 26}"
  shows "timeParse (take n TimeFormat) (take n (dateTimeText y mo d h mi s us)) =
    (if isTime (shown n y mo d h mi s us) then Ok (shown n y mo d h mi s us) else Err TimeParse)"
proof -
  note date = parseLoop_date [OF assms(1-3)] and clock = parseLoop_clock [OF assms(4-6)]
  from assms(8) show ?thesis
  proof (cases rule: prefix_cases)
    case 1
    then show ?thesis
      using date [of "[]" "[]"]
      by (auto simp: timeParse_def text_prefixes layout_prefixes parseLoop_end isTime_def shown_def)
  next
    case 2
    then show ?thesis
      using assms(7) clock [of "[]" "[]"]
      by (auto simp: timeParse_def text_prefixes layout_prefixes parseLoop_end isTime_def shown_def date)
  next
    case (3 k)
    have k: "1 \<le> k" "k \<le> 6" "n \<noteq> 10" "26 - n = 6 - k" using 3 by auto
    have "10 ^ (9 - k) = (10 :: nat) ^ (6 - k) * 1000"
      using k(2) power_add [of "10 :: nat" "6 - k" 3] by simp
    then have ns: "us div 10 ^ (6 - k) * 10 ^ (9 - k) = us div 10 ^ (6 - k) * 10 ^ (6 - k) * 1000" by simp
    have f: "parseLoop (0x2e # replicate k 0x39) (0x2e # take k (fracDigits us)) c =
        Some (c\<lparr>cv_nsec := us div 10 ^ (6 - k) * 10 ^ (6 - k) * 1000\<rparr>)" for c
      unfolding parseLoop_step [OF nextStdChunk_fraction [OF 3(2)] skip.simps(1)]
      by (simp add: getfrac_digits [OF assms(7) k(1,2)] parseLoop_end ns)
    show ?thesis
      using k(2-4) nextStdChunk_fraction [OF 3(2)]
      by (auto simp: 3(1) timeParse_def text_prefixes layout_prefixes date clock f isTime_def shown_def simp del: nextStdChunk.simps)
  qed
qed

lemma parseDateTime_shown:
  assumes "y < 10000" "mo < 100" "d < 100" "h < 100" "mi < 100" "s < 100" "us < 1000000"
    and "n \<in> {10, 19, 21, 22, 23, 24, 25, 26}"
  shows "parseDateTime (take n (dateTimeText y mo d h mi s us)) loc =
    (let c = shown n y mo d h mi s us
     in if isZero c then Ok zeroTime else if isTime c then Ok (dateOf c loc) else Err TimeParse)"
proof -
  have "length (take n (dateTimeText y mo d h mi s us)) = n" using assms(8) by (auto simp: length_dateTimeText)
  then show ?thesis
    using assms(8) text_zero [OF assms] timeParse_text [OF assms]
    by (simp add: parseDateTime_def Let_def split: location.split del: length_take insert_iff)
qed

text \<open>C39: the text of a DATE or DATETIME of any length is read as the time it shows; the zero date, in any of its
  lengths, is the zero time; and a text that shows no time of the calendar (month 13, the 30th of February,
  hour 24) is an error. Any other length is an error too.\<close>

theorem parseDateTime_text:
  assumes "y < 10000" "mo < 100" "d < 100" "h < 100" "mi < 100" "s < 100" "us < 1000000"
    and "n \<in> {10, 19, 21, 22, 23, 24, 25, 26}"
  shows "parseDateTime (take n (dateTimeText y mo d h mi s us)) loc =
    (let c = shown n y mo d h mi s us
     in if isZero c then Ok zeroTime else if isTime c then Ok (dateOf c loc) else Err TimeParse)"
  using assms by (rule parseDateTime_shown)

theorem parseDateTime_text_witness:
  "parseDateTime (take 23 (dateTimeText 2016 2 29 23 5 59 120456)) UTC =
    (let c = shown 23 2016 2 29 23 5 59 120456
     in if isZero c then Ok zeroTime else if isTime c then Ok (dateOf c UTC) else Err TimeParse)"
  by (rule parseDateTime_text) simp_all

lemma dateOf_shown: "dateOf (shown 26 y mo d h mi s us) loc =
    goDate (int y) (int mo) (int d) (int h) (int mi) (int s) (int us * 1000) loc"
  by (simp add: dateOf_def shown_def)

lemma zero_shown: "isZero (shown 26 y mo d h mi s us) \<longleftrightarrow> binDateTime y mo d h mi s us = []"
  by (auto simp: isZero_def shown_def binDateTime_def putUint16_def)

text \<open>C40: the two ways a date comes from the database agree. A binary DATETIME is read as the time with its
  fields, those beyond their range carried over, or as the zero time when it is empty. Its text, read as
  text, is the same time for every time of the calendar and the zero date, and this is what \<^verbatim>\<open>NullTime\<close>
  scans. A time that is not in the calendar (MySQL has such) is an error as text, while the binary value is
  read all the same.\<close>

theorem text_binary_agree:
  assumes "y < 10000" "mo < 100" "d < 100" "h < 100" "mi < 100" "s < 100" "us < 1000000"
  shows "\<exists>text. formatBinaryDateTime spare (binDateTime y mo d h mi s us) 26 False = Ok text \<and>
    (let bin = binDateTime y mo d h mi s us; c = shown 26 y mo d h mi s us;
         t = \<lambda>loc. if bin = [] then zeroTime else goDate (int y) (int mo) (int d) (int h) (int mi) (int s) (int us * 1000) loc
     in parseBinaryDateTime (of_nat (length bin)) (slice (bin @ r)) loc = Ok (t loc) \<and>
        parseDateTime text loc = (if isTime c \<or> isZero c then Ok (t loc) else Err TimeParse) \<and>
        NullTime_Scan nt (BytesValue text) =
          (if isTime c \<or> isZero c then (Ok (), \<lparr>Time = t UTC, Valid = True\<rparr>)
           else (Err TimeParse, \<lparr>Time = zeroTime, Valid = False\<rparr>)))"
proof -
  let ?b = "binDateTime y mo d h mi s us" and ?c = "shown 26 y mo d h mi s us" and ?t = "dateTimeText y mo d h mi s us"
  have "formatBinaryDateTime spare ?b 26 False = Ok (take (unat (26 :: byte)) ?t)"
    by (rule formatBinaryDateTime_text [OF assms]) simp
  then have f: "formatBinaryDateTime spare ?b 26 False = Ok ?t" by (simp add: length_dateTimeText)
  define t where "t loc = (if ?b = [] then zeroTime
    else goDate (int y) (int mo) (int d) (int h) (int mi) (int s) (int us * 1000) loc)" for loc
  have b: "parseBinaryDateTime (of_nat (length ?b)) (slice (?b @ r)) loc = Ok (t loc)" for loc
    using parseBinaryDateTime_read [of y mo d h mi s us r loc] assms by (auto simp: t_def)
  have "take 26 ?t = ?t" by (simp add: length_dateTimeText)
  then have p: "parseDateTime ?t loc = (if isTime ?c \<or> isZero ?c then Ok (t loc) else Err TimeParse)" for loc
    using parseDateTime_shown [OF assms, of 26 loc] by (auto simp: Let_def zero_shown t_def dateOf_shown)
  then have "NullTime_Scan nt (BytesValue ?t) =
      (if isTime ?c \<or> isZero ?c then (Ok (), \<lparr>Time = t UTC, Valid = True\<rparr>) else (Err TimeParse, \<lparr>Time = zeroTime, Valid = False\<rparr>))"
    by (simp add: scanText_def)
  with f b p show ?thesis unfolding Let_def t_def by blast
qed

theorem text_binary_agree_witness:
  "\<exists>text. formatBinaryDateTime [] (binDateTime 2016 2 30 1 2 3 4) 26 False = Ok text \<and>
    (let bin = binDateTime 2016 2 30 1 2 3 4; c = shown 26 2016 2 30 1 2 3 4;
         t = \<lambda>loc. if bin = [] then zeroTime else goDate (int 2016) (int 2) (int 30) (int 1) (int 2) (int 3) (int 4 * 1000) loc
     in parseBinaryDateTime (of_nat (length bin)) (slice (bin @ [])) UTC = Ok (t UTC) \<and>
        parseDateTime text UTC = (if isTime c \<or> isZero c then Ok (t UTC) else Err TimeParse) \<and>
        NullTime_Scan \<lparr>Time = zeroTime, Valid = False\<rparr> (BytesValue text) =
          (if isTime c \<or> isZero c then (Ok (), \<lparr>Time = t UTC, Valid = True\<rparr>)
           else (Err TimeParse, \<lparr>Time = zeroTime, Valid = False\<rparr>)))"
  by (rule text_binary_agree) simp_all

end
