(* ===== verification/Mysql_Tls.thy ===== *)
theory Mysql_Tls
  imports Go_Prelude
begin

text \<open>
  The registry of TLS configurations in \<^verbatim>\<open>server/utils.go\<close>: \<open>RegisterTLSConfig\<close>, \<open>DeregisterTLSConfig\<close> and the
  reader of boolean texts, whose words are reserved. A configuration is any value of type \<open>'c\<close>.
\<close>

text \<open>The value, when the text is one of a boolean.\<close>

definition readBool :: "byte list \<Rightarrow> bool \<times> bool" where
  "readBool input =
     (if input \<in> set [str ''1'', str ''true'', str ''TRUE'', str ''True''] then (True, True)
      else if input \<in> set [str ''0'', str ''false'', str ''FALSE'', str ''False''] then (False, True)
      else (False, False))"

text \<open>\<^verbatim>\<open>strings.ToLower\<close>, as far as its result is compared with ASCII text: besides the capital letters, the
  Kelvin sign and the capital I with a dot are the only characters whose lower case is in ASCII.\<close>

fun ToLower :: "byte list \<Rightarrow> byte list" where
  "ToLower [] = []"
| "ToLower (c # s) =
     (if c = 0xe2 \<and> take 2 s = [0x84, 0xaa] then 0x6b # ToLower (drop 2 s)
      else if c = 0xc4 \<and> take 1 s = [0xb0] then 0x69 # ToLower (drop 1 s)
      else (if 0x41 \<le> c \<and> c \<le> 0x5a then c + 0x20 else c) # ToLower s)"

definition reservedKey :: "byte list \<Rightarrow> bool" where
  "reservedKey key \<longleftrightarrow> snd (readBool key) \<or> ToLower key = str ''skip-verify''"

text \<open>\<^verbatim>\<open>tlsConfigRegister\<close>: \<open>None\<close> until the first configuration is registered.\<close>

type_synonym 'c registry = "(byte list \<rightharpoonup> 'c) option"

definition RegisterTLSConfig :: "'c registry \<Rightarrow> byte list \<Rightarrow> 'c \<Rightarrow> unit res \<times> 'c registry" where
  "RegisterTLSConfig reg key config =
     (if reservedKey key then (Err (ReservedKey key), reg)
      else
        (let m = (case reg of None \<Rightarrow> Map.empty | Some m \<Rightarrow> m)
         in (Ok (), Some (m(key \<mapsto> config)))))"

definition DeregisterTLSConfig :: "'c registry \<Rightarrow> byte list \<Rightarrow> 'c registry" where
  "DeregisterTLSConfig reg key = (case reg of None \<Rightarrow> None | Some m \<Rightarrow> Some (m(key := None)))"

text \<open>What is registered under a key.\<close>

definition registered :: "'c registry \<Rightarrow> byte list \<rightharpoonup> 'c" where
  "registered reg = (case reg of None \<Rightarrow> Map.empty | Some m \<Rightarrow> m)"

text \<open>A key that is not reserved, and only that key, is set by the one function and cleared by the other.\<close>

lemma register_deregister:
  assumes "\<not> reservedKey key"
  shows "fst (RegisterTLSConfig reg key c) = Ok ()"
    and "registered (snd (RegisterTLSConfig reg key c)) = (registered reg)(key \<mapsto> c)"
    and "registered (DeregisterTLSConfig (snd (RegisterTLSConfig reg key c)) key) = (registered reg)(key := None)"
  using assms
  by (auto simp: RegisterTLSConfig_def DeregisterTLSConfig_def registered_def Let_def split: option.split)

text \<open>No reserved key is ever registered, so \<^verbatim>\<open>tls=true\<close> and \<^verbatim>\<open>tls=skip-verify\<close> keep their meaning.\<close>

lemma reserved_never_registered:
  assumes "\<forall>key. reservedKey key \<longrightarrow> registered reg key = None"
  shows "\<forall>key. reservedKey key \<longrightarrow> registered (snd (RegisterTLSConfig reg k c)) key = None"
  using assms by (auto simp: RegisterTLSConfig_def registered_def Let_def split: option.splits)

lemma reserved_words:
  "reservedKey (str ''true'')" "reservedKey (str ''0'')" "reservedKey (str ''Skip-Verify'')" "\<not> reservedKey (str ''custom'')"
  by code_simp+

end
