(* ===== verification/Server_Buffer.thy ===== *)
theory Server_Buffer
  imports Mysql_Const
begin

text \<open>
  \<^verbatim>\<open>server/buffer.go\<close>: the buffer a connection reads from and writes through, and the socket under
  it. A socket is what the program sees of a \<^verbatim>\<open>net.Conn\<close>: the results its \<^verbatim>\<open>Read\<close> calls will
  give, the bytes written to it, the results its \<^verbatim>\<open>Write\<close> calls will give and whether setting a
  deadline fails. \<open>readNext\<close> refines reading from a byte stream: how the bytes were cut into
  \<^verbatim>\<open>Read\<close> results does not matter.
\<close>

section \<open>Sockets\<close>

text \<open>One \<^verbatim>\<open>Read\<close>: the bytes it gives and its error. A result longer than the space offered is given
  in parts; after the last result the peer has closed.\<close>

datatype rd_event = Rd "byte list" "sock_err option"

text \<open>One \<^verbatim>\<open>Write\<close>: how many bytes it takes and its error. With no result left a \<^verbatim>\<open>Write\<close> takes
  everything.\<close>

record sock =
  rx :: "rd_event list"
  tx :: "byte list"
  wr :: "(nat \<times> sock_err option) list"
  dl_err :: "sock_err option"

fun sockRead :: "nat \<Rightarrow> rd_event list \<Rightarrow> byte list \<times> sock_err option \<times> rd_event list" where
  "sockRead k [] = ([], Some EOF, [])"
| "sockRead k (Rd bs e # es) =
     (if length bs \<le> k then (bs, e, es) else (take k bs, None, Rd (drop k bs) e # es))"

fun sockWrite :: "byte list \<Rightarrow> sock \<Rightarrow> nat \<times> sock_err option \<times> sock" where
  "sockWrite p s =
     (case wr s of
        [] \<Rightarrow> (length p, None, s\<lparr>tx := tx s @ p\<rparr>)
      | (n, e) # ws \<Rightarrow> (min n (length p), e, s\<lparr>tx := tx s @ take n p, wr := ws\<rparr>))"

text \<open>The bytes still to come, and that none of them comes with an error.\<close>

fun rxData :: "rd_event list \<Rightarrow> byte list" where
  "rxData [] = []"
| "rxData (Rd bs e # es) = bs @ rxData es"

fun clean :: "rd_event list \<Rightarrow> bool" where
  "clean [] = True"
| "clean (Rd bs e # es) = (e = None \<and> clean es)"

fun rxSize :: "rd_event list \<Rightarrow> nat" where
  "rxSize [] = 0"
| "rxSize (Rd bs e # es) = Suc (length bs) + rxSize es"

lemma sockRead_length: "sockRead k es = (bs, e, es') \<Longrightarrow> length bs \<le> k"
  by (induction k es rule: sockRead.induct) (auto split: if_splits)

lemma sockRead_size: "sockRead k es = (bs, None, es') \<Longrightarrow> 0 < k \<Longrightarrow> rxSize es' < rxSize es"
  by (induction k es rule: sockRead.induct) (auto split: if_splits)

lemma sockRead_shrinks:
  "(bs, y) = sockRead k es \<Longrightarrow> (None, es') = y \<Longrightarrow> 0 < k \<Longrightarrow> rxSize es' < rxSize es"
  using sockRead_size [of k es bs es'] by simp

lemma sockRead_data: "sockRead k es = (bs, e, es') \<Longrightarrow> rxData es = bs @ rxData es'"
  by (induction k es rule: sockRead.induct) (auto split: if_splits)

lemma sockRead_clean:
  "sockRead k es = (bs, e, es') \<Longrightarrow> clean es \<Longrightarrow>
     clean es' \<and> (e = None \<or> (e = Some EOF \<and> bs = [] \<and> rxData es = [] \<and> rxData es' = []))"
  by (induction k es rule: sockRead.induct) (auto split: if_splits)

section \<open>The buffer\<close>

definition defaultBufSize :: nat where "defaultBufSize = 4096"

text \<open>
  \<^verbatim>\<open>b_nc\<close> is the socket. \<open>b_old\<close> holds the arrays the buffer has replaced by larger ones: slices
  handed out earlier still point into them. The array in use is number \<open>length b_old\<close>.
\<close>

record buffer =
  b_buf :: "byte list"
  b_nc :: "sock option"
  b_idx :: nat
  b_len :: nat
  b_timeout :: int
  b_old :: "byte list list"

definition newBuffer :: "sock option \<Rightarrow> buffer" where
  "newBuffer nc = \<lparr>b_buf = replicate defaultBufSize 0, b_nc = nc, b_idx = 0, b_len = 0, b_timeout = 0,
     b_old = []\<rparr>"

text \<open>The read loop of \<open>fill\<close>. A \<^verbatim>\<open>Read\<close> into an empty slice gives nothing and no error, so the loop
  would never end: \<open>Spin\<close>.\<close>

function fillLoop ::
  "byte list \<Rightarrow> nat \<Rightarrow> nat \<Rightarrow> int \<Rightarrow> sock \<Rightarrow> nat res \<times> byte list \<times> sock" where
  "fillLoop buf n need timeout s =
     (if 0 < timeout \<and> dl_err s \<noteq> None then (Err (SockErr (the (dl_err s))), buf, s)
      else
        (case sockRead (length buf - n) (rx s) of
           (bs, e, rx') \<Rightarrow>
             (let buf' = copyAt buf n bs; n' = n + length bs; s' = s\<lparr>rx := rx'\<rparr> in
              case e of
                None \<Rightarrow>
                  if n' < need
                  then (if length buf \<le> n' then (Spin, buf', s') else fillLoop buf' n' need timeout s')
                  else (Ok n', buf', s')
              | Some EOF \<Rightarrow> if need \<le> n' then (Ok n', buf', s') else (Err UnexpectedEOF, buf', s')
              | Some (NetErr k) \<Rightarrow> (Err (SockErr (NetErr k)), buf', s'))))"
  by pat_completeness auto
termination
proof (relation "measure (\<lambda>(buf, n, need, t, s). rxSize (rx s))", goal_cases)
  case 1
  show ?case by simp
next
  case 2
  then show ?case by (auto dest: sockRead_shrinks)
qed

declare fillLoop.simps [simp del]

text \<open>The array \<open>fill\<close> reads into: unread bytes moved to its front, grown when \<open>need\<close> does not fit.
  The array left behind stays as it was for the slices that point into it.\<close>

definition movedArray :: "buffer \<Rightarrow> byte list" where
  "movedArray b =
     (let n = b_len b in
      if 0 < n \<and> 0 < b_idx b then copyAt (b_buf b) 0 (take n (drop (b_idx b) (b_buf b))) else b_buf b)"

definition fillArray :: "buffer \<Rightarrow> nat \<Rightarrow> byte list" where
  "fillArray b need =
     (if length (b_buf b) < need
      then copyAt (replicate ((need div defaultBufSize + 1) * defaultBufSize) 0) 0 (movedArray b)
      else movedArray b)"

definition fillOld :: "buffer \<Rightarrow> nat \<Rightarrow> byte list list" where
  "fillOld b need = (if length (b_buf b) < need then b_old b @ [movedArray b] else b_old b)"

definition fill :: "buffer \<Rightarrow> nat \<Rightarrow> unit res \<times> buffer" where
  "fill b need =
     (let arr = fillArray b need; b1 = b\<lparr>b_buf := arr, b_idx := 0, b_old := fillOld b need\<rparr>
      in case b_nc b of
           None \<Rightarrow> (Panic, b1)
         | Some s \<Rightarrow>
             (case fillLoop arr (b_len b) need (b_timeout b) s of
                (r, arr', s') \<Rightarrow>
                  (case r of
                     Ok n' \<Rightarrow> (Ok (), b1\<lparr>b_buf := arr', b_nc := Some s', b_len := n'\<rparr>)
                   | Err e \<Rightarrow> (Err e, b1\<lparr>b_buf := arr', b_nc := Some s'\<rparr>)
                   | Panic \<Rightarrow> (Panic, b1\<lparr>b_buf := arr', b_nc := Some s'\<rparr>)
                   | Spin \<Rightarrow> (Spin, b1\<lparr>b_buf := arr', b_nc := Some s'\<rparr>))))"

definition readNext :: "buffer \<Rightarrow> nat \<Rightarrow> gslice res \<times> buffer" where
  "readNext b need =
     bindS (if b_len b < need then fill b need else (Ok (), b)) (\<lambda>_ b.
       if b_idx b + need \<le> length (b_buf b)
       then (Ok \<lparr>vis = take need (drop (b_idx b) (b_buf b)), ext = drop (b_idx b + need) (b_buf b),
             org = Some (length (b_old b), b_idx b)\<rparr>,
             b\<lparr>b_idx := b_idx b + need, b_len := b_len b - need\<rparr>)
       else (Panic, b\<lparr>b_idx := b_idx b + need, b_len := b_len b - need\<rparr>))"

text \<open>
  A slice taken for writing: \<open>nil\<close> when unread bytes are in the buffer, else the bytes it holds and
  whether it is a part of the buffer's own array (\<open>True\<close>) or an array of its own.
\<close>

definition takeBuffer :: "buffer \<Rightarrow> nat \<Rightarrow> (byte list \<times> bool) option res \<times> buffer" where
  "takeBuffer b length' =
     (if 0 < b_len b then (Ok None, b)
      else if length' \<le> defaultBufSize \<or> length' \<le> length (b_buf b) then
        (if length' \<le> length (b_buf b) then (Ok (Some (take length' (b_buf b), True)), b) else (Panic, b))
      else if length' < MaxPacketSize then
        (Ok (Some (replicate length' 0, True)), b\<lparr>b_buf := replicate length' 0, b_old := b_old b @ [b_buf b]\<rparr>)
      else (Ok (Some (replicate length' 0, False)), b))"

definition takeSmallBuffer :: "buffer \<Rightarrow> nat \<Rightarrow> (byte list \<times> bool) option res \<times> buffer" where
  "takeSmallBuffer b length' =
     (if b_len b = 0
      then (if length' \<le> length (b_buf b) then (Ok (Some (take length' (b_buf b), True)), b) else (Panic, b))
      else (Ok None, b))"

definition takeCompleteBuffer :: "buffer \<Rightarrow> (byte list \<times> bool) option \<times> buffer" where
  "takeCompleteBuffer b = (if b_len b = 0 then (Some (b_buf b, True), b) else (None, b))"

text \<open>What was written through a slice of the buffer's own array stays in it.\<close>

definition writeBack :: "bool \<Rightarrow> byte list \<Rightarrow> buffer \<Rightarrow> buffer" where
  "writeBack own data b = (if own then b\<lparr>b_buf := copyAt (b_buf b) 0 data\<rparr> else b)"

section \<open>The stream behind a buffer\<close>

definition wf_buffer :: "buffer \<Rightarrow> bool" where
  "wf_buffer b \<longleftrightarrow> b_idx b + b_len b \<le> length (b_buf b) \<and> defaultBufSize \<le> length (b_buf b)"

definition unread :: "buffer \<Rightarrow> byte list" where
  "unread b = take (b_len b) (drop (b_idx b) (b_buf b))"

definition stream :: "buffer \<Rightarrow> byte list" where
  "stream b = unread b @ (case b_nc b of None \<Rightarrow> [] | Some s \<Rightarrow> rxData (rx s))"

definition readable :: "buffer \<Rightarrow> bool" where
  "readable b \<longleftrightarrow> wf_buffer b \<and>
     (\<exists>s. b_nc b = Some s \<and> clean (rx s) \<and> (0 < b_timeout b \<longrightarrow> dl_err s = None))"

text \<open>What reading leaves alone: the bytes sent, the results writes will have, the deadlines.\<close>

definition sendSide :: "buffer \<Rightarrow> (byte list \<times> (nat \<times> sock_err option) list \<times> sock_err option) option \<times> int" where
  "sendSide b = (map_option (\<lambda>s. (tx s, wr s, dl_err s)) (b_nc b), b_timeout b)"

lemma length_unread: "wf_buffer b \<Longrightarrow> length (unread b) = b_len b"
  by (auto simp: wf_buffer_def unread_def)

lemma newBuffer_wf: "wf_buffer (newBuffer nc)"
  by (simp add: newBuffer_def wf_buffer_def)

lemma newBuffer_stream: "stream (newBuffer (Some s)) = rxData (rx s)"
  by (simp add: newBuffer_def stream_def unread_def)

lemma newBuffer_readable: "clean (rx s) \<Longrightarrow> readable (newBuffer (Some s))"
  by (simp add: readable_def newBuffer_wf) (simp add: newBuffer_def)

section \<open>fill and readNext\<close>

lemma rx_update_frame [simp]:
  "tx (s\<lparr>rx := r\<rparr>) = tx s" "wr (s\<lparr>rx := r\<rparr>) = wr s" "dl_err (s\<lparr>rx := r\<rparr>) = dl_err s"
  by simp_all

lemma fillLoop_read:
  assumes "sockRead (length buf - n) (rx s) = (bs, e, r)"
  shows "fillLoop buf n need t s =
    (if 0 < t \<and> dl_err s \<noteq> None then (Err (SockErr (the (dl_err s))), buf, s)
     else case e of
       None \<Rightarrow>
         if n + length bs < need
         then (if length buf \<le> n + length bs then (Spin, copyAt buf n bs, s\<lparr>rx := r\<rparr>)
               else fillLoop (copyAt buf n bs) (n + length bs) need t (s\<lparr>rx := r\<rparr>))
         else (Ok (n + length bs), copyAt buf n bs, s\<lparr>rx := r\<rparr>)
     | Some EOF \<Rightarrow>
         if need \<le> n + length bs then (Ok (n + length bs), copyAt buf n bs, s\<lparr>rx := r\<rparr>)
         else (Err UnexpectedEOF, copyAt buf n bs, s\<lparr>rx := r\<rparr>)
     | Some (NetErr k) \<Rightarrow> (Err (SockErr (NetErr k)), copyAt buf n bs, s\<lparr>rx := r\<rparr>))"
  by (subst fillLoop.simps) (simp only: assms Let_def prod.case)

text \<open>With enough bytes to come the loop ends with at least \<open>need\<close> bytes in the array and loses none.\<close>

lemma fillLoop_enough:
  assumes "clean (rx s)" and "0 < t \<longrightarrow> dl_err s = None"
    and "n < need" and "need \<le> length buf" and "need \<le> n + length (rxData (rx s))"
  shows "\<exists>n' buf' r. fillLoop buf n need t s = (Ok n', buf', s\<lparr>rx := r\<rparr>) \<and> need \<le> n' \<and> n' \<le> length buf' \<and>
    length buf' = length buf \<and> take n' buf' @ rxData r = take n buf @ rxData (rx s) \<and> clean r"
  using assms
proof (induction buf n need t s rule: fillLoop.induct)
  case (1 buf n need t s)
  obtain bs e r where rd: "sockRead (length buf - n) (rx s) = (bs, e, r)" by (metis prod_cases3)
  have len: "length bs \<le> length buf - n" by (rule sockRead_length [OF rd])
  have data: "rxData (rx s) = bs @ rxData r" by (rule sockRead_data [OF rd])
  from sockRead_clean [OF rd \<open>clean (rx s)\<close>] 1 data
  have e: "e = None" and cl: "clean r" by auto
  let ?n = "n + length bs" and ?buf = "copyAt buf n bs"
  have tk: "take ?n ?buf = take n buf @ bs" using len 1 by (intro take_copyAt) auto
  have lb: "length ?buf = length buf" using 1 by simp
  show ?case
  proof (cases "?n < need")
    case True
    with 1 have "\<not> length buf \<le> ?n" by simp
    with True 1 rd e
    have "fillLoop buf n need t s = fillLoop ?buf ?n need t (s\<lparr>rx := r\<rparr>)"
      by (subst fillLoop.simps) auto
    moreover have "\<exists>n' buf' r'. fillLoop ?buf ?n need t (s\<lparr>rx := r\<rparr>) = (Ok n', buf', s\<lparr>rx := r, rx := r'\<rparr>) \<and>
        need \<le> n' \<and> n' \<le> length buf' \<and> length buf' = length ?buf \<and>
        take n' buf' @ rxData r' = take ?n ?buf @ rxData (rx (s\<lparr>rx := r\<rparr>)) \<and> clean r'"
      using 1(1) [of bs "(e, r)" e r ?buf ?n "s\<lparr>rx := r\<rparr>"] True 1 rd e cl data lb by auto
    ultimately show ?thesis using tk data lb by auto
  next
    case False
    with 1 rd e have "fillLoop buf n need t s = (Ok ?n, ?buf, s\<lparr>rx := r\<rparr>)"
      by (subst fillLoop.simps) auto
    with False tk data lb cl len 1 show ?thesis by auto
  qed
qed

text \<open>With too few it reports that the stream ended early.\<close>

lemma fillLoop_short:
  assumes "clean (rx s)" and "0 < t \<longrightarrow> dl_err s = None"
    and "n < need" and "need \<le> length buf" and "n + length (rxData (rx s)) < need"
  shows "\<exists>buf' r. fillLoop buf n need t s = (Err UnexpectedEOF, buf', s\<lparr>rx := r\<rparr>) \<and>
    length buf' = length buf \<and> clean r"
  using assms
proof (induction buf n need t s rule: fillLoop.induct)
  case (1 buf n need t s)
  obtain bs e r where rd: "sockRead (length buf - n) (rx s) = (bs, e, r)" by (metis prod_cases3)
  have data: "rxData (rx s) = bs @ rxData r" by (rule sockRead_data [OF rd])
  have cl: "clean r" and e: "e = None \<or> e = Some EOF" using sockRead_clean [OF rd \<open>clean (rx s)\<close>] by auto
  let ?n = "n + length bs" and ?buf = "copyAt buf n bs"
  have lb: "length ?buf = length buf" and lt: "?n < need" using 1 data by auto
  with 1 have "\<not> length buf \<le> ?n" by simp
  show ?case
  proof (cases e)
    case None
    with 1 rd lt \<open>\<not> length buf \<le> ?n\<close>
    have "fillLoop buf n need t s = fillLoop ?buf ?n need t (s\<lparr>rx := r\<rparr>)"
      by (subst fillLoop.simps) auto
    moreover have "\<exists>buf' r'. fillLoop ?buf ?n need t (s\<lparr>rx := r\<rparr>) = (Err UnexpectedEOF, buf', s\<lparr>rx := r, rx := r'\<rparr>) \<and>
        length buf' = length ?buf \<and> clean r'"
      using 1(1) [of bs "(e, r)" e r ?buf ?n "s\<lparr>rx := r\<rparr>"] 1 rd None cl data lb lt by auto
    ultimately show ?thesis using lb by auto
  next
    case (Some k)
    with e 1 rd lt have "fillLoop buf n need t s = (Err UnexpectedEOF, ?buf, s\<lparr>rx := r\<rparr>)"
      by (subst fillLoop.simps) auto
    with lb cl show ?thesis by auto
  qed
qed

lemma length_movedArray [simp]: "length (movedArray b) = length (b_buf b)"
  by (simp add: movedArray_def Let_def)

lemma moved_front:
  assumes "wf_buffer b"
  shows "take (b_len b) (movedArray b) = unread b"
proof -
  have "take (0 + length (unread b)) (copyAt (b_buf b) 0 (unread b)) = take 0 (b_buf b) @ unread b"
    using assms length_unread [OF assms] by (intro take_copyAt) (simp add: wf_buffer_def)
  then show ?thesis
    using length_unread [OF assms] by (auto simp: movedArray_def unread_def Let_def simp del: length_take)
qed

lemma grown_front:
  fixes buf :: "byte list"
  assumes "n \<le> length buf" and "length buf < need"
  defines "big \<equiv> copyAt (replicate ((need div defaultBufSize + 1) * defaultBufSize) 0) 0 buf"
  shows "take n big = take n buf" and "need < length big"
proof -
  have "need < (need div defaultBufSize + 1) * defaultBufSize"
    using div_mult_mod_eq [of need defaultBufSize] mod_less_divisor [of defaultBufSize need]
    by (simp add: defaultBufSize_def algebra_simps)
  with assms show "take n big = take n buf" and "need < length big"
    by (auto simp: big_def copyAt_fits)
qed

lemma fillArray_props:
  assumes wf: "wf_buffer b"
  shows "take (b_len b) (fillArray b need) = unread b"
    and "need \<le> length (fillArray b need)" and "length (b_buf b) \<le> length (fillArray b need)"
proof -
  have len1: "b_len b \<le> length (movedArray b)" using wf by (simp add: wf_buffer_def)
  show "take (b_len b) (fillArray b need) = unread b"
    using moved_front [OF wf] grown_front(1) [OF len1, of need]
    by (simp add: fillArray_def del: mult_Suc add_mult_distrib)
  show "need \<le> length (fillArray b need)" and "length (b_buf b) \<le> length (fillArray b need)"
    using grown_front(2) [OF len1, of need] by (auto simp: fillArray_def simp del: mult_Suc)
qed

text \<open>\<open>fill\<close> keeps the stream and brings \<open>need\<close> bytes of it into the buffer.\<close>

lemma fill_enough:
  assumes r: "readable b" and n: "b_len b < need" and av: "need \<le> length (stream b)"
  shows "\<exists>b'. fill b need = (Ok (), b') \<and> need \<le> b_len b' \<and> stream b' = stream b \<and> readable b' \<and>
    sendSide b' = sendSide b"
proof -
  from r obtain s where wf: "wf_buffer b" and nc: "b_nc b = Some s" and cl: "clean (rx s)"
    and dl: "0 < b_timeout b \<longrightarrow> dl_err s = None" by (auto simp: readable_def)
  note fa = fillArray_props [OF wf, of need]
  have "need \<le> b_len b + length (rxData (rx s))"
    using av nc length_unread [OF wf] by (simp add: stream_def)
  from fillLoop_enough [OF cl dl n fa(2) this] obtain n' buf' q where
    loop: "fillLoop (fillArray b need) (b_len b) need (b_timeout b) s = (Ok n', buf', s\<lparr>rx := q\<rparr>)"
    and b': "need \<le> n'" "n' \<le> length buf'" "length buf' = length (fillArray b need)"
    and st: "take n' buf' @ rxData q = take (b_len b) (fillArray b need) @ rxData (rx s)" and cl': "clean q"
    by blast
  let ?b = "b\<lparr>b_buf := buf', b_idx := 0, b_old := fillOld b need, b_nc := Some (s\<lparr>rx := q\<rparr>), b_len := n'\<rparr>"
  have "fill b need = (Ok (), ?b)" by (simp add: fill_def Let_def nc loop)
  moreover have "stream ?b = stream b" using st fa(1) nc by (simp add: stream_def unread_def)
  moreover have "readable ?b" using b' fa wf cl' dl by (auto simp: readable_def wf_buffer_def)
  moreover have "sendSide ?b = sendSide b" using nc by (simp add: sendSide_def)
  ultimately show ?thesis using b' by auto
qed

lemma fill_short:
  assumes r: "readable b" and n: "b_len b < need" and av: "length (stream b) < need"
  shows "\<exists>b'. fill b need = (Err UnexpectedEOF, b') \<and> wf_buffer b' \<and> sendSide b' = sendSide b"
proof -
  from r obtain s where wf: "wf_buffer b" and nc: "b_nc b = Some s" and cl: "clean (rx s)"
    and dl: "0 < b_timeout b \<longrightarrow> dl_err s = None" by (auto simp: readable_def)
  note fa = fillArray_props [OF wf, of need]
  have "b_len b + length (rxData (rx s)) < need"
    using av nc length_unread [OF wf] by (simp add: stream_def)
  from fillLoop_short [OF cl dl n fa(2) this] obtain buf' q where
    loop: "fillLoop (fillArray b need) (b_len b) need (b_timeout b) s = (Err UnexpectedEOF, buf', s\<lparr>rx := q\<rparr>)"
    and b': "length buf' = length (fillArray b need)" by blast
  let ?b = "b\<lparr>b_buf := buf', b_idx := 0, b_old := fillOld b need, b_nc := Some (s\<lparr>rx := q\<rparr>)\<rparr>"
  have "fill b need = (Err UnexpectedEOF, ?b)" by (simp add: fill_def Let_def nc loop)
  moreover have "wf_buffer ?b" using b' fa wf by (auto simp: wf_buffer_def)
  moreover have "sendSide ?b = sendSide b" using nc by (simp add: sendSide_def)
  ultimately show ?thesis by auto
qed

text \<open>\<open>readNext\<close> takes the next bytes off the stream.\<close>

lemma readNext_buffered:
  assumes "readable b" and "need \<le> b_len b"
  shows "\<exists>d b'. readNext b need = (Ok d, b') \<and> vis d = take need (stream b) \<and>
    stream b' = drop need (stream b) \<and> readable b' \<and> sendSide b' = sendSide b"
proof -
  let ?b = "b\<lparr>b_idx := b_idx b + need, b_len := b_len b - need\<rparr>"
  from assms have wf: "wf_buffer b" by (simp add: readable_def)
  then have le: "b_idx b + need \<le> length (b_buf b)" using assms by (simp add: wf_buffer_def)
  have u: "length (unread b) = b_len b" by (rule length_unread [OF wf])
  have "readNext b need = (Ok \<lparr>vis = take need (drop (b_idx b) (b_buf b)), ext = drop (b_idx b + need) (b_buf b),
             org = Some (length (b_old b), b_idx b)\<rparr>, ?b)"
    using assms le by (simp add: readNext_def)
  moreover have "take need (drop (b_idx b) (b_buf b)) = take need (stream b)"
    using assms u by (simp add: stream_def unread_def min_def)
  moreover have "unread ?b = drop need (unread b)"
    by (simp add: unread_def drop_take add.commute)
  then have "stream ?b = drop need (stream b)" using assms u by (simp add: stream_def)
  moreover have "readable ?b" using assms wf by (auto simp: readable_def wf_buffer_def)
  moreover have "sendSide ?b = sendSide b" by (simp add: sendSide_def)
  ultimately show ?thesis by auto
qed

lemma readNext_enough:
  assumes "readable b" and "need \<le> length (stream b)"
  shows "\<exists>d b'. readNext b need = (Ok d, b') \<and> vis d = take need (stream b) \<and>
    stream b' = drop need (stream b) \<and> readable b' \<and> sendSide b' = sendSide b"
proof (cases "b_len b < need")
  case False
  then show ?thesis using readNext_buffered assms by simp
next
  case True
  from fill_enough [OF assms(1) True assms(2)] obtain b1 where
    f: "fill b need = (Ok (), b1)" "need \<le> b_len b1" "stream b1 = stream b" "readable b1" "sendSide b1 = sendSide b"
    by blast
  then have "readNext b need = readNext b1 need" using True by (simp add: readNext_def)
  with readNext_buffered [of b1 need] f show ?thesis by simp
qed

lemma readNext_short:
  assumes "readable b" and "length (stream b) < need"
  shows "\<exists>b'. readNext b need = (Err UnexpectedEOF, b') \<and> wf_buffer b' \<and> sendSide b' = sendSide b"
proof -
  have "b_len b < need"
    using assms length_unread [of b] by (auto simp: readable_def stream_def)
  with fill_short [OF assms(1) _ assms(2)] show ?thesis by (auto simp: readNext_def)
qed

section \<open>Whatever the socket does\<close>

text \<open>On a well-formed buffer with a socket, reading returns: it neither panics nor spins.\<close>

lemma fillLoop_safe:
  assumes "n < need" and "need \<le> length buf"
  shows "\<exists>r buf' s'. fillLoop buf n need t s = (r, buf', s') \<and> returns r \<and> length buf' = length buf \<and>
    (\<forall>n'. r = Ok n' \<longrightarrow> need \<le> n' \<and> n' \<le> length buf)"
  using assms
proof (induction buf n need t s rule: fillLoop.induct)
  case (1 buf n need t s)
  obtain bs e r where rd: "sockRead (length buf - n) (rx s) = (bs, e, r)" by (metis prod_cases3)
  have len: "length bs \<le> length buf - n" by (rule sockRead_length [OF rd])
  let ?n = "n + length bs" and ?buf = "copyAt buf n bs" and ?s = "s\<lparr>rx := r\<rparr>"
  have lb: "length ?buf = length buf" using 1 by simp
  show ?case
  proof (cases "0 < t \<and> dl_err s \<noteq> None")
    case True
    then show ?thesis by (subst fillLoop.simps) simp
  next
    case dl: False
    show ?thesis
    proof (cases "e = None \<and> ?n < need")
      case True
      with 1 have "\<not> length buf \<le> ?n" by simp
      with True dl have "fillLoop buf n need t s = fillLoop ?buf ?n need t ?s"
        by (auto simp: fillLoop_read [OF rd])
      with 1(1) [of bs "(e, r)" e r ?buf ?n ?s] True dl rd lb 1(2,3) show ?thesis by auto
    next
      case False
      with dl lb len 1(2,3) show ?thesis
        by (auto simp: fillLoop_read [OF rd] split: option.split sock_err.split)
    qed
  qed
qed

lemma readNext_safe:
  assumes wf: "wf_buffer b" and nc: "b_nc b \<noteq> None"
  shows "returns (fst (readNext b need)) \<and> wf_buffer (snd (readNext b need)) \<and> b_nc (snd (readNext b need)) \<noteq> None"
proof (cases "b_len b < need")
  case False
  with wf nc show ?thesis by (auto simp: readNext_def wf_buffer_def)
next
  case True
  from nc obtain s where s: "b_nc b = Some s" by auto
  note fa = fillArray_props [OF wf, of need]
  from fillLoop_safe [OF True fa(2), of "b_timeout b" s] obtain r buf' s' where
    loop: "fillLoop (fillArray b need) (b_len b) need (b_timeout b) s = (r, buf', s')" "returns r"
    and l: "length buf' = length (fillArray b need)" and b': "\<And>n'. r = Ok n' \<Longrightarrow> need \<le> n' \<and> n' \<le> length buf'"
    by auto
  show ?thesis
  proof (cases r)
    case (Ok n')
    with loop s b' [OF Ok] have "readNext b need = readNext (b\<lparr>b_buf := buf', b_idx := 0, b_old := fillOld b need, b_nc := Some s', b_len := n'\<rparr>) need"
      using True by (simp add: readNext_def fill_def Let_def)
    with b' [OF Ok] l fa wf show ?thesis by (auto simp: readNext_def wf_buffer_def)
  next
    case (Err e)
    with loop s l True fa wf show ?thesis by (auto simp: readNext_def fill_def Let_def wf_buffer_def)
  qed (use loop in simp_all)
qed

text \<open>What is still to come, and that a successful \<open>readNext\<close> uses up exactly what it returns.\<close>

definition available :: "buffer \<Rightarrow> nat" where
  "available b = b_len b + (case b_nc b of None \<Rightarrow> 0 | Some s \<Rightarrow> length (rxData (rx s)))"

lemma fillLoop_available:
  "fillLoop buf n need t s = (Ok n', buf', s') \<Longrightarrow>
     n' + length (rxData (rx s')) = n + length (rxData (rx s)) \<and> need \<le> n'"
proof (induction buf n need t s rule: fillLoop.induct)
  case (1 buf n need t s)
  obtain bs e r where rd: "sockRead (length buf - n) (rx s) = (bs, e, r)" by (metis prod_cases3)
  have data: "rxData (rx s) = bs @ rxData r" by (rule sockRead_data [OF rd])
  show ?case
  proof (cases "e = None \<and> n + length bs < need")
    case True
    with 1(2) have "fillLoop (copyAt buf n bs) (n + length bs) need t (s\<lparr>rx := r\<rparr>) = (Ok n', buf', s')"
      and "\<not> (0 < t \<and> dl_err s \<noteq> None)" and "\<not> length buf \<le> n + length bs"
      by (auto simp: fillLoop_read [OF rd] split: if_splits)
    with 1(1) [of bs "(e, r)" e r "copyAt buf n bs" "n + length bs" "s\<lparr>rx := r\<rparr>"] True rd data
    show ?thesis by auto
  next
    case False
    with 1(2) data show ?thesis
      by (auto simp: fillLoop_read [OF rd] split: if_splits option.splits sock_err.splits)
  qed
qed

lemma readNext_available:
  "readNext b need = (Ok d, b') \<Longrightarrow> available b' + need = available b"
proof (cases "b_len b < need")
  case False
  assume "readNext b need = (Ok d, b')"
  with False show ?thesis by (auto simp: readNext_def available_def split: if_splits)
next
  case True
  assume rd: "readNext b need = (Ok d, b')"
  then obtain s where s: "b_nc b = Some s"
    using True by (cases "b_nc b") (auto simp: readNext_def fill_def Let_def)
  obtain r buf' s' where loop: "fillLoop (fillArray b need) (b_len b) need (b_timeout b) s = (r, buf', s')"
    by (metis prod_cases3)
  show ?thesis
  proof (cases r)
    case (Ok n')
    with fillLoop_available [of "fillArray b need" "b_len b" need "b_timeout b" s n' buf' s'] loop
    have "n' + length (rxData (rx s')) = b_len b + length (rxData (rx s))" and "need \<le> n'" by auto
    with rd True s loop Ok show ?thesis
      by (auto simp: readNext_def fill_def Let_def available_def split: if_splits)
  qed (use rd True s loop in \<open>auto simp: readNext_def fill_def Let_def\<close>)
qed

section \<open>What a slice shows later\<close>

text \<open>A slice handed out by \<open>readNext\<close> shows what its array holds when it is looked at.\<close>

definition arrayAt :: "buffer \<Rightarrow> nat \<Rightarrow> byte list" where
  "arrayAt b g = (if g < length (b_old b) then b_old b ! g else b_buf b)"

definition deref :: "buffer \<Rightarrow> gslice \<Rightarrow> byte list" where
  "deref b d =
     (case org d of
        None \<Rightarrow> vis d
      | Some (g, k) \<Rightarrow> take (length (vis d)) (drop k (arrayAt b g)))"

lemma deref_cong: "b_old b' = b_old b \<Longrightarrow> b_buf b' = b_buf b \<Longrightarrow> deref b' = deref b"
  by (rule ext) (simp add: deref_def arrayAt_def fun_eq_iff split: option.split)

lemma readNext_deref: "readNext b need = (Ok d, b') \<Longrightarrow> deref b' d = vis d"
  by (auto simp: readNext_def bindS_Ok_iff deref_def arrayAt_def split: if_splits)

text \<open>Taking bytes that are in the buffer already changes no slice; a refill may change any.\<close>

lemma readNext_keeps:
  assumes "need \<le> b_len b" and "readNext b need = (r, b')"
  shows "deref b' e = deref b e" and "b_buf b' = b_buf b" and "b_old b' = b_old b"
    and "b_len b' = b_len b - need"
proof -
  show *: "b_buf b' = b_buf b" "b_old b' = b_old b" "b_len b' = b_len b - need"
    using assms by (auto simp: readNext_def split: if_splits)
  show "deref b' e = deref b e" using deref_cong [OF *(2,1)] by simp
qed

section \<open>Slices to write through\<close>

lemma takeBuffer_fits:
  assumes "wf_buffer b" and "b_len b = 0"
  shows "\<exists>data own b'. takeBuffer b n = (Ok (Some (data, own)), b') \<and> length data = n \<and> wf_buffer b' \<and>
    b_len b' = 0 \<and> b_nc b' = b_nc b \<and> b_timeout b' = b_timeout b \<and> (own \<longrightarrow> n \<le> length (b_buf b'))"
  using assms by (auto simp: takeBuffer_def wf_buffer_def)

lemma takeSmallBuffer_fits:
  assumes "wf_buffer b" and "b_len b = 0" and "n \<le> defaultBufSize"
  shows "\<exists>data. takeSmallBuffer b n = (Ok (Some (data, True)), b) \<and> length data = n \<and> n \<le> length (b_buf b)"
  using assms by (auto simp: takeSmallBuffer_def wf_buffer_def)

lemma takeBuffer_busy: "0 < b_len b \<Longrightarrow> takeBuffer b n = (Ok None, b) \<and> takeSmallBuffer b n = (Ok None, b)"
  by (simp add: takeBuffer_def takeSmallBuffer_def)

lemma writeBack_frame [simp]:
  "b_nc (writeBack own data b) = b_nc b" "b_len (writeBack own data b) = b_len b"
  "b_idx (writeBack own data b) = b_idx b" "b_timeout (writeBack own data b) = b_timeout b"
  "wf_buffer (writeBack own data b) = wf_buffer b"
  by (simp_all add: writeBack_def wf_buffer_def)

section \<open>The interface: a source of bytes\<close>

text \<open>All a packet reader needs of its buffer: exact reads off a stream.\<close>

locale byte_source =
  fixes readN :: "'s \<Rightarrow> nat \<Rightarrow> gslice res \<times> 's"
    and bytes :: "'s \<Rightarrow> byte list"
    and ready :: "'s \<Rightarrow> bool"
  assumes read_enough: "ready s \<Longrightarrow> n \<le> length (bytes s) \<Longrightarrow>
      \<exists>d s'. readN s n = (Ok d, s') \<and> vis d = take n (bytes s) \<and> bytes s' = drop n (bytes s) \<and> ready s'"
    and read_short: "ready s \<Longrightarrow> length (bytes s) < n \<Longrightarrow> \<exists>s'. readN s n = (Err UnexpectedEOF, s')"
begin

lemma read_exact:
  assumes "ready s" and "bytes s = x @ y"
  shows "\<exists>d s'. readN s (length x) = (Ok d, s') \<and> vis d = x \<and> bytes s' = y \<and> ready s'"
  using read_enough [of s "length x"] assms by auto

lemma read_all_or_fail:
  assumes "ready s"
  shows "(\<exists>d s'. readN s n = (Ok d, s') \<and> length (vis d) = n) \<or> (\<exists>s'. readN s n = (Err UnexpectedEOF, s'))"
  using read_enough [OF assms, of n] read_short [OF assms, of n] by (cases "n \<le> length (bytes s)") auto

end

interpretation buffer_source: byte_source readNext stream readable
proof unfold_locales
  fix b n
  assume b: "readable b"
  show "\<exists>d s'. readNext b n = (Ok d, s') \<and> vis d = take n (stream b) \<and> stream s' = drop n (stream b) \<and> readable s'"
    if "n \<le> length (stream b)" using readNext_enough [OF b that] by blast
  show "\<exists>s'. readNext b n = (Err UnexpectedEOF, s')" if "length (stream b) < n"
    using readNext_short [OF b that] by blast
qed

section \<open>Properties\<close>

text \<open>A socket that has sent nothing yet and takes every write whole.\<close>

definition idleSock :: "rd_event list \<Rightarrow> sock" where
  "idleSock es = \<lparr>rx = es, tx = [], wr = [], dl_err = None\<rparr>"

lemma idleSock_simps [simp]: "rx (idleSock es) = es" "tx (idleSock es) = []" "wr (idleSock es) = []"
  "dl_err (idleSock es) = None"
  by (simp_all add: idleSock_def)

text \<open>C10: however the bytes arrive, in whatever pieces, the buffer is a plain stream: \<^verbatim>\<open>readNext\<close> returns the
  next bytes of it and leaves the others, and fails with \<^verbatim>\<open>io.ErrUnexpectedEOF\<close> exactly when there are
  too few; what was sent stays as it is.\<close>

theorem readNext_stream:
  assumes "readable b"
  shows "if need \<le> length (stream b)
    then \<exists>d b'. readNext b need = (Ok d, b') \<and> vis d = take need (stream b) \<and>
      stream b' = drop need (stream b) \<and> readable b' \<and> sendSide b' = sendSide b
    else \<exists>b'. readNext b need = (Err UnexpectedEOF, b') \<and> wf_buffer b' \<and> sendSide b' = sendSide b"
  using readNext_enough [OF assms] readNext_short [OF assms] by simp

theorem readNext_stream_witness:
  "\<exists>d b'. readNext (newBuffer (Some (idleSock [Rd [1, 2] None, Rd [] None, Rd [3, 4, 5] None]))) 4 = (Ok d, b') \<and>
    vis d = [1, 2, 3, 4] \<and> stream b' = [5]"
proof -
  let ?b = "newBuffer (Some (idleSock [Rd [1, 2] None, Rd [] None, Rd [3, 4, 5] None]))"
  have "readable ?b" by (rule newBuffer_readable) simp
  from readNext_stream [OF this, of 4] show ?thesis by (auto simp: newBuffer_stream)
qed

text \<open>Whatever the other side does, with errors and deadlines too, \<^verbatim>\<open>readNext\<close> on an open connection
  returns: with as many bytes as asked for, or with an error; the index and the length never leave the
  array.\<close>

lemma readNext_total:
  assumes "wf_buffer b" and "b_nc b \<noteq> None"
  shows "\<exists>r b'. readNext b need = (r, b') \<and> wf_buffer b' \<and> b_nc b' \<noteq> None \<and>
    ((\<exists>d. r = Ok d \<and> length (vis d) = need) \<or> (\<exists>e. r = Err e))"
proof -
  obtain r b' where r: "readNext b need = (r, b')" by fastforce
  have "length (vis d) = need" if "r = Ok d" for d
    using r that by (auto simp: readNext_def bindS_Ok_iff split: if_splits)
  with readNext_safe [OF assms, of need] r show ?thesis by (cases r) auto
qed

lemma readNext_total_witness:
  "\<exists>r b'. readNext (newBuffer (Some (idleSock [Rd [1, 2] (Some (NetErr 7))]))) 5000 = (r, b') \<and> wf_buffer b' \<and>
    b_nc b' \<noteq> None \<and> ((\<exists>d. r = Ok d \<and> length (vis d) = 5000) \<or> (\<exists>e. r = Err e))"
  by (rule readNext_total) (rule newBuffer_wf, simp add: newBuffer_def)

end
