(* ===== verification/Server_Types.thy ===== *)
theory Server_Types
  imports Server_Buffer
begin

text \<open>
  The data of the proxy: its configuration, a connection to the database, a prepared statement and
  a client session. A connection's \<^verbatim>\<open>netConn\<close> and its buffer's \<^verbatim>\<open>nc\<close> are one socket, set together
  and cleared together, so both are the field \<open>b_nc\<close> of the buffer.
\<close>

record ServerConfig =
  cfg_Listen :: "byte list"
  cfg_Addr :: "byte list"
  cfg_DBName :: "byte list"
  cfg_User :: "byte list"
  cfg_Passwd :: "byte list"
  cfg_Collation :: "byte list"
  cfg_MaxClient :: int
  cfg_WriteTimeout :: int
  cfg_ReadTimeout :: int
  cfg_MaxLifeTime :: int
  cfg_MaxIdleConn :: int
  cfg_MaxConnNum :: int
  cfg_ColumnsWithAlias :: bool
  cfg_Strict :: bool

text \<open>The zero value of the struct.\<close>

definition zeroConfig :: ServerConfig where
  "zeroConfig = \<lparr>cfg_Listen = [], cfg_Addr = [], cfg_DBName = [], cfg_User = [], cfg_Passwd = [],
     cfg_Collation = [], cfg_MaxClient = 0, cfg_WriteTimeout = 0, cfg_ReadTimeout = 0,
     cfg_MaxLifeTime = 0, cfg_MaxIdleConn = 0, cfg_MaxConnNum = 0, cfg_ColumnsWithAlias = False,
     cfg_Strict = False\<rparr>"

text \<open>Times are nanoseconds.\<close>

definition Second :: int where "Second = 1000000000"

definition serverVersion :: "byte list" where "serverVersion = str ''igo-mysql-proxy-0.1''"

definition defaultWriteTimeout :: int where "defaultWriteTimeout = 10"

record mysqlConn =
  mc_buf :: buffer
  mc_affectedRows :: u64
  mc_insertID :: u64
  mc_dbname :: "byte list"
  mc_cfg :: ServerConfig
  mc_maxPacketAllowed :: int
  mc_maxWriteSize :: int
  mc_writeTimeout :: int
  mc_flags :: u32
  mc_status :: u16
  mc_sequence :: byte
  mc_strict :: bool
  mc_createdAt :: int

record mysqlStmt =
  st_id :: u32
  st_mc :: "mysqlConn option"
  st_paramCount :: int

record Client =
  c_cfg :: ServerConfig
  c_buf :: buffer
  c_stmt :: "mysqlStmt option"
  c_die :: bool
  c_user :: "byte list"
  c_dbname :: "byte list"
  c_connectID :: u32
  c_salt :: "byte list"
  c_status :: u16
  c_capability :: u32
  c_collation :: byte
  c_sequence :: byte
  c_maxPacketAllowed :: int
  c_writeTimeout :: int

text \<open>\<^verbatim>\<open>close(c.die)\<close> panics when the channel is closed already.\<close>

definition client_close :: "Client \<Rightarrow> unit res \<times> Client" where
  "client_close c = (if c_die c then (Panic, c) else (Ok (), c\<lparr>c_die := True\<rparr>))"

definition mc_Close :: "mysqlConn \<Rightarrow> mysqlConn" where
  "mc_Close mc = mc\<lparr>mc_buf := (mc_buf mc)\<lparr>b_nc := None\<rparr>\<rparr>"

definition mc_expired :: "int \<Rightarrow> mysqlConn \<Rightarrow> int \<Rightarrow> bool" where
  "mc_expired now mc timeout = (if timeout \<le> 0 then False else mc_createdAt mc + timeout < now)"

section \<open>Connections that have not been used\<close>

definition idleConn :: "rd_event list \<Rightarrow> mysqlConn" where
  "idleConn es = \<lparr>mc_buf = newBuffer (Some (idleSock es)), mc_affectedRows = 0, mc_insertID = 0, mc_dbname = [],
     mc_cfg = zeroConfig, mc_maxPacketAllowed = int MaxPacketSize, mc_maxWriteSize = int MaxPacketSize - 1,
     mc_writeTimeout = 0, mc_flags = 0, mc_status = 0, mc_sequence = 0, mc_strict = False, mc_createdAt = 0\<rparr>"

definition idleClient :: "rd_event list \<Rightarrow> Client" where
  "idleClient es = \<lparr>c_cfg = zeroConfig, c_buf = newBuffer (Some (idleSock es)), c_stmt = None, c_die = False,
     c_user = [], c_dbname = [], c_connectID = 10001, c_salt = replicate 20 0x41, c_status = 0, c_capability = 0,
     c_collation = 0, c_sequence = 0, c_maxPacketAllowed = int MaxPacketSize,
     c_writeTimeout = defaultWriteTimeout * Second\<rparr>"

lemma idleConn_simps [simp]: "mc_buf (idleConn es) = newBuffer (Some (idleSock es))" "mc_sequence (idleConn es) = 0"
  "mc_maxPacketAllowed (idleConn es) = 16777215" "mc_strict (idleConn es) = False" "mc_cfg (idleConn es) = zeroConfig"
  "mc_flags (idleConn es) = 0"
  by (simp_all add: idleConn_def MaxPacketSize_val)

lemma idleClient_simps [simp]: "c_buf (idleClient es) = newBuffer (Some (idleSock es))" "c_sequence (idleClient es) = 0"
  "c_maxPacketAllowed (idleClient es) = 16777215" "c_stmt (idleClient es) = None" "c_die (idleClient es) = False"
  "c_dbname (idleClient es) = []" "c_salt (idleClient es) = replicate 20 0x41" "c_capability (idleClient es) = 0"
  "c_cfg (idleClient es) = zeroConfig"
  by (simp_all add: idleClient_def MaxPacketSize_val)

end
