(* ===== verification/Server_Packets.thy ===== *)
theory Server_Packets
  imports Server_Types Mysql_Codec
begin

text \<open>
  \<^verbatim>\<open>server/packets.go\<close>: MySQL packets over a connection. A payload travels in frames of at most
  \<open>MaxPacketSize\<close> bytes, each with a three-byte length and a sequence number. The two connections
  of the program, a client's and the database's, read and write packets by the same loops and
  differ in what they do about a failure.
\<close>

section \<open>Reading\<close>

text \<open>Where the read loop can leave early.\<close>

datatype rd_fail =
    HeaderErr gerror | EmptyPacket | OutOfSync | OutOfSyncMul | BodyErr gerror | RdPanic | RdSpin

definition hdrLen :: "byte list \<Rightarrow> nat" where
  "hdrLen h = unat (shl 0 (h ! 0) OR shl 8 (h ! 1) OR shl 16 (h ! 2) :: u32)"

function readPacketLoop ::
  "buffer \<Rightarrow> byte \<Rightarrow> byte list option \<Rightarrow> (rd_fail + gslice) \<times> buffer \<times> byte" where
  "readPacketLoop b sequence payload =
     (case readNext b 4 of
        (Err e, b) \<Rightarrow> (Inl (HeaderErr e), b, sequence)
      | (Panic, b) \<Rightarrow> (Inl RdPanic, b, sequence)
      | (Spin, b) \<Rightarrow> (Inl RdSpin, b, sequence)
      | (Ok hdr, b) \<Rightarrow>
          (let pktLen = hdrLen (vis hdr) in
           if pktLen < 1 then (Inl EmptyPacket, b, sequence)
           else if vis hdr ! 3 \<noteq> sequence then
             (Inl (if sequence < vis hdr ! 3 then OutOfSyncMul else OutOfSync), b, sequence)
           else
             (case readNext b pktLen of
                (Err e, b) \<Rightarrow> (Inl (BodyErr e), b, sequence + 1)
              | (Panic, b) \<Rightarrow> (Inl RdPanic, b, sequence + 1)
              | (Spin, b) \<Rightarrow> (Inl RdSpin, b, sequence + 1)
              | (Ok data, b) \<Rightarrow>
                  (let isLastPacket = pktLen < MaxPacketSize in
                   if isLastPacket \<and> payload = None then (Inr data, b, sequence + 1)
                   else
                     (let payload = (case payload of None \<Rightarrow> [] | Some p \<Rightarrow> p) @ vis data in
                      if isLastPacket then (Inr (slice payload), b, sequence + 1)
                      else readPacketLoop b (sequence + 1) (Some payload))))))"
  by pat_completeness auto
termination
  by (relation "measure (\<lambda>(b, s, p). available b)") (auto dest!: readNext_available sym [of _ "readNext _ _"])

declare readPacketLoop.simps [simp del]

definition client_readPacket :: "Client \<Rightarrow> gslice res \<times> Client" where
  "client_readPacket c =
     (case readPacketLoop (c_buf c) (c_sequence c) None of
        (r, b, s) \<Rightarrow>
          (let c = c\<lparr>c_buf := b, c_sequence := s\<rparr> in
           case r of
             Inr data \<Rightarrow> (Ok data, c)
           | Inl (HeaderErr e) \<Rightarrow> bindS (client_close c) (\<lambda>_ c. (Err e, c))
           | Inl EmptyPacket \<Rightarrow> bindS (client_close c) (\<lambda>_ c. (Ok (slice []), c))
           | Inl OutOfSyncMul \<Rightarrow> (Err ErrPktSyncMul, c)
           | Inl OutOfSync \<Rightarrow> (Err ErrPktSync, c)
           | Inl (BodyErr e) \<Rightarrow> bindS (client_close c) (\<lambda>_ c. (Err e, c))
           | Inl RdPanic \<Rightarrow> (Panic, c)
           | Inl RdSpin \<Rightarrow> (Spin, c)))"

definition mc_readPacket :: "mysqlConn \<Rightarrow> gslice res \<times> mysqlConn" where
  "mc_readPacket mc =
     (case readPacketLoop (mc_buf mc) (mc_sequence mc) None of
        (r, b, s) \<Rightarrow>
          (let mc = mc\<lparr>mc_buf := b, mc_sequence := s\<rparr> in
           case r of
             Inr data \<Rightarrow> (Ok data, mc)
           | Inl (HeaderErr e) \<Rightarrow> (Err DriverBadConn, mc_Close mc)
           | Inl EmptyPacket \<Rightarrow> (Err DriverBadConn, mc_Close mc)
           | Inl OutOfSyncMul \<Rightarrow> (Err ErrPktSyncMul, mc)
           | Inl OutOfSync \<Rightarrow> (Err ErrPktSync, mc)
           | Inl (BodyErr e) \<Rightarrow> (Err DriverBadConn, mc_Close mc)
           | Inl RdPanic \<Rightarrow> (Panic, mc)
           | Inl RdSpin \<Rightarrow> (Spin, mc)))"

section \<open>Writing\<close>

text \<open>The loop of \<^verbatim>\<open>writePacket\<close>; \<open>data\<close> starts with four bytes for the header. The last component
  is what the loop leaves in the slice.\<close>

function writeLoop ::
  "sock \<Rightarrow> int \<Rightarrow> byte \<Rightarrow> byte list \<Rightarrow> unit res \<times> sock \<times> byte \<times> byte list" where
  "writeLoop s timeout sequence data =
     (if length data < 4 then (Panic, s, sequence, data)
      else
        (let pktLen = length data - 4;
             size = (if MaxPacketSize \<le> pktLen then MaxPacketSize else pktLen);
             hdr = (if MaxPacketSize \<le> pktLen then [0xff, 0xff, 0xff, sequence]
                    else [byteAt 0 (of_nat pktLen :: u64), byteAt 8 (of_nat pktLen :: u64),
                          byteAt 16 (of_nat pktLen :: u64), sequence]);
             data = hdr @ drop 4 data
         in
         if 0 < timeout \<and> dl_err s \<noteq> None then (Err (SockErr (the (dl_err s))), s, sequence, data)
         else
           (case sockWrite (take (4 + size) data) s of
              (n, e, s) \<Rightarrow>
                if e = None \<and> n = 4 + size then
                  (if size \<noteq> MaxPacketSize then (Ok (), s, sequence + 1, data)
                   else
                     (case writeLoop s timeout (sequence + 1) (drop size data) of
                        (r, s, sq, rest) \<Rightarrow> (r, s, sq, take size data @ rest)))
                else (Err DriverBadConn, s, sequence, data))))"
  by pat_completeness auto
termination
  by (relation "measure (\<lambda>(s, t, q, data). length data)") (auto simp: MaxPacketSize_def split: if_splits)

declare writeLoop.simps [simp del]

text \<open>A slice to write: its bytes, and whether it is a part of the buffer's own array.\<close>

definition sendPacket ::
  "buffer \<Rightarrow> int \<Rightarrow> int \<Rightarrow> byte \<Rightarrow> byte list \<times> bool \<Rightarrow> unit res \<times> buffer \<times> byte" where
  "sendPacket b maxPacketAllowed timeout sequence d =
     (if maxPacketAllowed < int (length (fst d)) - 4 then (Err ErrPktTooLarge, b, sequence)
      else
        (case b_nc b of
           None \<Rightarrow> (Panic, b, sequence)
         | Some s \<Rightarrow>
             (case writeLoop s timeout sequence (fst d) of
                (r, s, sq, data) \<Rightarrow> (r, writeBack (snd d) data (b\<lparr>b_nc := Some s\<rparr>), sq))))"

definition client_writePacket :: "Client \<Rightarrow> byte list \<times> bool \<Rightarrow> unit res \<times> Client" where
  "client_writePacket c d =
     (case sendPacket (c_buf c) (c_maxPacketAllowed c) (c_writeTimeout c) (c_sequence c) d of
        (r, b, s) \<Rightarrow> (r, c\<lparr>c_buf := b, c_sequence := s\<rparr>))"

definition mc_writePacket :: "mysqlConn \<Rightarrow> byte list \<times> bool \<Rightarrow> unit res \<times> mysqlConn" where
  "mc_writePacket mc d =
     (case sendPacket (mc_buf mc) (mc_maxPacketAllowed mc) (mc_writeTimeout mc) (mc_sequence mc) d of
        (r, b, s) \<Rightarrow> (r, mc\<lparr>mc_buf := b, mc_sequence := s\<rparr>))"

section \<open>The frames of a payload\<close>

function framesOf :: "byte \<Rightarrow> byte list \<Rightarrow> byte list" where
  "framesOf sequence p =
     (if MaxPacketSize \<le> length p
      then [0xff, 0xff, 0xff, sequence] @ take MaxPacketSize p @ framesOf (sequence + 1) (drop MaxPacketSize p)
      else [byteAt 0 (of_nat (length p) :: u64), byteAt 8 (of_nat (length p) :: u64),
            byteAt 16 (of_nat (length p) :: u64), sequence] @ p)"
  by pat_completeness auto
termination
  by (relation "measure (\<lambda>(s, p). length p)") (auto simp: MaxPacketSize_def)

declare framesOf.simps [simp del]

definition seqAfter :: "byte \<Rightarrow> byte list \<Rightarrow> byte" where
  "seqAfter sequence p = sequence + of_nat (length p div MaxPacketSize + 1)"

lemma MaxPacketSize_pos: "0 < MaxPacketSize"
  by (simp add: MaxPacketSize_def)

lemma seqAfter_small: "length p < MaxPacketSize \<Longrightarrow> seqAfter s p = s + 1"
  by (simp add: seqAfter_def)

lemma seqAfter_step:
  "MaxPacketSize \<le> length p \<Longrightarrow> seqAfter (s + 1) (drop MaxPacketSize p) = seqAfter s p"
  using MaxPacketSize_pos by (simp add: seqAfter_def le_div_geq)

lemma bit_of_nat_word: "bit (of_nat n :: 'a::len word) i \<longleftrightarrow> i < LENGTH('a) \<and> bit n i"
proof -
  have "bit (word_of_int (int n) :: 'a word) i \<longleftrightarrow> i < LENGTH('a) \<and> bit (int n) i"
    by (rule bit_word_of_int_iff)
  then show ?thesis by (simp add: bit_of_nat_iff_bit)
qed

lemma byteAt_of_nat: "k + 8 \<le> 32 \<Longrightarrow> byteAt k (of_nat n :: u64) = byteAt k (of_nat n :: u32)"
  by (rule bit_word_eqI) (auto simp: bit_byteAt bit_of_nat_word)

lemma hdrLen_frame:
  assumes "n < 2 ^ 24"
  shows "hdrLen (byteAt 0 (of_nat n :: u64) # byteAt 8 (of_nat n :: u64) # byteAt 16 (of_nat n :: u64) # r) = n"
proof -
  have u: "unat (of_nat n :: u32) = n" using assms by (simp add: unat_of_nat take_bit_eq_mod)
  have "(shl 0 (byteAt 0 (of_nat n :: u32)) OR shl 8 (byteAt 8 (of_nat n :: u32)) OR
      shl 16 (byteAt 16 (of_nat n :: u32))) = (of_nat n :: u32)"
    by (rule bit_word_eqI) (use bit_below [of "of_nat n :: u32" 24] assms u in \<open>auto simp: bit_or_iff bit_shl_byteAt\<close>)
  then show ?thesis by (simp add: hdrLen_def byteAt_of_nat u)
qed

lemma hdrLen_full: "hdrLen (0xff # 0xff # 0xff # r) = MaxPacketSize"
  by (simp add: hdrLen_def shl_def MaxPacketSize_def)

section \<open>Reading what was framed\<close>

text \<open>One frame off a readable buffer.\<close>

lemma readPacketLoop_header:
  assumes "readable b" and "stream b = h @ r" and "length h = 4"
  obtains hd b' where "readNext b 4 = (Ok hd, b')" and "vis hd = h" and "stream b' = r"
    and "readable b'" and "sendSide b' = sendSide b"
  using readNext_enough [of b 4] assms by auto

lemma readPacketLoop_last:
  assumes r: "readable b" and st: "stream b = framesOf s p @ rest"
    and p: "p \<noteq> []" "length p < MaxPacketSize"
  shows "\<exists>d b'. readPacketLoop b s acc = (Inr d, b', s + 1) \<and>
    vis d = (case acc of None \<Rightarrow> [] | Some q \<Rightarrow> q) @ p \<and>
    stream b' = rest \<and> readable b' \<and> sendSide b' = sendSide b"
proof -
  let ?h = "[byteAt 0 (of_nat (length p) :: u64), byteAt 8 (of_nat (length p) :: u64),
      byteAt 16 (of_nat (length p) :: u64), s]"
  have "stream b = ?h @ p @ rest" using st p by (simp add: framesOf.simps)
  then obtain hd b1 where h: "readNext b 4 = (Ok hd, b1)" "vis hd = ?h" and b1: "stream b1 = p @ rest"
    "readable b1" "sendSide b1 = sendSide b" by (rule readPacketLoop_header [OF r]) auto
  have len: "hdrLen ?h = length p"
    using p by (simp add: hdrLen_frame MaxPacketSize_val)
  from readNext_enough [OF b1(2), of "length p"] b1 obtain d b2 where
    d: "readNext b1 (length p) = (Ok d, b2)" "vis d = p" and b2: "stream b2 = rest" "readable b2"
    "sendSide b2 = sendSide b" by auto
  show ?thesis
    using p h d b2 by (cases acc; subst readPacketLoop.simps) (simp_all add: len Let_def)
qed

lemma readPacketLoop_full:
  assumes r: "readable b" and st: "stream b = framesOf s p @ rest" and p: "MaxPacketSize \<le> length p"
  shows "\<exists>b'. readPacketLoop b s acc =
      readPacketLoop b' (s + 1) (Some ((case acc of None \<Rightarrow> [] | Some q \<Rightarrow> q) @ take MaxPacketSize p)) \<and>
    stream b' = framesOf (s + 1) (drop MaxPacketSize p) @ rest \<and> readable b' \<and> sendSide b' = sendSide b"
proof -
  let ?h = "[0xff, 0xff, 0xff, s]" and ?q = "take MaxPacketSize p"
  have "stream b = ?h @ ?q @ framesOf (s + 1) (drop MaxPacketSize p) @ rest"
    using st p by (simp add: framesOf.simps [of s p])
  then obtain hd b1 where h: "readNext b 4 = (Ok hd, b1)" "vis hd = ?h"
    and b1: "stream b1 = ?q @ framesOf (s + 1) (drop MaxPacketSize p) @ rest"
    "readable b1" "sendSide b1 = sendSide b" by (rule readPacketLoop_header [OF r]) auto
  have len: "hdrLen ?h = MaxPacketSize" by (simp add: hdrLen_full)
  have lq: "length ?q = MaxPacketSize" using p by simp
  from readNext_enough [OF b1(2), of MaxPacketSize] b1 lq obtain d b2 where
    d: "readNext b1 MaxPacketSize = (Ok d, b2)" "vis d = ?q"
    and b2: "stream b2 = framesOf (s + 1) (drop MaxPacketSize p) @ rest" "readable b2"
    "sendSide b2 = sendSide b" by auto
  have "readPacketLoop b s acc = readPacketLoop b2 (s + 1)
      (Some ((case acc of None \<Rightarrow> [] | Some q \<Rightarrow> q) @ take MaxPacketSize p))"
    using MaxPacketSize_pos h d by (subst readPacketLoop.simps) (simp add: len Let_def)
  with b2 show ?thesis by blast
qed

text \<open>An empty frame is refused, wherever it comes.\<close>

lemma readPacketLoop_empty:
  assumes r: "readable b" and st: "stream b = framesOf s [] @ rest"
  shows "\<exists>b'. readPacketLoop b s acc = (Inl EmptyPacket, b', s) \<and> stream b' = rest \<and> readable b' \<and>
    sendSide b' = sendSide b"
proof -
  let ?h = "[byteAt 0 (0 :: u64), byteAt 8 (0 :: u64), byteAt 16 (0 :: u64), s]"
  have "stream b = ?h @ rest" using st MaxPacketSize_pos by (simp add: framesOf.simps)
  then obtain hd b1 where h: "readNext b 4 = (Ok hd, b1)" "vis hd = ?h"
    and b1: "stream b1 = rest" "readable b1" "sendSide b1 = sendSide b"
    by (rule readPacketLoop_header [OF r]) auto
  have "hdrLen ?h = 0" using hdrLen_frame [of 0 "[s]"] by simp
  with h b1 show ?thesis by (subst readPacketLoop.simps) simp
qed

text \<open>
  A payload comes back whole, in as many frames as it takes; one whose length is a multiple of
  \<open>MaxPacketSize\<close> ends with an empty frame, which the loop takes for a malformed packet.
\<close>

lemma readPacketLoop_frames:
  assumes "readable b" and "stream b = framesOf s p @ rest" and "length p mod MaxPacketSize \<noteq> 0"
  shows "\<exists>d b'. readPacketLoop b s acc = (Inr d, b', seqAfter s p) \<and>
    vis d = (case acc of None \<Rightarrow> [] | Some q \<Rightarrow> q) @ p \<and>
    stream b' = rest \<and> readable b' \<and> sendSide b' = sendSide b"
  using assms
proof (induction s p arbitrary: b acc rule: framesOf.induct)
  case (1 s p)
  show ?case
  proof (cases "MaxPacketSize \<le> length p")
    case False
    with 1 have "p \<noteq> []" by auto
    with readPacketLoop_last [OF 1(2,3)] False show ?thesis by (auto simp: seqAfter_small)
  next
    case True
    let ?q = "drop MaxPacketSize p" and ?a = "(case acc of None \<Rightarrow> [] | Some q \<Rightarrow> q) @ take MaxPacketSize p"
    have m: "length ?q mod MaxPacketSize \<noteq> 0" using 1(4) True by (simp add: le_mod_geq)
    from readPacketLoop_full [OF 1(2,3) True] obtain b1 where
      rd: "readPacketLoop b s acc = readPacketLoop b1 (s + 1) (Some ?a)"
      and b1: "stream b1 = framesOf (s + 1) ?q @ rest" "readable b1" "sendSide b1 = sendSide b" by blast
    from 1(1) [OF True b1(2,1) m, of "Some ?a"] rd b1 True show ?thesis by (auto simp: seqAfter_step)
  qed
qed

lemma readPacketLoop_multiple:
  assumes "readable b" and "stream b = framesOf s p @ rest" and "length p mod MaxPacketSize = 0"
  shows "\<exists>b' s'. readPacketLoop b s acc = (Inl EmptyPacket, b', s') \<and> sendSide b' = sendSide b"
  using assms
proof (induction s p arbitrary: b acc rule: framesOf.induct)
  case (1 s p)
  show ?case
  proof (cases "MaxPacketSize \<le> length p")
    case False
    with 1 have "p = []" by simp
    with readPacketLoop_empty [OF 1(2)] 1(3) show ?thesis by blast
  next
    case True
    let ?q = "drop MaxPacketSize p"
    have m: "length ?q mod MaxPacketSize = 0" using 1(4) True by (simp add: le_mod_geq)
    from readPacketLoop_full [OF 1(2,3) True, of acc] obtain b1 a where
      rd: "readPacketLoop b s acc = readPacketLoop b1 (s + 1) a"
      and b1: "stream b1 = framesOf (s + 1) ?q @ rest" "readable b1" "sendSide b1 = sendSide b" by blast
    from 1(1) [OF True b1(2,1) m, of a] rd b1 show ?thesis by auto
  qed
qed

section \<open>Framing what is written\<close>

lemma take4: "take (4 + n) (a # b # c # d # p) = a # b # c # d # take n p"
proof -
  have "4 + n = Suc (Suc (Suc (Suc n)))" by simp
  then show ?thesis by (simp only: take_Suc_Cons)
qed

lemma writeLoop_frames:
  assumes "length data = 4 + length p" and "drop 4 data = p" and "wr s = []" and "dl_err s = None"
  shows "\<exists>data'. writeLoop s t q data = (Ok (), s\<lparr>tx := tx s @ framesOf q p\<rparr>, seqAfter q p, data') \<and>
    length data' = length data"
  using assms
proof (induction q p arbitrary: s data rule: framesOf.induct)
  case (1 q p)
  note data = 1(2,3) and s = 1(4,5)
  have l: "length data - 4 = length p" and ge: "\<not> length data < 4" using data by auto
  show ?case
  proof (cases "MaxPacketSize \<le> length p")
    case False
    with data s l ge show ?thesis
      by (subst writeLoop.simps) (simp add: Let_def framesOf.simps [of q p] seqAfter_small)
  next
    case True
    let ?data = "[0xff, 0xff, 0xff, q] @ p" and ?q = "drop MaxPacketSize p"
    let ?s = "s\<lparr>tx := tx s @ [0xff, 0xff, 0xff, q] @ take MaxPacketSize p\<rparr>"
    have "drop 4 (drop MaxPacketSize ?data) = drop MaxPacketSize (drop 4 ?data)"
      by (simp only: drop_drop add.commute)
    then have d: "drop 4 (drop MaxPacketSize ?data) = ?q" by simp
    have ld: "length (drop MaxPacketSize ?data) = 4 + length ?q" using True by simp
    have "wr ?s = []" and "dl_err ?s = None" using s by simp_all
    from 1(1) [OF True ld d this] obtain data' where
      ih: "writeLoop ?s t (q + 1) (drop MaxPacketSize ?data) =
        (Ok (), ?s\<lparr>tx := tx ?s @ framesOf (q + 1) ?q\<rparr>, seqAfter (q + 1) ?q, data')"
        "length data' = length (drop MaxPacketSize ?data)" by blast
    have "writeLoop s t q data = (case writeLoop ?s t (q + 1) (drop MaxPacketSize ?data) of
        (r, s, sq, rest) \<Rightarrow> (r, s, sq, take MaxPacketSize ?data @ rest))"
      using True data s l ge by (subst writeLoop.simps) (simp add: Let_def take4)
    with ih True data show ?thesis by (simp add: framesOf.simps [of q p] seqAfter_step)
  qed
qed

lemma sendPacket_frames:
  assumes "b_nc b = Some s" and "wr s = []" and "dl_err s = None"
    and "length data = 4 + length p" and "drop 4 data = p" and "int (length p) \<le> limit"
  shows "\<exists>b'. sendPacket b limit t q (data, own) = (Ok (), b', seqAfter q p) \<and>
    b_nc b' = Some (s\<lparr>tx := tx s @ framesOf q p\<rparr>) \<and> b_len b' = b_len b \<and> b_idx b' = b_idx b \<and>
    b_timeout b' = b_timeout b \<and> length (b_buf b') = length (b_buf b)"
  using writeLoop_frames [of data p s t q] assms
  by (auto simp: sendPacket_def) (auto simp: writeBack_def)

lemma sendPacket_too_large:
  "limit < int (length (fst d)) - 4 \<Longrightarrow> sendPacket b limit t q d = (Err ErrPktTooLarge, b, q)"
  by (simp add: sendPacket_def)

section \<open>The interface Packeter\<close>

text \<open>The frames of several payloads in a row, numbered on from one to the next.\<close>

fun framesOfAll :: "byte \<Rightarrow> byte list list \<Rightarrow> byte list" where
  "framesOfAll q [] = []"
| "framesOfAll q (p # ps) = framesOf q p @ framesOfAll (seqAfter q p) ps"

fun seqAfterAll :: "byte \<Rightarrow> byte list list \<Rightarrow> byte" where
  "seqAfterAll q [] = q"
| "seqAfterAll q (p # ps) = seqAfterAll (seqAfter q p) ps"

lemma framesOfAll_append: "framesOfAll q (ps @ rs) = framesOfAll q ps @ framesOfAll (seqAfterAll q ps) rs"
  by (induction ps arbitrary: q) simp_all

text \<open>
  The two packet operations of the interface \<^verbatim>\<open>Packeter\<close> and what each promises: \<open>writePacket\<close>
  appends the frames of its payload to the bytes sent, \<open>readPacket\<close> takes a payload's frames off
  the bytes to come. Both leave the sequence number where the next packet starts.
\<close>

locale packeter =
  fixes rdPkt :: "'s \<Rightarrow> gslice res \<times> 's"
    and wrPkt :: "'s \<Rightarrow> byte list \<times> bool \<Rightarrow> unit res \<times> 's"
    and incoming :: "'s \<Rightarrow> byte list"
    and outgoing :: "'s \<Rightarrow> byte list"
    and seqno :: "'s \<Rightarrow> byte"
    and limit :: "'s \<Rightarrow> int"
    and idle :: "'s \<Rightarrow> bool"
    and good :: "'s \<Rightarrow> bool"
  assumes read_packet: "good s \<Longrightarrow> incoming s = framesOf (seqno s) p @ rest \<Longrightarrow>
      length p mod MaxPacketSize \<noteq> 0 \<Longrightarrow>
      \<exists>d s'. rdPkt s = (Ok d, s') \<and> vis d = p \<and> incoming s' = rest \<and> outgoing s' = outgoing s \<and>
        seqno s' = seqAfter (seqno s) p \<and> limit s' = limit s \<and> good s'"
    and write_packet: "good s \<Longrightarrow> length data = 4 + length p \<Longrightarrow> drop 4 data = p \<Longrightarrow>
      int (length p) \<le> limit s \<Longrightarrow> (own \<longrightarrow> idle s) \<Longrightarrow>
      \<exists>s'. wrPkt s (data, own) = (Ok (), s') \<and> outgoing s' = outgoing s @ framesOf (seqno s) p \<and>
        incoming s' = incoming s \<and> seqno s' = seqAfter (seqno s) p \<and> limit s' = limit s \<and>
        idle s' = idle s \<and> good s'"
begin

text \<open>Reading several payloads one by one.\<close>

fun readMany :: "nat \<Rightarrow> 's \<Rightarrow> byte list list res \<times> 's" where
  "readMany 0 s = (Ok [], s)"
| "readMany (Suc n) s = bindS (rdPkt s) (\<lambda>d s. bindS (readMany n s) (\<lambda>ds s. (Ok (vis d # ds), s)))"

lemma readMany_frames:
  assumes "good s" and "incoming s = framesOfAll (seqno s) ps @ rest"
    and "\<forall>p \<in> set ps. length p mod MaxPacketSize \<noteq> 0"
  shows "\<exists>s'. readMany (length ps) s = (Ok ps, s') \<and> incoming s' = rest \<and> outgoing s' = outgoing s \<and> good s'"
  using assms
proof (induction ps arbitrary: s)
  case Nil
  then show ?case by simp
next
  case (Cons p ps)
  from read_packet [OF Cons.prems(1), of p "framesOfAll (seqAfter (seqno s) p) ps @ rest"] Cons.prems
  obtain d s1 where d: "rdPkt s = (Ok d, s1)" "vis d = p"
    and s1: "incoming s1 = framesOfAll (seqno s1) ps @ rest" "outgoing s1 = outgoing s" "good s1"
    by auto
  from Cons.IH [OF s1(3,1)] Cons.prems(3) s1(2) obtain s2 where
    "readMany (length ps) s1 = (Ok ps, s2)" "incoming s2 = rest" "outgoing s2 = outgoing s" "good s2" by auto
  with d show ?case by auto
qed

end

definition conn_good :: "buffer \<Rightarrow> bool" where
  "conn_good b \<longleftrightarrow> readable b \<and> (\<exists>s. b_nc b = Some s \<and> wr s = [] \<and> dl_err s = None)"

definition sentBytes :: "buffer \<Rightarrow> byte list" where
  "sentBytes b = (case b_nc b of None \<Rightarrow> [] | Some s \<Rightarrow> tx s)"

lemma sendSide_same:
  assumes "sendSide b' = sendSide b" and "readable b'" and "conn_good b"
  shows "conn_good b'" and "sentBytes b' = sentBytes b"
  using assms by (auto simp: sendSide_def conn_good_def sentBytes_def)

lemma read_packet_general:
  assumes g: "conn_good b" and st: "stream b = framesOf q p @ rest" and m: "length p mod MaxPacketSize \<noteq> 0"
  shows "\<exists>d b'. readPacketLoop b q None = (Inr d, b', seqAfter q p) \<and> vis d = p \<and> stream b' = rest \<and>
    sentBytes b' = sentBytes b \<and> conn_good b'"
proof -
  have "readable b" using g by (simp add: conn_good_def)
  from readPacketLoop_frames [OF this st m, of None] obtain d b' where
    "readPacketLoop b q None = (Inr d, b', seqAfter q p)" "vis d = p" "stream b' = rest" "readable b'"
    "sendSide b' = sendSide b" by auto
  with sendSide_same [OF this(5,4) g] show ?thesis by auto
qed

lemma wf_nc: "wf_buffer (b\<lparr>b_nc := x\<rparr>) = wf_buffer b"
  by (simp add: wf_buffer_def)

lemma send_packet_general:
  assumes g: "conn_good b" and d: "length data = 4 + length p" "drop 4 data = p" "int (length p) \<le> limit"
    and u: "own \<longrightarrow> b_len b = 0"
  shows "\<exists>b'. sendPacket b limit t q (data, own) = (Ok (), b', seqAfter q p) \<and>
    sentBytes b' = sentBytes b @ framesOf q p \<and> stream b' = stream b \<and> b_len b' = b_len b \<and> conn_good b'"
proof -
  from g obtain s where nc: "b_nc b = Some s" and s: "wr s = []" "dl_err s = None" and r: "readable b"
    by (auto simp: conn_good_def)
  from writeLoop_frames [OF d(1,2) s, of t q] obtain data' where
    w: "writeLoop s t q data = (Ok (), s\<lparr>tx := tx s @ framesOf q p\<rparr>, seqAfter q p, data')" by blast
  let ?b = "writeBack own data' (b\<lparr>b_nc := Some (s\<lparr>tx := tx s @ framesOf q p\<rparr>)\<rparr>)"
  have "sendPacket b limit t q (data, own) = (Ok (), ?b, seqAfter q p)"
    using w d nc by (simp add: sendPacket_def)
  moreover have "sentBytes ?b = sentBytes b @ framesOf q p" using nc by (simp add: sentBytes_def)
  moreover have "stream ?b = stream b"
    using nc u by (cases own) (simp_all add: stream_def unread_def writeBack_def)
  moreover have "wf_buffer ?b" using r by (simp add: readable_def wf_nc)
  then have "conn_good ?b" using r nc s by (auto simp: conn_good_def readable_def)
  moreover have "b_len ?b = b_len b" by simp
  ultimately show ?thesis by blast
qed

text \<open>Both connections are packeters.\<close>

interpretation client_packets: packeter client_readPacket client_writePacket
  "\<lambda>c. stream (c_buf c)" "\<lambda>c. sentBytes (c_buf c)" c_sequence c_maxPacketAllowed
  "\<lambda>c. b_len (c_buf c) = 0" "\<lambda>c. conn_good (c_buf c)"
proof unfold_locales
  fix c :: Client and p rest data :: "byte list" and own
  assume g: "conn_good (c_buf c)"
  show "\<exists>d c'. client_readPacket c = (Ok d, c') \<and> vis d = p \<and> stream (c_buf c') = rest \<and>
      sentBytes (c_buf c') = sentBytes (c_buf c) \<and> c_sequence c' = seqAfter (c_sequence c) p \<and>
      c_maxPacketAllowed c' = c_maxPacketAllowed c \<and> conn_good (c_buf c')"
    if "stream (c_buf c) = framesOf (c_sequence c) p @ rest" and "length p mod MaxPacketSize \<noteq> 0"
    using read_packet_general [OF g that] by (auto simp: client_readPacket_def Let_def)
  show "\<exists>c'. client_writePacket c (data, own) = (Ok (), c') \<and>
      sentBytes (c_buf c') = sentBytes (c_buf c) @ framesOf (c_sequence c) p \<and>
      stream (c_buf c') = stream (c_buf c) \<and> c_sequence c' = seqAfter (c_sequence c) p \<and>
      c_maxPacketAllowed c' = c_maxPacketAllowed c \<and>
      (b_len (c_buf c') = 0) = (b_len (c_buf c) = 0) \<and> conn_good (c_buf c')"
    if "length data = 4 + length p" and "drop 4 data = p" and "int (length p) \<le> c_maxPacketAllowed c"
      and "own \<longrightarrow> b_len (c_buf c) = 0"
    using send_packet_general [OF g that, of "c_writeTimeout c" "c_sequence c"]
    by (auto simp: client_writePacket_def)
qed

interpretation mc_packets: packeter mc_readPacket mc_writePacket
  "\<lambda>m. stream (mc_buf m)" "\<lambda>m. sentBytes (mc_buf m)" mc_sequence mc_maxPacketAllowed
  "\<lambda>m. b_len (mc_buf m) = 0" "\<lambda>m. conn_good (mc_buf m)"
proof unfold_locales
  fix m :: mysqlConn and p rest data :: "byte list" and own
  assume g: "conn_good (mc_buf m)"
  show "\<exists>d m'. mc_readPacket m = (Ok d, m') \<and> vis d = p \<and> stream (mc_buf m') = rest \<and>
      sentBytes (mc_buf m') = sentBytes (mc_buf m) \<and> mc_sequence m' = seqAfter (mc_sequence m) p \<and>
      mc_maxPacketAllowed m' = mc_maxPacketAllowed m \<and> conn_good (mc_buf m')"
    if "stream (mc_buf m) = framesOf (mc_sequence m) p @ rest" and "length p mod MaxPacketSize \<noteq> 0"
    using read_packet_general [OF g that] by (auto simp: mc_readPacket_def Let_def)
  show "\<exists>m'. mc_writePacket m (data, own) = (Ok (), m') \<and>
      sentBytes (mc_buf m') = sentBytes (mc_buf m) @ framesOf (mc_sequence m) p \<and>
      stream (mc_buf m') = stream (mc_buf m) \<and> mc_sequence m' = seqAfter (mc_sequence m) p \<and>
      mc_maxPacketAllowed m' = mc_maxPacketAllowed m \<and>
      (b_len (mc_buf m') = 0) = (b_len (mc_buf m) = 0) \<and> conn_good (mc_buf m')"
    if "length data = 4 + length p" and "drop 4 data = p" and "int (length p) \<le> mc_maxPacketAllowed m"
      and "own \<longrightarrow> b_len (mc_buf m) = 0"
    using send_packet_general [OF g that, of "mc_writeTimeout m" "mc_sequence m"]
    by (auto simp: mc_writePacket_def)
qed

section \<open>Result packets\<close>

text \<open>\<open>writeResultPackets\<close>: the payloads are written one after the other, going on after one that
  fails; the error returned is that of the last.\<close>

fun resultLoop :: "Client \<Rightarrow> unit res \<Rightarrow> byte list list \<Rightarrow> unit res \<times> Client" where
  "resultLoop c err [] = (err, c\<lparr>c_sequence := 0\<rparr>)"
| "resultLoop c err (payload # payloads) =
     (case takeBuffer (c_buf c) (length payload + 4) of
        (Ok None, b) \<Rightarrow> (Err DriverBadConn, c\<lparr>c_buf := b\<rparr>)
      | (Ok (Some (data, own)), b) \<Rightarrow>
          (let data = copyAt data 4 payload in
           case client_writePacket (c\<lparr>c_buf := writeBack own data b\<rparr>) (data, own) of
             (Panic, c) \<Rightarrow> (Panic, c)
           | (Spin, c) \<Rightarrow> (Spin, c)
           | (err, c) \<Rightarrow> resultLoop c err payloads)
      | (Err e, b) \<Rightarrow> (Err e, c\<lparr>c_buf := b\<rparr>)
      | (Panic, b) \<Rightarrow> (Panic, c\<lparr>c_buf := b\<rparr>)
      | (Spin, b) \<Rightarrow> (Spin, c\<lparr>c_buf := b\<rparr>))"

definition writeResultPackets :: "Client \<Rightarrow> byte list list \<Rightarrow> unit res \<times> Client" where
  "writeResultPackets c payloads = resultLoop c (Ok ()) payloads"

section \<open>OK packets\<close>

definition readStatus :: "byte list \<Rightarrow> u16 res" where
  "readStatus b = (if length b < 2 then Panic else Ok (ucast (b ! 0) OR shl 8 (b ! 1)))"

definition handleOkPacket :: "mysqlConn \<Rightarrow> gslice \<Rightarrow> unit res \<times> mysqlConn" where
  "handleOkPacket mc data =
     bindS (bindR (gfrom data 1) (\<lambda>d. readLengthEncodedInteger (vis d)), mc) (\<lambda>(rows, _, n) mc.
     bindS (bindR (gfrom data (1 + n)) (\<lambda>d. readLengthEncodedInteger (vis d)), mc\<lparr>mc_affectedRows := rows\<rparr>)
       (\<lambda>(ins, _, m) mc.
     bindS (bindR (gsub data (1 + n + m) (1 + n + m + 2)) (\<lambda>d. readStatus (vis d)), mc\<lparr>mc_insertID := ins\<rparr>)
       (\<lambda>st mc.
     (let mc = mc\<lparr>mc_status := st\<rparr> in
      if \<not> mc_strict mc then (Ok (), mc)
      else
        (let pos = 1 + n + m + 2 in
         bindS (bindR (gsub data pos (pos + 2)) (\<lambda>d. leUint16 (vis d)), mc) (\<lambda>w mc. (Ok (), mc)))))))"

section \<open>Command packets\<close>

text \<open>Writing the command \<open>f\<close> puts into the slice that was taken, if one was.\<close>

definition sendTaken ::
  "mysqlConn \<Rightarrow> (byte list \<times> bool) option res \<times> buffer \<Rightarrow> (byte list \<Rightarrow> byte list) \<Rightarrow> unit res \<times> mysqlConn" where
  "sendTaken mc t f =
     (case t of
        (Ok None, b) \<Rightarrow> (Err DriverBadConn, mc\<lparr>mc_buf := b\<rparr>)
      | (Ok (Some (data, own)), b) \<Rightarrow>
          mc_writePacket (mc\<lparr>mc_buf := writeBack own (f data) b\<rparr>) (f data, own)
      | (Err e, b) \<Rightarrow> (Err e, mc\<lparr>mc_buf := b\<rparr>)
      | (Panic, b) \<Rightarrow> (Panic, mc\<lparr>mc_buf := b\<rparr>)
      | (Spin, b) \<Rightarrow> (Spin, mc\<lparr>mc_buf := b\<rparr>))"

definition writeCommandPacket :: "mysqlConn \<Rightarrow> byte \<Rightarrow> unit res \<times> mysqlConn" where
  "writeCommandPacket mc command =
     (let mc = mc\<lparr>mc_sequence := 0\<rparr>
      in sendTaken mc (takeSmallBuffer (mc_buf mc) (4 + 1)) (\<lambda>data. data[4 := command]))"

definition writePacketByte :: "mysqlConn \<Rightarrow> byte \<Rightarrow> byte list \<Rightarrow> unit res \<times> mysqlConn" where
  "writePacketByte mc command arg =
     (let mc = mc\<lparr>mc_sequence := 0\<rparr>; pktLen = 1 + length arg
      in sendTaken mc (takeBuffer (mc_buf mc) (pktLen + 4)) (\<lambda>data. copyAt (data[4 := command]) 5 arg))"

definition writeCommandPacketStr :: "mysqlConn \<Rightarrow> byte \<Rightarrow> byte list \<Rightarrow> unit res \<times> mysqlConn" where
  "writeCommandPacketStr mc command arg =
     (let mc = mc\<lparr>mc_sequence := 0\<rparr>; pktLen = 1 + length arg
      in sendTaken mc (takeBuffer (mc_buf mc) (pktLen + 4)) (\<lambda>data. copyAt (data[4 := command]) 5 arg))"

definition writeCommandPacketUint32 :: "mysqlConn \<Rightarrow> byte \<Rightarrow> u32 \<Rightarrow> unit res \<times> mysqlConn" where
  "writeCommandPacketUint32 mc command arg =
     (let mc = mc\<lparr>mc_sequence := 0\<rparr>
      in sendTaken mc (takeSmallBuffer (mc_buf mc) (4 + 1 + 4))
           (\<lambda>data. data[4 := command, 5 := byteAt 0 arg, 6 := byteAt 8 arg, 7 := byteAt 16 arg,
             8 := byteAt 24 arg]))"

section \<open>What the commands send\<close>

text \<open>A connection that can take a command: it works and nothing of an earlier answer is left in
  its buffer.\<close>

definition mc_ready :: "mysqlConn \<Rightarrow> bool" where
  "mc_ready mc \<longleftrightarrow> conn_good (mc_buf mc) \<and> b_len (mc_buf mc) = 0"

lemma mc_writePacket_frame:
  "snd (mc_writePacket mc d) = mc\<lparr>mc_buf := mc_buf (snd (mc_writePacket mc d)),
     mc_sequence := mc_sequence (snd (mc_writePacket mc d))\<rparr>"
  by (simp add: mc_writePacket_def split: prod.split)

lemma conn_good_writeBack: "conn_good b \<Longrightarrow> conn_good (writeBack own data b)"
  by (auto simp: conn_good_def readable_def)

lemma stream_writeBack: "b_len b = 0 \<Longrightarrow> stream (writeBack own data b) = stream b"
  by (simp add: stream_def unread_def)

lemma sentBytes_writeBack: "sentBytes (writeBack own data b) = sentBytes b"
  by (simp add: sentBytes_def)

lemma sendTaken_sends:
  assumes r: "conn_good b" "b_len b = 0" and t: "t = (Ok (Some (data, own)), b)"
    and f: "length (f data) = 4 + length p" "drop 4 (f data) = p" and l: "int (length p) \<le> mc_maxPacketAllowed mc"
  shows "\<exists>mc'. sendTaken mc t f = (Ok (), mc') \<and>
    sentBytes (mc_buf mc') = sentBytes b @ framesOf (mc_sequence mc) p \<and>
    stream (mc_buf mc') = stream b \<and> mc_sequence mc' = seqAfter (mc_sequence mc) p \<and>
    mc' = mc\<lparr>mc_buf := mc_buf mc', mc_sequence := mc_sequence mc'\<rparr> \<and> mc_ready mc'"
proof -
  let ?mc = "mc\<lparr>mc_buf := writeBack own (f data) b\<rparr>"
  have "conn_good (mc_buf ?mc)" using r by (simp add: conn_good_writeBack)
  from mc_packets.write_packet [OF this f, of own] l r obtain mc' where
    w: "mc_writePacket ?mc (f data, own) = (Ok (), mc')"
    "sentBytes (mc_buf mc') = sentBytes b @ framesOf (mc_sequence mc) p"
    "stream (mc_buf mc') = stream b" "mc_sequence mc' = seqAfter (mc_sequence mc) p"
    "b_len (mc_buf mc') = 0" "conn_good (mc_buf mc')"
    by (auto simp: sentBytes_writeBack stream_writeBack)
  moreover have "mc' = mc\<lparr>mc_buf := mc_buf mc', mc_sequence := mc_sequence mc'\<rparr>"
    using mc_writePacket_frame [of ?mc "(f data, own)"] w(1) by simp
  ultimately show ?thesis using t by (simp add: sendTaken_def mc_ready_def)
qed

lemma takeBuffer_ready:
  assumes "conn_good b" and "b_len b = 0"
  shows "\<exists>data own b'. takeBuffer b n = (Ok (Some (data, own)), b') \<and> length data = n \<and>
    conn_good b' \<and> b_len b' = 0 \<and> stream b' = stream b \<and> sentBytes b' = sentBytes b"
proof -
  have "wf_buffer b" using assms by (simp add: conn_good_def readable_def)
  from takeBuffer_fits [OF this assms(2), of n] obtain data own b' where
    t: "takeBuffer b n = (Ok (Some (data, own)), b')" "length data = n" "wf_buffer b'"
    "b_len b' = 0" "b_nc b' = b_nc b" "b_timeout b' = b_timeout b" by blast
  with assms show ?thesis
    by (auto simp: conn_good_def readable_def stream_def unread_def sentBytes_def)
qed

lemma takeSmallBuffer_ready:
  assumes "conn_good b" and "b_len b = 0" and "n \<le> defaultBufSize"
  shows "\<exists>data own. takeSmallBuffer b n = (Ok (Some (data, own)), b) \<and> length data = n"
  using takeSmallBuffer_fits [of b n] assms by (auto simp: conn_good_def readable_def)

lemma drop4_command:
  "length data = 5 + length arg \<Longrightarrow> drop 4 (copyAt (data[4 := c]) 5 arg) = c # arg"
  by (simp add: copyAt_fits take_Suc_conv_app_nth flip: numeral_eq_Suc add: eval_nat_numeral)

lemma writeCommandPacketStr_sends:
  assumes "mc_ready mc" and "int (length arg) + 1 \<le> mc_maxPacketAllowed mc"
  shows "\<exists>mc'. writeCommandPacketStr mc c arg = (Ok (), mc') \<and>
    sentBytes (mc_buf mc') = sentBytes (mc_buf mc) @ framesOf 0 (c # arg) \<and>
    stream (mc_buf mc') = stream (mc_buf mc) \<and> mc_sequence mc' = seqAfter 0 (c # arg) \<and>
    mc' = mc\<lparr>mc_buf := mc_buf mc', mc_sequence := mc_sequence mc'\<rparr> \<and> mc_ready mc'"
proof -
  from assms(1) have g: "conn_good (mc_buf mc)" "b_len (mc_buf mc) = 0" by (simp_all add: mc_ready_def)
  from takeBuffer_ready [OF this, of "1 + length arg + 4"] obtain data own b where
    t: "takeBuffer (mc_buf mc) (1 + length arg + 4) = (Ok (Some (data, own)), b)"
    and b: "length data = 5 + length arg" "conn_good b" "b_len b = 0"
      "stream b = stream (mc_buf mc)" "sentBytes b = sentBytes (mc_buf mc)" by auto
  from sendTaken_sends [OF b(2,3) t, of "\<lambda>data. copyAt (data[4 := c]) 5 arg" "c # arg" "mc\<lparr>mc_sequence := 0\<rparr>"]
    b drop4_command [OF b(1), of c] assms(2)
  show ?thesis by (auto simp: writeCommandPacketStr_def Let_def)
qed

lemma writeCommandPacketUint32_sends:
  assumes "mc_ready mc" and "5 \<le> mc_maxPacketAllowed mc"
  shows "\<exists>mc'. writeCommandPacketUint32 mc c n = (Ok (), mc') \<and>
    sentBytes (mc_buf mc') = sentBytes (mc_buf mc) @ framesOf 0 (c # putUint32 n) \<and>
    stream (mc_buf mc') = stream (mc_buf mc) \<and> mc_sequence mc' = seqAfter 0 (c # putUint32 n) \<and>
    mc' = mc\<lparr>mc_buf := mc_buf mc', mc_sequence := mc_sequence mc'\<rparr> \<and> mc_ready mc'"
proof -
  from assms(1) have g: "conn_good (mc_buf mc)" "b_len (mc_buf mc) = 0" by (simp_all add: mc_ready_def)
  from takeSmallBuffer_ready [OF this, of 9] obtain data own where
    t: "takeSmallBuffer (mc_buf mc) 9 = (Ok (Some (data, own)), mc_buf mc)" and l: "length data = 9"
    by (auto simp: defaultBufSize_def)
  have d: "drop 4 (data[4 := c, 5 := byteAt 0 n, 6 := byteAt 8 n, 7 := byteAt 16 n, 8 := byteAt 24 n]) =
      c # putUint32 n"
  proof (rule nth_equalityI)
    fix i
    assume "i < length (drop 4 (data[4 := c, 5 := byteAt 0 n, 6 := byteAt 8 n, 7 := byteAt 16 n, 8 := byteAt 24 n]))"
    then have "i < 5" using l by simp
    then have "i = 0 \<or> i = 1 \<or> i = 2 \<or> i = 3 \<or> i = 4" by auto
    then show "drop 4 (data[4 := c, 5 := byteAt 0 n, 6 := byteAt 8 n, 7 := byteAt 16 n, 8 := byteAt 24 n]) ! i =
        (c # putUint32 n) ! i" using l by (auto simp: putUint32_def)
  qed (simp add: l putUint32_def)
  from sendTaken_sends [OF g t, of "\<lambda>data. data[4 := c, 5 := byteAt 0 n, 6 := byteAt 8 n, 7 := byteAt 16 n,
      8 := byteAt 24 n]" "c # putUint32 n" "mc\<lparr>mc_sequence := 0\<rparr>"] d l assms(2)
  show ?thesis by (auto simp: writeCommandPacketUint32_def Let_def putUint32_def)
qed

text \<open>The result of a query goes out as the frames of its packets, numbered through.\<close>

lemma client_writePacket_frame:
  "snd (client_writePacket c d) = c\<lparr>c_buf := c_buf (snd (client_writePacket c d)),
     c_sequence := c_sequence (snd (client_writePacket c d))\<rparr>"
  by (simp add: client_writePacket_def split: prod.split)

lemma resultLoop_sends:
  assumes "conn_good (c_buf c)" and "b_len (c_buf c) = 0"
    and "\<forall>p \<in> set ps. int (length p) \<le> c_maxPacketAllowed c"
  shows "\<exists>c'. resultLoop c (Ok ()) ps = (Ok (), c') \<and>
    sentBytes (c_buf c') = sentBytes (c_buf c) @ framesOfAll (c_sequence c) ps \<and>
    stream (c_buf c') = stream (c_buf c) \<and> conn_good (c_buf c') \<and> b_len (c_buf c') = 0 \<and>
    c' = c\<lparr>c_buf := c_buf c', c_sequence := 0\<rparr>"
  using assms
proof (induction ps arbitrary: c)
  case Nil
  then show ?case by simp
next
  case (Cons p ps)
  from takeBuffer_ready [OF Cons.prems(1,2), of "length p + 4"] obtain data own b where
    t: "takeBuffer (c_buf c) (length p + 4) = (Ok (Some (data, own)), b)" and l: "length data = length p + 4"
    and b: "conn_good b" "b_len b = 0" "stream b = stream (c_buf c)" "sentBytes b = sentBytes (c_buf c)"
    by blast
  let ?d = "copyAt data 4 p"
  let ?c = "c\<lparr>c_buf := writeBack own ?d b\<rparr>"
  have d: "length ?d = 4 + length p" "drop 4 ?d = p" using l by (simp_all add: copyAt_fits)
  have "conn_good (c_buf ?c)" using b by (simp add: conn_good_writeBack)
  from client_packets.write_packet [OF this d, of own] Cons.prems(3) b obtain c1 where
    w: "client_writePacket ?c (?d, own) = (Ok (), c1)"
    and c1: "sentBytes (c_buf c1) = sentBytes (c_buf c) @ framesOf (c_sequence c) p"
      "stream (c_buf c1) = stream (c_buf c)" "c_sequence c1 = seqAfter (c_sequence c) p"
      "c_maxPacketAllowed c1 = c_maxPacketAllowed c" "b_len (c_buf c1) = 0" "conn_good (c_buf c1)"
    by (auto simp: sentBytes_writeBack stream_writeBack)
  have f: "c1 = c\<lparr>c_buf := c_buf c1, c_sequence := c_sequence c1\<rparr>"
    using client_writePacket_frame [of ?c "(?d, own)"] w by simp
  from Cons.IH [OF c1(6,5)] Cons.prems(3) c1 obtain c2 where
    "resultLoop c1 (Ok ()) ps = (Ok (), c2)"
    "sentBytes (c_buf c2) = sentBytes (c_buf c1) @ framesOfAll (c_sequence c1) ps"
    "stream (c_buf c2) = stream (c_buf c1)" "conn_good (c_buf c2)" "b_len (c_buf c2) = 0"
    and c2: "c2 = c1\<lparr>c_buf := c_buf c2, c_sequence := 0\<rparr>" by auto
  moreover have "c2 = c\<lparr>c_buf := c_buf c2, c_sequence := 0\<rparr>"
    by (subst c2, subst f) simp
  ultimately show ?case using t w c1 by (simp add: Let_def)
qed

section \<open>Properties\<close>

lemma length_framesOf [simp]: "length p < MaxPacketSize \<Longrightarrow> length (framesOf q p) = 4 + length p"
  by (simp add: framesOf.simps [of q p])

lemma idle_good [simp]: "clean es \<Longrightarrow> conn_good (newBuffer (Some (idleSock es)))"
  using newBuffer_readable [of "idleSock es"] by (simp add: conn_good_def) (simp add: newBuffer_def)

lemma idle_empty [simp]: "b_len (newBuffer s) = 0"
  by (simp add: newBuffer_def)

lemma idle_sent [simp]: "sentBytes (newBuffer (Some (idleSock es))) = []"
  by (simp add: newBuffer_def sentBytes_def)

lemma idle_stream [simp]: "stream (newBuffer (Some (idleSock es))) = rxData es"
  by (simp add: newBuffer_stream)

lemma idleConn_ready [simp]: "clean es \<Longrightarrow> mc_ready (idleConn es)"
  by (simp add: mc_ready_def)

text \<open>C9: a packet that one end writes, split into frames with running sequence numbers when it is long, is
  the packet the other end reads, in whatever pieces the frames arrive; both ends agree on the next
  sequence number, and what follows the packet is left.\<close>

theorem packet_roundtrip:
  assumes "conn_good (mc_buf mc)" and "length data = 4 + length p" and "drop 4 data = p"
    and "int (length p) \<le> mc_maxPacketAllowed mc" and "length p mod MaxPacketSize \<noteq> 0"
    and "conn_good (c_buf c)" and "c_sequence c = mc_sequence mc"
    and "stream (c_buf c) = framesOf (mc_sequence mc) p @ rest"
  shows "\<exists>mc' d c'. mc_writePacket mc (data, False) = (Ok (), mc') \<and>
    sentBytes (mc_buf mc') = sentBytes (mc_buf mc) @ framesOf (mc_sequence mc) p \<and>
    client_readPacket c = (Ok d, c') \<and> vis d = p \<and> stream (c_buf c') = rest \<and> c_sequence c' = mc_sequence mc'"
  using mc_packets.write_packet [OF assms(1-4), of False] client_packets.read_packet [of c p rest] assms(5-)
  by auto

theorem packet_roundtrip_witness:
  "\<exists>mc' d c'. mc_writePacket (idleConn []) ([0, 0, 0, 0, 14], False) = (Ok (), mc') \<and>
    sentBytes (mc_buf mc') = sentBytes (mc_buf (idleConn [])) @ framesOf (mc_sequence (idleConn [])) [14] \<and>
    client_readPacket (idleClient [Rd (framesOf 0 [14]) None, Rd [9] None]) = (Ok d, c') \<and> vis d = [14] \<and>
    stream (c_buf c') = [9] \<and> c_sequence c' = mc_sequence mc'"
  by (rule packet_roundtrip) (simp_all add: MaxPacketSize_val)

text \<open>C24: a payload whose length is a multiple of the largest packet, the empty one first of all, ends in an
  empty frame, and that frame the reader of the same program refuses: the connection to the database is
  closed and reported as bad.\<close>

theorem packet_multiple_refused:
  assumes "conn_good (mc_buf mc)" and "stream (mc_buf mc) = framesOf (mc_sequence mc) p @ rest"
    and "length p mod MaxPacketSize = 0"
  shows "\<exists>mc'. mc_readPacket mc = (Err DriverBadConn, mc') \<and> b_nc (mc_buf mc') = None"
proof -
  from assms(1) have "readable (mc_buf mc)" by (simp add: conn_good_def)
  from readPacketLoop_multiple [OF this assms(2,3), of None] show ?thesis
    by (auto simp: mc_readPacket_def mc_Close_def Let_def)
qed

theorem packet_multiple_refused_witness:
  "\<exists>mc'. mc_readPacket (idleConn [Rd (framesOf 0 (replicate MaxPacketSize 7)) None]) = (Err DriverBadConn, mc') \<and>
    b_nc (mc_buf mc') = None"
  by (rule packet_multiple_refused [where p = "replicate MaxPacketSize 7" and rest = "[]"]) simp_all

text \<open>A packet above the limit is refused before anything is written, on both ends, and neither the
  connection nor the sequence number has changed.\<close>

lemma packet_too_large:
  assumes "mc_maxPacketAllowed mc < int (length data) - 4" and "c_maxPacketAllowed c < int (length data) - 4"
  shows "mc_writePacket mc (data, own) = (Err ErrPktTooLarge, mc) \<and>
    client_writePacket c (data, own) = (Err ErrPktTooLarge, c)"
  using assms by (simp add: mc_writePacket_def client_writePacket_def sendPacket_too_large)

lemma packet_too_large_witness:
  "mc_writePacket ((idleConn [])\<lparr>mc_maxPacketAllowed := 2\<rparr>) (replicate 7 0, True) =
      (Err ErrPktTooLarge, (idleConn [])\<lparr>mc_maxPacketAllowed := 2\<rparr>) \<and>
    client_writePacket ((idleClient [])\<lparr>c_maxPacketAllowed := 2\<rparr>) (replicate 7 0, True) =
      (Err ErrPktTooLarge, (idleClient [])\<lparr>c_maxPacketAllowed := 2\<rparr>)"
  by (rule packet_too_large) simp_all

text \<open>The packets of a result are written to the client in order and under running sequence numbers: a
  reader that starts at the same number gets exactly these packets.\<close>

lemma results_roundtrip:
  assumes "conn_good (c_buf c)" and "b_len (c_buf c) = 0"
    and "\<forall>p \<in> set ps. int (length p) \<le> c_maxPacketAllowed c \<and> length p mod MaxPacketSize \<noteq> 0"
    and "conn_good (mc_buf mc)" and "mc_sequence mc = c_sequence c"
    and "stream (mc_buf mc) = framesOfAll (c_sequence c) ps @ rest"
  shows "\<exists>c' mc'. writeResultPackets c ps = (Ok (), c') \<and> c_sequence c' = 0 \<and>
    sentBytes (c_buf c') = sentBytes (c_buf c) @ framesOfAll (c_sequence c) ps \<and>
    packeter.readMany mc_readPacket (length ps) mc = (Ok ps, mc') \<and> stream (mc_buf mc') = rest"
proof -
  from resultLoop_sends [OF assms(1,2), of ps] assms(3) obtain c' where
    "writeResultPackets c ps = (Ok (), c')" "c' = c\<lparr>c_buf := c_buf c', c_sequence := 0\<rparr>"
    "sentBytes (c_buf c') = sentBytes (c_buf c) @ framesOfAll (c_sequence c) ps"
    by (auto simp: writeResultPackets_def)
  moreover from this(2) have "c_sequence c' = 0" by (cases c; cases c') simp
  ultimately show ?thesis using mc_packets.readMany_frames [of mc ps rest] assms(3-) by auto
qed

lemma results_roundtrip_witness:
  "\<exists>c' mc'. writeResultPackets (idleClient []) [[1], [2, 3]] = (Ok (), c') \<and> c_sequence c' = 0 \<and>
    sentBytes (c_buf c') =
      sentBytes (c_buf (idleClient [])) @ framesOfAll (c_sequence (idleClient [])) [[1], [2, 3]] \<and>
    packeter.readMany mc_readPacket (length [[1], [2, 3 :: byte]])
      (idleConn [Rd (framesOfAll 0 [[1], [2, 3]]) None]) = (Ok [[1], [2, 3]], mc') \<and> stream (mc_buf mc') = []"
  by (rule results_roundtrip) (simp_all add: MaxPacketSize_val)

text \<open>A command to the database, with a text or with a 32-bit number as its argument, goes out as one
  packet that starts again at sequence number 0 and holds the command byte and the argument, the number
  with its lowest byte first; the connection is as ready as before.\<close>

lemma command_sent:
  assumes "mc_ready mc" and "int (length arg) + 1 \<le> mc_maxPacketAllowed mc" and "5 \<le> mc_maxPacketAllowed mc"
  shows "\<exists>m1 m2. writeCommandPacketStr mc cmd arg = (Ok (), m1) \<and> writeCommandPacketUint32 mc cmd n = (Ok (), m2) \<and>
    sentBytes (mc_buf m1) = sentBytes (mc_buf mc) @ framesOf 0 (cmd # arg) \<and>
    sentBytes (mc_buf m2) = sentBytes (mc_buf mc) @ framesOf 0 (cmd # putUint32 n) \<and>
    leUint32 (putUint32 n) = Ok n \<and> mc_ready m1 \<and> mc_ready m2"
  using writeCommandPacketStr_sends [OF assms(1,2), of cmd] writeCommandPacketUint32_sends [OF assms(1,3), of cmd n]
    leUint32_put [of n "[]"] by auto

lemma command_sent_witness:
  "\<exists>m1 m2. writeCommandPacketStr (idleConn []) 3 [0x61] = (Ok (), m1) \<and>
    writeCommandPacketUint32 (idleConn []) 3 258 = (Ok (), m2) \<and>
    sentBytes (mc_buf m1) = sentBytes (mc_buf (idleConn [])) @ framesOf 0 (3 # [0x61]) \<and>
    sentBytes (mc_buf m2) = sentBytes (mc_buf (idleConn [])) @ framesOf 0 (3 # putUint32 258) \<and>
    leUint32 (putUint32 258) = Ok 258 \<and> mc_ready m1 \<and> mc_ready m2"
  by (rule command_sent) simp_all

end
