(* ===== verification/Server_Conn.thy ===== *)
theory Server_Conn
  imports Server_Packets Mysql_Auth Mysql_Collations
begin

text \<open>
  \<^verbatim>\<open>server/mysql_conn.go\<close> and \<^verbatim>\<open>server/mysql_tx.go\<close>: the proxy as a client of the database. The
  connection phase (\<open>readInitPacket\<close>, \<open>writeAuthPacket\<close>, \<open>readInitOK\<close>), the commands with their answers
  (\<open>mc_Exec\<close>, \<open>mc_Query\<close>, \<open>mc_Prepare\<close>), transactions and prepared statements. A result is the list of
  the packets' slices: most of them lie in the connection's buffer.
\<close>

section \<open>Error packets and header packets\<close>

definition handleErrorPacket :: "gslice \<Rightarrow> unit res" where
  "handleErrorPacket data =
     bindR (idxAt data 0) (\<lambda>h.
       if h \<noteq> HeaderERR then Err ErrMalformPkt
       else
         bindR (gsub data 1 3) (\<lambda>d.
         bindR (leUint16 (vis d)) (\<lambda>errno.
         bindR (idxAt data 3) (\<lambda>x.
           (let pos = (if x = 0x23 then 9 else 3) in
            bindR (gfrom data pos) (\<lambda>m. Err (MySqlErr \<lparr>Number = errno, MyMessage = vis m\<rparr>)))))))"

definition readResultSetHeaderPacket :: "mysqlConn \<Rightarrow> (gslice \<times> int) res \<times> mysqlConn" where
  "readResultSetHeaderPacket mc =
     bindS (mc_readPacket mc) (\<lambda>data mc.
     bindS (idxAt data 0, mc) (\<lambda>h mc.
       if h = HeaderOK then bindS (handleOkPacket mc data) (\<lambda>_ mc. (Ok (data, 0), mc))
       else if h = HeaderERR then bindS (handleErrorPacket data, mc) (\<lambda>_ mc. (Ok (data, 0), mc))
       else if h = HeaderLocalInFile then (Err NotSupport, mc)
       else
         bindS (readLengthEncodedInteger (vis data), mc) (\<lambda>(num, _, n) mc.
           if n - len data = 0 then (Ok (data, sint num), mc) else (Err ErrMalformPkt, mc))))"

section \<open>The read loops\<close>

text \<open>Each packet read uses up at least its header, so the loops end with the bytes.\<close>

lemma readPacketLoop_available:
  "readPacketLoop b s acc = (Inr d, b', s') \<Longrightarrow> available b' < available b"
proof (induction b s acc rule: readPacketLoop.induct)
  case (1 b s acc)
  obtain hr b1 where h: "readNext b 4 = (hr, b1)" by fastforce
  then obtain hdr where hr: "hr = Ok hdr"
    using 1(2) by (cases hr) (simp_all add: readPacketLoop.simps [of b])
  have a1: "available b1 + 4 = available b" using readNext_available h hr by simp
  have ne: "\<not> hdrLen (vis hdr) < 1" "vis hdr ! 3 = s"
    using 1(2) h hr by (auto simp: readPacketLoop.simps [of b] Let_def split: if_splits)
  obtain dr b2 where d: "readNext b1 (hdrLen (vis hdr)) = (dr, b2)" by fastforce
  then obtain data where dr: "dr = Ok data"
    using 1(2) h hr ne by (cases dr) (auto simp: readPacketLoop.simps [of b] Let_def)
  have a2: "available b2 + hdrLen (vis hdr) = available b1" using readNext_available d dr by simp
  show ?case
  proof (cases "hdrLen (vis hdr) < MaxPacketSize")
    case True
    then show ?thesis using 1(2) h hr ne d dr a1 a2
      by (auto simp: readPacketLoop.simps [of b] Let_def split: if_splits)
  next
    case False
    let ?p = "(case acc of None \<Rightarrow> [] | Some p \<Rightarrow> p) @ vis data"
    have "readPacketLoop b2 (s + 1) (Some ?p) = (Inr d, b', s')"
      using 1(2) h hr ne d dr False by (auto simp: readPacketLoop.simps [of b] Let_def)
    then have "available b' < available b2"
      using 1(1) h hr ne d dr False by auto
    with a1 a2 show ?thesis by simp
  qed
qed

lemma mc_readPacket_available:
  "mc_readPacket mc = (Ok d, mc') \<Longrightarrow> available (mc_buf mc') < available (mc_buf mc)"
  using readPacketLoop_available [of "mc_buf mc" "mc_sequence mc" None]
  by (auto simp: mc_readPacket_def Let_def split: prod.splits sum.splits rd_fail.splits)

function readResultSetLoop ::
  "mysqlConn \<Rightarrow> gslice list \<Rightarrow> int \<Rightarrow> int \<Rightarrow> gslice list res \<times> mysqlConn" where
  "readResultSetLoop mc res count i =
     (case mc_readPacket mc of
        (Ok data, mc) \<Rightarrow>
          (let res = res @ [data] in
           case idxAt data 0 of
             Ok h \<Rightarrow>
               if h = HeaderEOF \<and> (len data = 5 \<or> len data = 1) then
                 (if i = count then (Ok res, mc) else (Err (ColumnMismatch count (nat i)), mc))
               else readResultSetLoop mc res count (i + 1)
           | _ \<Rightarrow> (Panic, mc))
      | (Err e, mc) \<Rightarrow> (Err e, mc)
      | (Panic, mc) \<Rightarrow> (Panic, mc)
      | (Spin, mc) \<Rightarrow> (Spin, mc))"
  by pat_completeness auto
termination
  by (relation "measure (\<lambda>(mc, res, count, i). available (mc_buf mc))")
    (auto dest!: sym [of _ "mc_readPacket _"] dest: mc_readPacket_available)

declare readResultSetLoop.simps [simp del]

definition readResultSetPacket :: "mysqlConn \<Rightarrow> gslice list \<Rightarrow> int \<Rightarrow> gslice list res \<times> mysqlConn" where
  "readResultSetPacket mc res count = readResultSetLoop mc res count 0"

function readUntilEOF :: "mysqlConn \<Rightarrow> gslice list \<Rightarrow> gslice list res \<times> mysqlConn" where
  "readUntilEOF mc res =
     (case mc_readPacket mc of
        (Ok data, mc) \<Rightarrow>
          (let res = res @ [data] in
           case idxAt data 0 of
             Ok h \<Rightarrow>
               if h \<noteq> HeaderEOF then readUntilEOF mc res
               else if len data = 5 then
                 bindS (bindR (gfrom data 3) (\<lambda>d. readStatus (vis d)), mc) (\<lambda>st mc.
                   (Ok res, mc\<lparr>mc_status := st\<rparr>))
               else (Ok res, mc)
           | _ \<Rightarrow> (Panic, mc))
      | (Err e, mc) \<Rightarrow> (Err e, mc)
      | (Panic, mc) \<Rightarrow> (Panic, mc)
      | (Spin, mc) \<Rightarrow> (Spin, mc))"
  by pat_completeness auto
termination
  by (relation "measure (\<lambda>(mc, res). available (mc_buf mc))")
    (auto dest!: sym [of _ "mc_readPacket _"] dest: mc_readPacket_available)

declare readUntilEOF.simps [simp del]

section \<open>Commands\<close>

definition mc_Exec :: "mysqlConn \<Rightarrow> gslice \<Rightarrow> gslice res \<times> mysqlConn" where
  "mc_Exec mc data =
     bindS (idxAt data 0, mc) (\<lambda>cmd mc.
     bindS (gfrom data 1, mc) (\<lambda>arg mc.
     bindS (writeCommandPacketStr mc cmd (vis arg)) (\<lambda>_ mc.
     bindS (readResultSetHeaderPacket mc) (\<lambda>(reshd, _) mc. (Ok reshd, mc)))))"

text \<open>\<^verbatim>\<open>make([][]byte, 0, n)\<close> panics when the capacity is negative or its bytes do not fit the address
  space (48 bits on amd64; a slice header has 24 bytes).\<close>

definition makeSlices :: "int \<Rightarrow> unit res" where
  "makeSlices n = (if n < 0 \<or> 2 ^ 48 < n * 24 then Panic else Ok ())"

definition mc_Query :: "mysqlConn \<Rightarrow> gslice \<Rightarrow> gslice list res \<times> mysqlConn" where
  "mc_Query mc data =
     bindS (idxAt data 0, mc) (\<lambda>cmd mc.
     bindS (gfrom data 1, mc) (\<lambda>arg mc.
     bindS (writeCommandPacketStr mc cmd (vis arg)) (\<lambda>_ mc.
     bindS (readResultSetHeaderPacket mc) (\<lambda>(reshd, resLen) mc.
     bindS (makeSlices (wrap64 (wrap64 (resLen * 2) + 1)), mc) (\<lambda>_ mc.
       if 0 < resLen then
         bindS (readResultSetPacket mc [reshd] resLen) (\<lambda>result mc. readUntilEOF mc result)
       else (Ok [reshd], mc))))))"

section \<open>Prepared statements\<close>

text \<open>\<open>readPrepareResultPacket\<close> is a method of the statement and reads through its connection.\<close>

definition withMc :: "mysqlStmt \<Rightarrow> 'a res \<times> mysqlConn \<Rightarrow> 'a res \<times> mysqlStmt" where
  "withMc ms rm = (fst rm, ms\<lparr>st_mc := Some (snd rm)\<rparr>)"

definition readPrepareResultPacket :: "mysqlStmt \<Rightarrow> (gslice \<times> u16) res \<times> mysqlStmt" where
  "readPrepareResultPacket ms =
     (case st_mc ms of
        None \<Rightarrow> (Panic, ms)
      | Some mc \<Rightarrow>
          bindS (withMc ms (mc_readPacket mc)) (\<lambda>data ms.
          bindS (idxAt data 0, ms) (\<lambda>h ms.
            if h \<noteq> HeaderOK then bindS (handleErrorPacket data, ms) (\<lambda>_ ms. (Ok (data, 0), ms))
            else
              bindS (bindR (gsub data 1 5) (\<lambda>d. leUint32 (vis d)), ms) (\<lambda>id ms.
              bindS (bindR (gsub data 5 7) (\<lambda>d. leUint16 (vis d)), ms\<lparr>st_id := id\<rparr>) (\<lambda>columnCount ms.
              bindS (bindR (gsub data 7 9) (\<lambda>d. leUint16 (vis d)), ms) (\<lambda>params ms.
              (let ms = ms\<lparr>st_paramCount := uint params\<rparr> in
               if \<not> mc_strict mc then (Ok (data, columnCount), ms)
               else if 12 \<le> len data then
                 bindS (bindR (gsub data 10 12) (\<lambda>d. leUint16 (vis d)), ms) (\<lambda>w ms.
                   if 0 < w then (Err StmtWarnings, ms) else (Ok (data, columnCount), ms))
               else (Ok (data, columnCount), ms))))))))"

definition mc_Prepare :: "mysqlConn \<Rightarrow> byte list \<Rightarrow> (gslice list \<times> mysqlStmt) res \<times> mysqlConn" where
  "mc_Prepare mc query =
     (if b_nc (mc_buf mc) = None then (Err ErrBadConn, mc)
      else
        bindS (writeCommandPacketStr mc (com_byte ComStmtPrepare) query) (\<lambda>_ mc.
          (case readPrepareResultPacket \<lparr>st_id = 0, st_mc = Some mc, st_paramCount = 0\<rparr> of
             (r, stmt) \<Rightarrow>
               (let mc = (case st_mc stmt of Some m \<Rightarrow> m | None \<Rightarrow> mc) in
                bindS (r, mc) (\<lambda>(head, columnCount) mc.
                bindS (if 0 < st_paramCount stmt then readUntilEOF mc [head] else (Ok [head], mc)) (\<lambda>data mc.
                bindS (if 0 < columnCount then readUntilEOF mc data else (Ok data, mc)) (\<lambda>data mc.
                  (Ok (data, stmt\<lparr>st_mc := Some mc\<rparr>), mc))))))))"

text \<open>\<open>Close\<close> sends the command and lets go of the connection; the last component is what is left of it.\<close>

definition stmt_Close :: "mysqlStmt \<Rightarrow> unit res \<times> mysqlStmt \<times> mysqlConn option" where
  "stmt_Close ms =
     (case st_mc ms of
        None \<Rightarrow> (Err ErrBadConn, ms, None)
      | Some mc \<Rightarrow>
          if b_nc (mc_buf mc) = None then (Err ErrBadConn, ms, None)
          else
            (case writeCommandPacketUint32 mc (com_byte ComStmtClose) (st_id ms) of
               (Panic, mc) \<Rightarrow> (Panic, ms\<lparr>st_mc := Some mc\<rparr>, None)
             | (Spin, mc) \<Rightarrow> (Spin, ms\<lparr>st_mc := Some mc\<rparr>, None)
             | (r, mc) \<Rightarrow> (r, ms\<lparr>st_mc := None\<rparr>, Some mc)))"

definition stmt_NumInput :: "mysqlStmt \<Rightarrow> int" where
  "stmt_NumInput ms = st_paramCount ms"

definition stmt_Exec :: "mysqlStmt \<Rightarrow> gslice \<Rightarrow> gslice res \<times> mysqlStmt" where
  "stmt_Exec ms data =
     (case st_mc ms of
        None \<Rightarrow> (Panic, ms)
      | Some mc \<Rightarrow>
          if b_nc (mc_buf mc) = None then (Err ErrBadConn, ms)
          else withMc ms (mc_Exec mc data))"

definition stmt_Query :: "mysqlStmt \<Rightarrow> gslice \<Rightarrow> gslice list res \<times> mysqlStmt" where
  "stmt_Query ms data =
     (case st_mc ms of
        None \<Rightarrow> (Panic, ms)
      | Some mc \<Rightarrow>
          if b_nc (mc_buf mc) = None then (Err ErrBadConn, ms)
          else withMc ms (mc_Query mc data))"

section \<open>Transactions\<close>

record mysqlTx =
  tx_mc :: "mysqlConn option"

text \<open>Like \<open>stmt_Close\<close>, both let go of the connection.\<close>

definition endTx :: "byte list \<Rightarrow> mysqlTx \<Rightarrow> unit res \<times> mysqlTx \<times> mysqlConn option" where
  "endTx cmd t =
     (case tx_mc t of
        None \<Rightarrow> (Err ErrInvalidConn, t, None)
      | Some mc \<Rightarrow>
          if b_nc (mc_buf mc) = None then (Err ErrInvalidConn, t, None)
          else
            (case writeCommandPacketStr mc (com_byte ComQuery) cmd of
               (Panic, mc) \<Rightarrow> (Panic, t\<lparr>tx_mc := Some mc\<rparr>, None)
             | (Spin, mc) \<Rightarrow> (Spin, t\<lparr>tx_mc := Some mc\<rparr>, None)
             | (r, mc) \<Rightarrow> (r, t\<lparr>tx_mc := None\<rparr>, Some mc)))"

definition tx_Commit :: "mysqlTx \<Rightarrow> unit res \<times> mysqlTx \<times> mysqlConn option" where
  "tx_Commit t = endTx (str ''COMMIT'') t"

definition tx_Rollback :: "mysqlTx \<Rightarrow> unit res \<times> mysqlTx \<times> mysqlConn option" where
  "tx_Rollback t = endTx (str ''ROLLBACK'') t"

section \<open>The connection phase\<close>

text \<open>\<^verbatim>\<open>bytes.IndexByte\<close>\<close>

fun indexByte :: "byte list \<Rightarrow> byte \<Rightarrow> int" where
  "indexByte [] c = - 1"
| "indexByte (x # xs) c = (if x = c then 0 else (let i = indexByte xs c in if i < 0 then - 1 else i + 1))"

text \<open>\<^verbatim>\<open>append(s, bs...)\<close> writes into the array behind \<open>s\<close> when its capacity is large enough; for a slice
  of a buffer that is one of the buffer's arrays.\<close>

definition appendInto :: "buffer \<Rightarrow> gslice \<Rightarrow> byte list \<Rightarrow> buffer" where
  "appendInto b s bs =
     (case org s of
        None \<Rightarrow> b
      | Some (g, k) \<Rightarrow>
          if length (ext s) < length bs then b
          else if g < length (b_old b)
          then b\<lparr>b_old := (b_old b)[g := copyAt (b_old b ! g) (k + length (vis s)) bs]\<rparr>
          else b\<lparr>b_buf := copyAt (b_buf b) (k + length (vis s)) bs\<rparr>)"

definition readInitPacket :: "mysqlConn \<Rightarrow> byte list res \<times> mysqlConn" where
  "readInitPacket mc =
     bindS (mc_readPacket mc) (\<lambda>data mc.
     bindS (idxAt data 0, mc) (\<lambda>h mc.
       if h = HeaderERR then bindS (handleErrorPacket data, mc) (\<lambda>_ mc. (Ok [], mc))
       else if h < MinProtocolVersion then (Err (ProtocolVersion h), mc)
       else
         bindS (gfrom data 1, mc) (\<lambda>rest mc.
         (let pos = 1 + indexByte (vis rest) 0 + 1 + 4 in
         bindS (gsub data pos (pos + 8), mc) (\<lambda>cipher mc.
         (let pos = pos + 9 in
         bindS (bindR (gsub data pos (pos + 2)) (\<lambda>d. leUint16 (vis d)), mc) (\<lambda>fl mc.
         (let mc = mc\<lparr>mc_flags := ucast fl\<rparr> in
          if mc_flags mc AND client_flag ClientProtocol41 = 0 then (Err ErrOldProtocol, mc)
          else
            (let pos = pos + 2 in
             if pos < len data then
               (let pos = pos + 16 in
                bindS (gsub data pos (pos + 12), mc) (\<lambda>part2 mc.
                  (Ok (vis cipher @ vis part2), mc\<lparr>mc_buf := appendInto (mc_buf mc) cipher (vis part2)\<rparr>)))
             else (Ok (vis cipher), mc))))))))))"

definition writeAuthPacket ::
  "(byte list \<Rightarrow> byte list) \<Rightarrow> mysqlConn \<Rightarrow> byte list \<Rightarrow> unit res \<times> mysqlConn" where
  "writeAuthPacket sha1 mc cipher =
     (let clientFlags = client_flag ClientProtocol41 OR client_flag ClientSecureConn OR
            client_flag ClientLongPassword OR client_flag ClientTransactions OR
            (mc_flags mc AND client_flag ClientLongFlag);
          user = cfg_User (mc_cfg mc);
          db = cfg_DBName (mc_cfg mc)
      in
      bindS (ScramblePassword sha1 cipher (cfg_Passwd (mc_cfg mc)), mc) (\<lambda>scrambleBuff mc.
      (let pktLen = 4 + 4 + 1 + 23 + length user + 1 + 1 + length scrambleBuff + 21 + 1;
           clientFlags = (if 0 < length db then clientFlags OR client_flag ClientConnectWithDB else clientFlags);
           pktLen = (if 0 < length db then pktLen + length db + 1 else pktLen)
       in
       case takeSmallBuffer (mc_buf mc) (pktLen + 4) of
         (Ok None, b) \<Rightarrow> (Err DriverBadConn, mc\<lparr>mc_buf := b\<rparr>)
       | (Ok (Some (data, own)), b) \<Rightarrow>
           (let data = copyAt data 4 (putUint32 clientFlags);
                data = copyAt data 8 [0x00, 0x00, 0x00, 0x00]
            in
            case collationId DefaultCollation of
              None \<Rightarrow> (Err UnknownCollation, mc\<lparr>mc_buf := writeBack own (data[12 := 0]) b\<rparr>)
            | Some charset \<Rightarrow>
                (let data = data[12 := charset];
                     data = copyAt data 13 (replicate 23 0);
                     pos = 13 + 23;
                     data = (if 0 < length user then copyAt data pos user else data);
                     pos = pos + length user;
                     data = data[pos := 0x00];
                     pos = pos + 1;
                     data = data[pos := of_nat (length scrambleBuff)];
                     data = copyAt data (pos + 1) scrambleBuff;
                     pos = pos + 1 + length scrambleBuff;
                     data = (if 0 < length db then (copyAt data pos db)[pos + length db := 0x00] else data);
                     pos = (if 0 < length db then pos + length db + 1 else pos);
                     mc = mc\<lparr>mc_dbname := db\<rparr>;
                     data = copyAt data pos (str ''mysql_native_password'');
                     pos = pos + 21;
                     data = data[pos := 0x00]
                 in mc_writePacket (mc\<lparr>mc_buf := writeBack own data b\<rparr>) (data, own)))
       | (Err e, b) \<Rightarrow> (Err e, mc\<lparr>mc_buf := b\<rparr>)
       | (Panic, b) \<Rightarrow> (Panic, mc\<lparr>mc_buf := b\<rparr>)
       | (Spin, b) \<Rightarrow> (Spin, mc\<lparr>mc_buf := b\<rparr>))))"

definition readInitOK :: "mysqlConn \<Rightarrow> unit res \<times> mysqlConn" where
  "readInitOK mc =
     bindS (mc_readPacket mc) (\<lambda>data mc.
     bindS (idxAt data 0, mc) (\<lambda>h mc.
       if h = HeaderOK then (Ok (), mc)
       else if h = HeaderEOF then
         (if 1 < len data then
            bindS (gsub data 1 (indexByte (vis data) 0), mc) (\<lambda>plugin mc.
              if vis plugin = str ''mysql_old_password'' then (Err ErrOldPassword, mc)
              else if vis plugin = str ''mysql_clear_password'' then (Err ErrCleartextPassword, mc)
              else (Err ErrUnknownPlugin, mc))
          else (Err ErrOldPassword, mc))
       else (handleErrorPacket data, mc)))"

section \<open>Answers read back\<close>

definition framable :: "byte list \<Rightarrow> bool" where
  "framable p \<longleftrightarrow> length p mod MaxPacketSize \<noteq> 0"

lemma framable_nonempty: "framable p \<Longrightarrow> p \<noteq> []"
  by (auto simp: framable_def)

lemma framable_short: "p \<noteq> [] \<Longrightarrow> length p < MaxPacketSize \<Longrightarrow> framable p"
  by (auto simp: framable_def)

lemma idxAt_hd: "vis d = p \<Longrightarrow> p \<noteq> [] \<Longrightarrow> idxAt d 0 = Ok (hd p)"
  by (auto simp: idxAt_def len_def hd_conv_nth)

lemma mc_readPacket_frame:
  "snd (mc_readPacket mc) = mc\<lparr>mc_buf := mc_buf (snd (mc_readPacket mc)),
     mc_sequence := mc_sequence (snd (mc_readPacket mc))\<rparr>"
  by (simp add: mc_readPacket_def mc_Close_def Let_def split: prod.split sum.split rd_fail.split)

lemma mc_readPacket_frames:
  assumes "conn_good (mc_buf mc)" and "stream (mc_buf mc) = framesOf (mc_sequence mc) p @ rest" and "framable p"
  obtains d mc' where "mc_readPacket mc = (Ok d, mc')" and "vis d = p" and "stream (mc_buf mc') = rest"
    and "sentBytes (mc_buf mc') = sentBytes (mc_buf mc)" and "mc_sequence mc' = seqAfter (mc_sequence mc) p"
    and "conn_good (mc_buf mc')" and "mc' = mc\<lparr>mc_buf := mc_buf mc', mc_sequence := mc_sequence mc'\<rparr>"
proof -
  from mc_packets.read_packet [OF assms(1,2)] assms(3) obtain d mc' where
    r: "mc_readPacket mc = (Ok d, mc')" "vis d = p" "stream (mc_buf mc') = rest"
    "sentBytes (mc_buf mc') = sentBytes (mc_buf mc)" "mc_sequence mc' = seqAfter (mc_sequence mc) p"
    "conn_good (mc_buf mc')" by (auto simp: framable_def)
  moreover have "mc' = mc\<lparr>mc_buf := mc_buf mc', mc_sequence := mc_sequence mc'\<rparr>"
    using mc_readPacket_frame [of mc] r by simp
  ultimately show thesis by (rule that)
qed

text \<open>What a call leaves alone when it reads packets: all but the buffer, the sequence number and
  the status.\<close>

definition onlyRead :: "mysqlConn \<Rightarrow> mysqlConn \<Rightarrow> bool" where
  "onlyRead mc mc' \<longleftrightarrow> mc' = mc\<lparr>mc_buf := mc_buf mc', mc_sequence := mc_sequence mc', mc_status := mc_status mc'\<rparr> \<and>
     sentBytes (mc_buf mc') = sentBytes (mc_buf mc) \<and> conn_good (mc_buf mc')"

lemma onlyRead_trans: "onlyRead a b \<Longrightarrow> onlyRead b c \<Longrightarrow> onlyRead a c"
  by (cases a; cases b; cases c) (simp add: onlyRead_def)

lemma onlyRead_readPacket:
  assumes "mc' = mc\<lparr>mc_buf := mc_buf mc', mc_sequence := mc_sequence mc'\<rparr>"
    and "sentBytes (mc_buf mc') = sentBytes (mc_buf mc)" and "conn_good (mc_buf mc')"
  shows "onlyRead mc mc'"
  using assms by (cases mc; cases mc') (simp add: onlyRead_def)

definition isEOF :: "byte list \<Rightarrow> bool" where
  "isEOF p \<longleftrightarrow> p \<noteq> [] \<and> hd p = HeaderEOF \<and> (length p = 5 \<or> length p = 1)"

lemma isEOF_framable: "isEOF p \<Longrightarrow> framable p"
  by (intro framable_short) (auto simp: isEOF_def MaxPacketSize_def)

lemma readResultSetLoop_frames:
  assumes "conn_good (mc_buf mc)"
    and "stream (mc_buf mc) = framesOfAll (mc_sequence mc) (cols @ [eof]) @ rest"
    and "\<forall>p \<in> set cols. framable p \<and> \<not> isEOF p" and "isEOF eof"
  shows "\<exists>ds mc'. readResultSetLoop mc res (i + int (length cols)) i = (Ok (res @ ds), mc') \<and>
    map vis ds = cols @ [eof] \<and> stream (mc_buf mc') = rest \<and>
    mc_sequence mc' = seqAfterAll (mc_sequence mc) (cols @ [eof]) \<and> onlyRead mc mc'"
  using assms
proof (induction cols arbitrary: mc res i)
  case Nil
  have "stream (mc_buf mc) = framesOf (mc_sequence mc) eof @ rest" using Nil(2) by simp
  from mc_readPacket_frames [OF Nil(1) this isEOF_framable [OF Nil(4)]] obtain d mc' where
    r: "mc_readPacket mc = (Ok d, mc')" "vis d = eof" and s: "stream (mc_buf mc') = rest"
    "sentBytes (mc_buf mc') = sentBytes (mc_buf mc)" "mc_sequence mc' = seqAfter (mc_sequence mc) eof"
    "conn_good (mc_buf mc')" "mc' = mc\<lparr>mc_buf := mc_buf mc', mc_sequence := mc_sequence mc'\<rparr>" .
  have "idxAt d 0 = Ok HeaderEOF" and "len d = 5 \<or> len d = 1"
    using Nil(4) r(2) idxAt_hd [of d eof] by (auto simp: isEOF_def len_def)
  then have "readResultSetLoop mc res i i = (Ok (res @ [d]), mc')"
    using r by (subst readResultSetLoop.simps) (simp add: Let_def)
  with r s onlyRead_readPacket [OF s(5,2,4)] show ?case
    by (intro exI [of _ "[d]"] exI [of _ mc']) simp
next
  case (Cons p cols)
  have "stream (mc_buf mc) = framesOf (mc_sequence mc) p @
      framesOfAll (seqAfter (mc_sequence mc) p) (cols @ [eof]) @ rest" and p: "framable p" "\<not> isEOF p"
    using Cons.prems by simp_all
  from mc_readPacket_frames [OF Cons.prems(1) this(1,2)] obtain d mc1 where
    r: "mc_readPacket mc = (Ok d, mc1)" "vis d = p" and s: "stream (mc_buf mc1) =
      framesOfAll (seqAfter (mc_sequence mc) p) (cols @ [eof]) @ rest"
    "sentBytes (mc_buf mc1) = sentBytes (mc_buf mc)" "mc_sequence mc1 = seqAfter (mc_sequence mc) p"
    "conn_good (mc_buf mc1)" "mc1 = mc\<lparr>mc_buf := mc_buf mc1, mc_sequence := mc_sequence mc1\<rparr>" .
  have "idxAt d 0 = Ok (hd p)" using r(2) p by (intro idxAt_hd) (auto simp: framable_nonempty)
  moreover have "\<not> (hd p = HeaderEOF \<and> (len d = 5 \<or> len d = 1))"
    using p r(2) framable_nonempty [OF p(1)] by (auto simp: isEOF_def len_def)
  ultimately have "readResultSetLoop mc res (i + int (length (p # cols))) i =
      readResultSetLoop mc1 (res @ [d]) ((i + 1) + int (length cols)) (i + 1)"
    using r by (subst readResultSetLoop.simps) (auto simp: Let_def algebra_simps)
  moreover from Cons.IH [OF s(4), of "res @ [d]" "i + 1"] Cons.prems s obtain ds mc' where
    "readResultSetLoop mc1 (res @ [d]) ((i + 1) + int (length cols)) (i + 1) = (Ok ((res @ [d]) @ ds), mc')"
    "map vis ds = cols @ [eof]" "stream (mc_buf mc') = rest"
    "mc_sequence mc' = seqAfterAll (mc_sequence mc1) (cols @ [eof])" "onlyRead mc1 mc'" by auto
  moreover have "onlyRead mc mc'"
    using onlyRead_trans [OF onlyRead_readPacket [OF s(5,2,4)]] \<open>onlyRead mc1 mc'\<close> .
  ultimately show ?case using r s by (intro exI [of _ "d # ds"] exI [of _ mc']) simp
qed

lemma readUntilEOF_frames:
  assumes "conn_good (mc_buf mc)"
    and "stream (mc_buf mc) = framesOfAll (mc_sequence mc) (rows @ [eof]) @ rest"
    and "\<forall>p \<in> set rows. framable p \<and> hd p \<noteq> HeaderEOF" and "isEOF eof"
  shows "\<exists>ds mc'. readUntilEOF mc res = (Ok (res @ ds), mc') \<and>
    map vis ds = rows @ [eof] \<and> stream (mc_buf mc') = rest \<and>
    mc_sequence mc' = seqAfterAll (mc_sequence mc) (rows @ [eof]) \<and> onlyRead mc mc'"
  using assms
proof (induction rows arbitrary: mc res)
  case Nil
  have "stream (mc_buf mc) = framesOf (mc_sequence mc) eof @ rest" using Nil(2) by simp
  from mc_readPacket_frames [OF Nil(1) this isEOF_framable [OF Nil(4)]] obtain d mc' where
    r: "mc_readPacket mc = (Ok d, mc')" "vis d = eof" and s: "stream (mc_buf mc') = rest"
    "sentBytes (mc_buf mc') = sentBytes (mc_buf mc)" "mc_sequence mc' = seqAfter (mc_sequence mc) eof"
    "conn_good (mc_buf mc')" "mc' = mc\<lparr>mc_buf := mc_buf mc', mc_sequence := mc_sequence mc'\<rparr>" .
  have h: "idxAt d 0 = Ok HeaderEOF" and l: "len d = 5 \<or> len d = 1"
    using Nil(4) r(2) idxAt_hd [of d eof] by (auto simp: isEOF_def len_def)
  have o: "onlyRead mc mc'" by (rule onlyRead_readPacket [OF s(5,2,4)])
  obtain st where "readUntilEOF mc res = (Ok (res @ [d]), mc'\<lparr>mc_status := st\<rparr>)"
  proof (cases "len d = 5")
    case True
    then obtain st where "bindR (gfrom d 3) (\<lambda>d. readStatus (vis d)) = Ok st"
      using gfrom_in [of 3 d] by (auto simp: len_def readStatus_def)
    with True h r have "readUntilEOF mc res = (Ok (res @ [d]), mc'\<lparr>mc_status := st\<rparr>)"
      by (subst readUntilEOF.simps) (simp add: Let_def)
    then show thesis by (rule that)
  next
    case False
    with h r have "readUntilEOF mc res = (Ok (res @ [d]), mc'\<lparr>mc_status := mc_status mc'\<rparr>)"
      by (subst readUntilEOF.simps) (simp add: Let_def)
    then show thesis by (rule that)
  qed
  moreover have "onlyRead mc (mc'\<lparr>mc_status := st\<rparr>)"
    using o by (cases mc; cases mc') (simp add: onlyRead_def)
  ultimately show ?case using r s
    by (intro exI [of _ "[d]"] exI [of _ "mc'\<lparr>mc_status := st\<rparr>"]) simp
next
  case (Cons p rows)
  have "stream (mc_buf mc) = framesOf (mc_sequence mc) p @
      framesOfAll (seqAfter (mc_sequence mc) p) (rows @ [eof]) @ rest" and p: "framable p" "hd p \<noteq> HeaderEOF"
    using Cons.prems by simp_all
  from mc_readPacket_frames [OF Cons.prems(1) this(1,2)] obtain d mc1 where
    r: "mc_readPacket mc = (Ok d, mc1)" "vis d = p" and s: "stream (mc_buf mc1) =
      framesOfAll (seqAfter (mc_sequence mc) p) (rows @ [eof]) @ rest"
    "sentBytes (mc_buf mc1) = sentBytes (mc_buf mc)" "mc_sequence mc1 = seqAfter (mc_sequence mc) p"
    "conn_good (mc_buf mc1)" "mc1 = mc\<lparr>mc_buf := mc_buf mc1, mc_sequence := mc_sequence mc1\<rparr>" .
  have "idxAt d 0 = Ok (hd p)" using r(2) p by (intro idxAt_hd) (auto simp: framable_nonempty)
  then have "readUntilEOF mc res = readUntilEOF mc1 (res @ [d])"
    using r p by (subst readUntilEOF.simps) (simp add: Let_def)
  moreover from Cons.IH [OF s(4), of "res @ [d]"] Cons.prems s obtain ds mc' where
    "readUntilEOF mc1 (res @ [d]) = (Ok ((res @ [d]) @ ds), mc')"
    "map vis ds = rows @ [eof]" "stream (mc_buf mc') = rest"
    "mc_sequence mc' = seqAfterAll (mc_sequence mc1) (rows @ [eof])" "onlyRead mc1 mc'" by auto
  moreover have "onlyRead mc mc'"
    using onlyRead_trans [OF onlyRead_readPacket [OF s(5,2,4)]] \<open>onlyRead mc1 mc'\<close> .
  ultimately show ?case using r s by (intro exI [of _ "d # ds"] exI [of _ mc']) simp
qed

lemma lenEnc_header:
  assumes "0 < n" and "n < 2 ^ 42"
  defines "p \<equiv> appendLengthEncodedInteger [] (of_nat n)"
  shows "framable p" and "p \<noteq> []" and "hd p \<noteq> HeaderOK" and "hd p \<noteq> HeaderERR" and "hd p \<noteq> HeaderLocalInFile"
    and "readLengthEncodedInteger p = Ok (of_nat n, False, int (length p))" and "sint (of_nat n :: u64) = int n"
proof -
  have l: "length p = lenEncSize (of_nat n)" by (simp add: p_def)
  with lenEncSize_bounds [of "of_nat n"] show "framable p" and "p \<noteq> []"
    by (auto simp: MaxPacketSize_def intro!: framable_short)
  have u: "unat (of_nat n :: u64) = n" using assms by (simp add: unat_of_nat take_bit_eq_mod)
  show "sint (of_nat n :: u64) = int n" using assms by (intro sint_small) simp
  show "readLengthEncodedInteger p = Ok (of_nat n, False, int (length p))"
    using readLengthEncodedInteger_append [of "of_nat n" "[]"] l by (simp add: p_def)
  have small: "unat (byteAt 0 (of_nat n :: u64)) = n" if "n \<le> 250"
    using that by (simp add: byteAt_def unsigned_ucast_eq u take_bit_eq_mod)
  have "hd p \<noteq> 0 \<and> hd p \<noteq> 0xff \<and> hd p \<noteq> 0xfb"
  proof (cases "n \<le> 250")
    case True
    then have "(of_nat n :: u64) \<le> 250" using u by (simp add: word_le_nat_alt)
    then have "hd p = byteAt 0 (of_nat n :: u64)" by (simp add: p_def appendLengthEncodedInteger_def)
    with small [OF True] True \<open>0 < n\<close> show ?thesis by auto
  next
    case False
    then have "\<not> (of_nat n :: u64) \<le> 250" using u by (simp add: word_le_nat_alt)
    then show ?thesis by (simp add: p_def appendLengthEncodedInteger_def)
  qed
  then show "hd p \<noteq> HeaderOK" and "hd p \<noteq> HeaderERR" and "hd p \<noteq> HeaderLocalInFile"
    by (simp_all add: header_defs)
qed

text \<open>A result set comes back as its packets, in order, and exactly its bytes are used up.\<close>

definition resultSet :: "byte list list \<Rightarrow> byte list \<Rightarrow> byte list list \<Rightarrow> byte list \<Rightarrow> byte list list" where
  "resultSet cols eof1 rows eof2 =
     appendLengthEncodedInteger [] (of_nat (length cols)) # cols @ [eof1] @ rows @ [eof2]"

definition goodResultSet :: "byte list list \<Rightarrow> byte list \<Rightarrow> byte list list \<Rightarrow> byte list \<Rightarrow> bool" where
  "goodResultSet cols eof1 rows eof2 \<longleftrightarrow>
     cols \<noteq> [] \<and> length cols < 2 ^ 42 \<and> (\<forall>p \<in> set cols. framable p \<and> \<not> isEOF p) \<and> isEOF eof1 \<and>
     (\<forall>p \<in> set rows. framable p \<and> hd p \<noteq> HeaderEOF) \<and> isEOF eof2"

lemma readResultSetHeaderPacket_columns:
  assumes g: "conn_good (mc_buf mc)" and n: "0 < n" "n < 2 ^ 42"
    and st: "stream (mc_buf mc) = framesOf (mc_sequence mc) (appendLengthEncodedInteger [] (of_nat n)) @ rest"
  obtains d mc' where "readResultSetHeaderPacket mc = (Ok (d, int n), mc')"
    and "vis d = appendLengthEncodedInteger [] (of_nat n)" and "stream (mc_buf mc') = rest"
    and "mc_sequence mc' = seqAfter (mc_sequence mc) (appendLengthEncodedInteger [] (of_nat n))"
    and "onlyRead mc mc'" and "mc_readPacket mc = (Ok d, mc')"
proof -
  let ?p = "appendLengthEncodedInteger [] (of_nat n :: u64)"
  note h = lenEnc_header [OF n]
  from mc_readPacket_frames [OF g st h(1)] obtain d mc' where
    r: "mc_readPacket mc = (Ok d, mc')" "vis d = ?p" and s: "stream (mc_buf mc') = rest"
    "sentBytes (mc_buf mc') = sentBytes (mc_buf mc)" "mc_sequence mc' = seqAfter (mc_sequence mc) ?p"
    "conn_good (mc_buf mc')" "mc' = mc\<lparr>mc_buf := mc_buf mc', mc_sequence := mc_sequence mc'\<rparr>" .
  have "readResultSetHeaderPacket mc = (Ok (d, int n), mc')"
    using r h idxAt_hd [OF r(2) h(2)] by (simp add: readResultSetHeaderPacket_def len_def)
  then show thesis using r(2) s(1,3) onlyRead_readPacket [OF s(5,2,4)] r(1) by (rule that)
qed

lemma makeSlices_columns: "n < 2 ^ 42 \<Longrightarrow> makeSlices (wrap64 (wrap64 (int n * 2) + 1)) = Ok ()"
proof -
  assume n: "n < 2 ^ 42"
  have "wrap64 (int n * 2) = int n * 2" using n by (intro wrap64_id) auto
  moreover have "wrap64 (int n * 2 + 1) = int n * 2 + 1" using n by (intro wrap64_id) auto
  ultimately show ?thesis using n by (simp add: makeSlices_def)
qed

text \<open>The steps of a query that is answered by a result set.\<close>

lemma mc_Query_steps:
  assumes ready: "mc_ready mc" and arg: "vis data = c # arg" "int (length arg) + 1 \<le> mc_maxPacketAllowed mc"
    and rs: "goodResultSet cols eof1 rows eof2"
    and st: "stream (mc_buf mc) = framesOfAll (seqAfter 0 (c # arg)) (resultSet cols eof1 rows eof2) @ rest"
  obtains m1 d m2 ds1 m3 ds2 m4 where
    "writeCommandPacketStr mc c arg = (Ok (), m1)" and "mc_ready m1"
    and "mc_readPacket m1 = (Ok d, m2)" and "vis d = appendLengthEncodedInteger [] (of_nat (length cols))"
    and "readResultSetPacket m2 [d] (int (length cols)) = (Ok ([d] @ ds1), m3)" and "map vis ds1 = cols @ [eof1]"
    and "readUntilEOF m3 ([d] @ ds1) = (Ok (([d] @ ds1) @ ds2), m4)" and "map vis ds2 = rows @ [eof2]"
    and "mc_Query mc data = (Ok (([d] @ ds1) @ ds2), m4)" and "stream (mc_buf m4) = rest"
    and "sentBytes (mc_buf m4) = sentBytes (mc_buf mc) @ framesOf 0 (c # arg)" and "conn_good (mc_buf m4)"
    and "conn_good (mc_buf m2)"
proof -
  let ?n = "length cols" and ?hdr = "appendLengthEncodedInteger [] (of_nat (length cols) :: u64)"
  from writeCommandPacketStr_sends [OF ready arg(2), of c] obtain m1 where
    w: "writeCommandPacketStr mc c arg = (Ok (), m1)"
    and m1: "sentBytes (mc_buf m1) = sentBytes (mc_buf mc) @ framesOf 0 (c # arg)"
      "stream (mc_buf m1) = stream (mc_buf mc)" "mc_sequence m1 = seqAfter 0 (c # arg)" "mc_ready m1" by blast
  have n: "0 < ?n" "?n < 2 ^ 42" using rs by (simp_all add: goodResultSet_def)
  let ?after1 = "framesOfAll (seqAfter (mc_sequence m1) ?hdr) (cols @ [eof1] @ rows @ [eof2]) @ rest"
  have g1: "conn_good (mc_buf m1)" using m1(4) by (simp add: mc_ready_def)
  have "stream (mc_buf m1) = framesOf (mc_sequence m1) ?hdr @ ?after1"
    using st m1 by (simp add: resultSet_def)
  from readResultSetHeaderPacket_columns [OF g1 n this] obtain d m2 where
    h: "readResultSetHeaderPacket m1 = (Ok (d, int ?n), m2)" "vis d = ?hdr" "mc_readPacket m1 = (Ok d, m2)"
    and m2: "stream (mc_buf m2) = ?after1" "mc_sequence m2 = seqAfter (mc_sequence m1) ?hdr" "onlyRead m1 m2" .
  let ?after2 = "framesOfAll (seqAfterAll (mc_sequence m2) (cols @ [eof1])) (rows @ [eof2]) @ rest"
  have s2: "stream (mc_buf m2) = framesOfAll (mc_sequence m2) (cols @ [eof1]) @ ?after2"
    using m2(1,2) framesOfAll_append [of "mc_sequence m2" "cols @ [eof1]" "rows @ [eof2]"] by simp
  have g2: "conn_good (mc_buf m2)" using m2(3) by (simp add: onlyRead_def)
  from readResultSetLoop_frames [OF g2 s2, of "[d]" 0] rs obtain ds1 m3 where
    c: "readResultSetPacket m2 [d] (int ?n) = (Ok ([d] @ ds1), m3)" "map vis ds1 = cols @ [eof1]"
    and m3: "stream (mc_buf m3) = ?after2" "mc_sequence m3 = seqAfterAll (mc_sequence m2) (cols @ [eof1])"
      "onlyRead m2 m3" by (auto simp: goodResultSet_def readResultSetPacket_def)
  have g3: "conn_good (mc_buf m3)" using m3(3) by (simp add: onlyRead_def)
  have s3: "stream (mc_buf m3) = framesOfAll (mc_sequence m3) (rows @ [eof2]) @ rest" using m3(1,2) by simp
  from readUntilEOF_frames [OF g3 s3, of "[d] @ ds1"] rs obtain ds2 m4 where
    u: "readUntilEOF m3 ([d] @ ds1) = (Ok (([d] @ ds1) @ ds2), m4)" "map vis ds2 = rows @ [eof2]"
    and m4: "stream (mc_buf m4) = rest" "onlyRead m3 m4" by (auto simp: goodResultSet_def)
  have "idxAt data 0 = Ok c" using idxAt_hd [OF arg(1)] by simp
  moreover obtain a where "gfrom data 1 = Ok a" "vis a = arg"
    using gfrom_in [of 1 data] arg(1) by simp
  ultimately have q: "mc_Query mc data = (Ok (([d] @ ds1) @ ds2), m4)"
    using w h n c u makeSlices_columns [OF n(2)] by (simp add: mc_Query_def)
  have "sentBytes (mc_buf m4) = sentBytes (mc_buf mc) @ framesOf 0 (c # arg)" and "conn_good (mc_buf m4)"
    using m1(1) m2(3) m3(3) m4(2) by (simp_all add: onlyRead_def)
  with q w m1(4) h(2,3) c u m4(1) g2 show thesis using that by blast
qed

lemma mc_Query_packets:
  assumes "mc_ready mc" and "vis data = c # arg" and "int (length arg) + 1 \<le> mc_maxPacketAllowed mc"
    and "goodResultSet cols eof1 rows eof2"
    and "stream (mc_buf mc) = framesOfAll (seqAfter 0 (c # arg)) (resultSet cols eof1 rows eof2) @ rest"
  shows "\<exists>ds mc'. mc_Query mc data = (Ok ds, mc') \<and> map vis ds = resultSet cols eof1 rows eof2 \<and>
    stream (mc_buf mc') = rest \<and> sentBytes (mc_buf mc') = sentBytes (mc_buf mc) @ framesOf 0 (c # arg) \<and>
    conn_good (mc_buf mc')"
  by (rule mc_Query_steps [OF assms]) (auto simp: resultSet_def)

section \<open>OK and ERR packets\<close>

lemma gsub_mid:
  assumes "vis s = a @ b @ c"
  shows "\<exists>t. gsub s (int (length a)) (int (length a) + int (length b)) = Ok t \<and> vis t = b"
  using gsub_in [of "length a" "length a + length b" s] assms by simp

lemma gfrom_mid: "vis s = a @ b \<Longrightarrow> \<exists>t. gfrom s (int (length a)) = Ok t \<and> vis t = b"
  using gfrom_in [of "length a" s] by simp

lemma readStatus_put: "readStatus (putUint16 st) = Ok st"
proof -
  have "ucast (byteAt 0 st) = (shl 0 (byteAt 0 st) :: u16)" by (simp add: shl_def)
  then show ?thesis by (simp add: readStatus_def putUint16_def join16)
qed

lemma handleOkPacket_fields:
  assumes v: "vis data = [0x00] @ appendLengthEncodedInteger [] rows @ appendLengthEncodedInteger [] ins @
      putUint16 st @ extra" and m: "mc_strict mc \<Longrightarrow> 2 \<le> length extra"
  shows "handleOkPacket mc data = (Ok (), mc\<lparr>mc_affectedRows := rows, mc_insertID := ins, mc_status := st\<rparr>)"
proof -
  let ?a = "appendLengthEncodedInteger [] rows" and ?i = "appendLengthEncodedInteger [] ins"
  have l: "length (putUint16 st) = 2" by (simp add: putUint16_def)
  from gfrom_mid [of data "[0x00]"] v obtain d1 where
    d1: "gfrom data 1 = Ok d1" "vis d1 = ?a @ ?i @ putUint16 st @ extra" by auto
  from gfrom_mid [of data "[0x00] @ ?a"] v obtain d2 where
    d2: "gfrom data (1 + int (lenEncSize rows)) = Ok d2" "vis d2 = ?i @ putUint16 st @ extra" by auto
  from gsub_mid [of data "[0x00] @ ?a @ ?i" "putUint16 st" extra] v l obtain d3 where
    d3: "gsub data (1 + int (lenEncSize rows) + int (lenEncSize ins))
      (1 + int (lenEncSize rows) + int (lenEncSize ins) + 2) = Ok d3" "vis d3 = putUint16 st"
    by (auto simp: algebra_simps)
  show ?thesis
  proof (cases "mc_strict mc")
    case False
    then show ?thesis using d1 d2 d3
      by (simp add: handleOkPacket_def readLengthEncodedInteger_append readStatus_put Let_def)
  next
    case True
    let ?p = "[0x00] @ ?a @ ?i @ putUint16 st"
    have l2: "length (take 2 extra) = 2" using m [OF True] by simp
    from gsub_mid [of data ?p "take 2 extra" "drop 2 extra"] v obtain d4 where
      "gsub data (int (length ?p)) (int (length ?p) + int (length (take 2 extra))) = Ok d4" "vis d4 = take 2 extra"
      by auto
    with l l2 have "gsub data (1 + int (lenEncSize rows) + int (lenEncSize ins) + 2)
        (1 + int (lenEncSize rows) + int (lenEncSize ins) + 2 + 2) = Ok d4" "length (vis d4) = 2"
      by (simp_all add: algebra_simps del: length_take)
    then show ?thesis using d1 d2 d3 True
      by (simp add: handleOkPacket_def readLengthEncodedInteger_append readStatus_put Let_def leUint16_def)
  qed
qed

lemma handleErrorPacket_state:
  assumes "vis data = [0xff] @ putUint16 n @ [0x23] @ state @ msg" and "length state = 5"
  shows "handleErrorPacket data = Err (MySqlErr \<lparr>Number = n, MyMessage = msg\<rparr>)"
proof -
  from gsub_mid [of data "[0xff]" "putUint16 n"] assms(1) obtain d where
    d: "gsub data 1 3 = Ok d" "vis d = putUint16 n" by (auto simp: putUint16_def)
  from gfrom_mid [of data "[0xff] @ putUint16 n @ [0x23] @ state" msg] assms obtain m where
    m: "gfrom data 9 = Ok m" "vis m = msg" by (auto simp: putUint16_def)
  have h: "idxAt data 0 = Ok HeaderERR"
    using idxAt_in [of 0 data] assms by (simp add: HeaderERR_def)
  have x: "idxAt data 3 = Ok 0x23" using idxAt_in [of 3 data] assms by (simp add: putUint16_def)
  show ?thesis using d m h x leUint16_put [of n "[]"] by (simp add: handleErrorPacket_def Let_def)
qed

lemma handleErrorPacket_plain:
  assumes "vis data = [0xff] @ putUint16 n @ msg" and "msg \<noteq> []" and "hd msg \<noteq> 0x23"
  shows "handleErrorPacket data = Err (MySqlErr \<lparr>Number = n, MyMessage = msg\<rparr>)"
proof -
  from gsub_mid [of data "[0xff]" "putUint16 n"] assms(1) obtain d where
    d: "gsub data 1 3 = Ok d" "vis d = putUint16 n" by (auto simp: putUint16_def)
  from gfrom_mid [of data "[0xff] @ putUint16 n" msg] assms obtain m where
    m: "gfrom data 3 = Ok m" "vis m = msg" by (auto simp: putUint16_def)
  have h: "idxAt data 0 = Ok HeaderERR"
    using idxAt_in [of 0 data] assms by (simp add: HeaderERR_def)
  have x: "idxAt data 3 = Ok (hd msg)"
    using idxAt_in [of 3 data] assms by (cases msg) (simp_all add: putUint16_def)
  show ?thesis using d m h x assms(3) leUint16_put [of n "[]"] by (simp add: handleErrorPacket_def Let_def)
qed

text \<open>An answer that does not start a result set: the packet after the command decides.\<close>

lemma mc_Query_first:
  assumes ready: "mc_ready mc" and arg: "vis data = c # arg" "int (length arg) + 1 \<le> mc_maxPacketAllowed mc"
    and p: "framable p" and st: "stream (mc_buf mc) = framesOf (seqAfter 0 (c # arg)) p @ rest"
  obtains d m1 m2 where "mc_readPacket m1 = (Ok d, m2)" and "vis d = p" and "stream (mc_buf m2) = rest"
    and "sentBytes (mc_buf m2) = sentBytes (mc_buf mc) @ framesOf 0 (c # arg)" and "conn_good (mc_buf m2)"
    and "m2 = mc\<lparr>mc_buf := mc_buf m2, mc_sequence := mc_sequence m2\<rparr>"
    and "mc_Query mc data =
      bindS (readResultSetHeaderPacket m1) (\<lambda>(reshd, resLen) mc.
      bindS (makeSlices (wrap64 (wrap64 (resLen * 2) + 1)), mc) (\<lambda>_ mc.
       if 0 < resLen then
         bindS (readResultSetPacket mc [reshd] resLen) (\<lambda>result mc. readUntilEOF mc result)
       else (Ok [reshd], mc)))"
    and "mc_Exec mc data = bindS (readResultSetHeaderPacket m1) (\<lambda>(reshd, _) mc. (Ok reshd, mc))"
proof -
  from writeCommandPacketStr_sends [OF ready arg(2), of c] obtain m1 where
    w: "writeCommandPacketStr mc c arg = (Ok (), m1)"
    and m1: "sentBytes (mc_buf m1) = sentBytes (mc_buf mc) @ framesOf 0 (c # arg)"
      "stream (mc_buf m1) = stream (mc_buf mc)" "mc_sequence m1 = seqAfter 0 (c # arg)"
      "m1 = mc\<lparr>mc_buf := mc_buf m1, mc_sequence := mc_sequence m1\<rparr>" "mc_ready m1" by blast
  have g1: "conn_good (mc_buf m1)" using m1(5) by (simp add: mc_ready_def)
  have "stream (mc_buf m1) = framesOf (mc_sequence m1) p @ rest" using st m1 by simp
  from mc_readPacket_frames [OF g1 this p] obtain d m2 where
    r: "mc_readPacket m1 = (Ok d, m2)" "vis d = p" and s: "stream (mc_buf m2) = rest"
    "sentBytes (mc_buf m2) = sentBytes (mc_buf m1)" "mc_sequence m2 = seqAfter (mc_sequence m1) p"
    "conn_good (mc_buf m2)" "m2 = m1\<lparr>mc_buf := mc_buf m2, mc_sequence := mc_sequence m2\<rparr>" .
  have f: "m2 = mc\<lparr>mc_buf := mc_buf m2, mc_sequence := mc_sequence m2\<rparr>"
    by (subst s(5), subst m1(4)) simp
  have i: "idxAt data 0 = Ok c" using idxAt_hd [OF arg(1)] by simp
  obtain a where a: "gfrom data 1 = Ok a" "vis a = arg" using gfrom_in [of 1 data] arg(1) by simp
  show thesis
    by (rule that [OF r s(1) _ s(4) f]) (use w i a s(2) m1(1) in \<open>simp_all add: mc_Query_def mc_Exec_def\<close>)
qed

text \<open>An OK packet answers a command without rows: \<^verbatim>\<open>Exec\<close> and \<^verbatim>\<open>Query\<close> return it, and the affected
  rows, the insert id and the status of the connection are the fields of the packet.\<close>

lemma mc_Query_ok:
  assumes ready: "mc_ready mc" and arg: "vis data = c # arg" "int (length arg) + 1 \<le> mc_maxPacketAllowed mc"
    and p: "p = [0x00] @ appendLengthEncodedInteger [] rows @ appendLengthEncodedInteger [] ins @ putUint16 st @ extra"
    and m: "framable p" "mc_strict mc \<Longrightarrow> 2 \<le> length extra"
    and s: "stream (mc_buf mc) = framesOf (seqAfter 0 (c # arg)) p @ rest"
  shows "\<exists>d mc'. mc_Query mc data = (Ok [d], mc') \<and> mc_Exec mc data = (Ok d, mc') \<and> vis d = p \<and>
    stream (mc_buf mc') = rest \<and> mc_affectedRows mc' = rows \<and> mc_insertID mc' = ins \<and> mc_status mc' = st \<and>
    conn_good (mc_buf mc')"
proof -
  from mc_Query_first [OF ready arg m(1) s] obtain d m1 m2 where
    r: "mc_readPacket m1 = (Ok d, m2)" "vis d = p" "stream (mc_buf m2) = rest" "conn_good (mc_buf m2)"
    "m2 = mc\<lparr>mc_buf := mc_buf m2, mc_sequence := mc_sequence m2\<rparr>"
    and q: "mc_Query mc data =
      bindS (readResultSetHeaderPacket m1) (\<lambda>(reshd, resLen) mc.
      bindS (makeSlices (wrap64 (wrap64 (resLen * 2) + 1)), mc) (\<lambda>_ mc.
       if 0 < resLen then
         bindS (readResultSetPacket mc [reshd] resLen) (\<lambda>result mc. readUntilEOF mc result)
       else (Ok [reshd], mc)))"
    and e: "mc_Exec mc data = bindS (readResultSetHeaderPacket m1) (\<lambda>(reshd, _) mc. (Ok reshd, mc))" .
  have "mc_strict m2 = mc_strict mc" by (subst r(5)) simp
  then have "handleOkPacket m2 d = (Ok (), m2\<lparr>mc_affectedRows := rows, mc_insertID := ins, mc_status := st\<rparr>)"
    using m(2) by (intro handleOkPacket_fields) (simp_all add: r(2) p)
  moreover have "idxAt d 0 = Ok HeaderOK" using idxAt_hd [OF r(2)] p by (simp add: HeaderOK_def)
  ultimately have "readResultSetHeaderPacket m1 =
      (Ok (d, 0), m2\<lparr>mc_affectedRows := rows, mc_insertID := ins, mc_status := st\<rparr>)"
    using r(1) by (simp add: readResultSetHeaderPacket_def)
  moreover have "makeSlices (wrap64 (wrap64 (0 * 2) + 1)) = Ok ()" using makeSlices_columns [of 0] by simp
  ultimately show ?thesis using q e r by simp
qed

lemma mc_Query_ok_witness:
  fixes p :: "byte list"
  defines "p \<equiv> [0x00] @ appendLengthEncodedInteger [] 300 @ appendLengthEncodedInteger [] 7 @ putUint16 2 @ []"
  shows "\<exists>d mc'. mc_Query (idleConn [Rd (framesOf 1 p) None]) (slice [3, 0x61]) = (Ok [d], mc') \<and>
    mc_Exec (idleConn [Rd (framesOf 1 p) None]) (slice [3, 0x61]) = (Ok d, mc') \<and> vis d = p \<and>
    stream (mc_buf mc') = [] \<and> mc_affectedRows mc' = 300 \<and> mc_insertID mc' = 7 \<and> mc_status mc' = 2 \<and>
    conn_good (mc_buf mc')"
  by (rule mc_Query_ok [where c = 3 and arg = "[0x61]" and extra = "[]"])
    (simp_all add: p_def framable_def lenEncSize_def putUint16_def MaxPacketSize_val seqAfter_def)

lemma mc_Query_error:
  assumes ready: "mc_ready mc" and arg: "vis data = c # arg" "int (length arg) + 1 \<le> mc_maxPacketAllowed mc"
    and p: "p = [0xff] @ putUint16 n @ [0x23] @ state @ msg" "length state = 5" "framable p"
    and s: "stream (mc_buf mc) = framesOf (seqAfter 0 (c # arg)) p @ rest"
  shows "\<exists>mc'. mc_Query mc data = (Err (MySqlErr \<lparr>Number = n, MyMessage = msg\<rparr>), mc') \<and>
    mc_Exec mc data = (Err (MySqlErr \<lparr>Number = n, MyMessage = msg\<rparr>), mc') \<and> stream (mc_buf mc') = rest \<and>
    conn_good (mc_buf mc')"
proof -
  from mc_Query_first [OF ready arg p(3) s] obtain d m1 m2 where
    r: "mc_readPacket m1 = (Ok d, m2)" "vis d = p" "stream (mc_buf m2) = rest" "conn_good (mc_buf m2)"
    and q: "mc_Query mc data =
      bindS (readResultSetHeaderPacket m1) (\<lambda>(reshd, resLen) mc.
      bindS (makeSlices (wrap64 (wrap64 (resLen * 2) + 1)), mc) (\<lambda>_ mc.
       if 0 < resLen then
         bindS (readResultSetPacket mc [reshd] resLen) (\<lambda>result mc. readUntilEOF mc result)
       else (Ok [reshd], mc)))"
    and e: "mc_Exec mc data = bindS (readResultSetHeaderPacket m1) (\<lambda>(reshd, _) mc. (Ok reshd, mc))" .
  have "handleErrorPacket d = Err (MySqlErr \<lparr>Number = n, MyMessage = msg\<rparr>)"
    using p(2) by (intro handleErrorPacket_state) (simp_all add: r(2) p(1))
  moreover have "idxAt d 0 = Ok HeaderERR" using idxAt_hd [OF r(2)] p by (simp add: HeaderERR_def)
  ultimately have "readResultSetHeaderPacket m1 = (Err (MySqlErr \<lparr>Number = n, MyMessage = msg\<rparr>), m2)"
    using r(1) by (simp add: readResultSetHeaderPacket_def header_defs)
  then show ?thesis using q e r by simp
qed

text \<open>
  An answer that starts with a column definition, as the answer to \<^verbatim>\<open>COM_FIELD_LIST\<close> does, is taken
  for a malformed header, and the packets after it stay unread.
\<close>

lemma mc_Query_field_list:
  assumes ready: "mc_ready mc" and arg: "vis data = c # arg" "int (length arg) + 1 \<le> mc_maxPacketAllowed mc"
    and p: "p = lenEncString (str ''def'') @ extra" "framable p"
    and s: "stream (mc_buf mc) = framesOf (seqAfter 0 (c # arg)) p @ rest"
  shows "\<exists>mc'. mc_Query mc data = (Err ErrMalformPkt, mc') \<and> stream (mc_buf mc') = rest"
proof -
  from mc_Query_first [OF ready arg p(2) s] obtain d m1 m2 where
    r: "mc_readPacket m1 = (Ok d, m2)" "vis d = p" "stream (mc_buf m2) = rest"
    and q: "mc_Query mc data =
      bindS (readResultSetHeaderPacket m1) (\<lambda>(reshd, resLen) mc.
      bindS (makeSlices (wrap64 (wrap64 (resLen * 2) + 1)), mc) (\<lambda>_ mc.
       if 0 < resLen then
         bindS (readResultSetPacket mc [reshd] resLen) (\<lambda>result mc. readUntilEOF mc result)
       else (Ok [reshd], mc)))" .
  have h: "p = 3 # str ''def'' @ extra"
    by (simp add: p(1) lenEncString_def appendLengthEncodedInteger_def byteAt_def)
  then have "readLengthEncodedInteger (vis d) = Ok (3, False, 1)"
    using r(2) by (simp add: readLengthEncodedInteger_def)
  moreover have "idxAt d 0 = Ok 3" using idxAt_hd [OF r(2)] h by simp
  moreover have "1 - len d \<noteq> 0" using r(2) h by (simp add: len_def)
  ultimately have "readResultSetHeaderPacket m1 = (Err ErrMalformPkt, m2)"
    using r(1) by (simp add: readResultSetHeaderPacket_def header_defs)
  with q r show ?thesis by simp
qed

end
