(* ===== verification/Server_Alias.thy ===== *)
theory Server_Alias
  imports Server_Conn
begin

text \<open>
  What happens to the packets of an answer while the rest of it is read. They are slices of the
  connection's buffer (\<^verbatim>\<open>server/buffer.go\<close>: "only guaranteed to be valid until the next read"), and
  \<^verbatim>\<open>Query\<close> collects them until the last has come. As long as no refill happens they stay what they
  were; a refill writes over them.
\<close>

section \<open>The receiving side of a buffer\<close>

definition rxSide :: "buffer \<Rightarrow> (rd_event list \<times> sock_err option) option \<times> int" where
  "rxSide b = (map_option (\<lambda>s. (rx s, dl_err s)) (b_nc b), b_timeout b)"

lemma sockWrite_rx: "sockWrite p s = (n, e, s') \<Longrightarrow> rx s' = rx s \<and> dl_err s' = dl_err s"
  by (auto split: list.splits prod.splits)

lemma writeLoop_rx: "writeLoop s t q data = (r, s', q', data') \<Longrightarrow> rx s' = rx s \<and> dl_err s' = dl_err s"
proof (induction s t q data arbitrary: r s' q' data' rule: writeLoop.induct)
  case (1 s t q data)
  show ?case
  proof (cases "length data < 4")
    case True
    with 1(2) show ?thesis by (simp add: writeLoop.simps)
  next
    case False
    define pl where "pl = length data - 4"
    define size where "size = (if MaxPacketSize \<le> pl then MaxPacketSize else pl)"
    define hdr where "hdr = (if MaxPacketSize \<le> pl then [0xff, 0xff, 0xff, q]
                    else [byteAt 0 (of_nat pl :: u64), byteAt 8 (of_nat pl :: u64), byteAt 16 (of_nat pl :: u64), q])"
    define d where "d = hdr @ drop 4 data"
    obtain n e s1 where w: "sockWrite (take (4 + size) d) s = (n, e, s1)" by (metis prod_cases3)
    note s1 = sockWrite_rx [OF w]
    note defs = pl_def size_def hdr_def d_def
    show ?thesis
    proof (cases "(0 < t \<and> dl_err s \<noteq> None) \<or> e \<noteq> None \<or> n \<noteq> 4 + size \<or> size \<noteq> MaxPacketSize")
      case True
      with 1(2) False w s1 show ?thesis
        by (subst (asm) writeLoop.simps) (auto simp: Let_def defs [symmetric] split: if_splits)
    next
      case go: False
      obtain r2 s2 q2 d2 where l: "writeLoop s1 t (q + 1) (drop size d) = (r2, s2, q2, d2)" by (metis prod_cases4)
      have "rx s2 = rx s1 \<and> dl_err s2 = dl_err s1"
        by (rule 1(1) [OF False pl_def size_def hdr_def d_def _ w [symmetric] refl _ _ l])
          (use go in auto)
      moreover have "s' = s2"
        using 1(2) False go w l by (subst (asm) writeLoop.simps) (auto simp: Let_def defs [symmetric])
      ultimately show ?thesis using s1 by simp
    qed
  qed
qed

lemma sendPacket_rx:
  "sendPacket b l t q d = (r, b', q') \<Longrightarrow> rxSide b' = rxSide b \<and> b_len b' = b_len b \<and> length (b_buf b') = length (b_buf b)"
  by (auto simp: sendPacket_def rxSide_def writeBack_def dest!: writeLoop_rx split: if_splits option.splits prod.splits)

lemma takeBuffer_rx:
  "takeBuffer b n = (r, b') \<Longrightarrow> rxSide b' = rxSide b \<and> b_len b' = b_len b \<and> length (b_buf b) \<le> length (b_buf b')"
  by (auto simp: takeBuffer_def rxSide_def split: if_splits)

lemma sendTaken_rx:
  assumes "sendTaken mc (t, b) f = (r, mc')"
  shows "rxSide (mc_buf mc') = rxSide b \<and> b_len (mc_buf mc') = b_len b \<and> length (b_buf (mc_buf mc')) = length (b_buf b)"
  using assms
  by (auto simp: sendTaken_def mc_writePacket_def rxSide_def writeBack_def
      dest!: sendPacket_rx split: res.splits option.splits prod.splits)

lemma writeCommandPacketStr_rx:
  assumes "writeCommandPacketStr mc c arg = (r, mc')"
  shows "rxSide (mc_buf mc') = rxSide (mc_buf mc) \<and> b_len (mc_buf mc') = b_len (mc_buf mc) \<and>
    length (b_buf (mc_buf mc)) \<le> length (b_buf (mc_buf mc'))"
proof -
  obtain t b where t: "takeBuffer (mc_buf mc) (1 + length arg + 4) = (t, b)" by fastforce
  with assms have "sendTaken (mc\<lparr>mc_sequence := 0\<rparr>) (t, b) (\<lambda>data. copyAt (data[4 := c]) 5 arg) = (r, mc')"
    by (simp add: writeCommandPacketStr_def Let_def)
  from sendTaken_rx [OF this] takeBuffer_rx [OF t] show ?thesis by simp
qed

section \<open>One read that brings everything asked for\<close>

lemma readNext_refill:
  assumes b: "b_len b = 0" "b_nc b = Some s" "0 < b_timeout b \<longrightarrow> dl_err s = None"
    and s: "rx s = Rd bs None # es" and n: "0 < need" "need \<le> length bs" "length bs \<le> length (b_buf b)"
  shows "readNext b need =
    (Ok \<lparr>vis = take need bs, ext = drop need (copyAt (b_buf b) 0 bs), org = Some (length (b_old b), 0)\<rparr>,
     b\<lparr>b_buf := copyAt (b_buf b) 0 bs, b_idx := need, b_len := length bs - need, b_nc := Some (s\<lparr>rx := es\<rparr>)\<rparr>)"
proof -
  have ma: "movedArray b = b_buf b" "fillArray b need = b_buf b" "fillOld b need = b_old b"
    using b n by (simp_all add: movedArray_def fillArray_def fillOld_def)
  have "sockRead (length (b_buf b) - 0) (rx s) = (bs, None, es)" using s n by simp
  from fillLoop_read [OF this, of need "b_timeout b"] b n
  have "fillLoop (b_buf b) 0 need (b_timeout b) s = (Ok (length bs), copyAt (b_buf b) 0 bs, s\<lparr>rx := es\<rparr>)"
    by auto
  moreover have "take need (copyAt (b_buf b) 0 bs) = take need bs" using n by (simp add: copyAt_fits)
  ultimately show ?thesis using b n by (simp add: readNext_def fill_def ma Let_def)
qed

section \<open>Packets that are in the buffer already\<close>

lemma readPacketLoop_Inr:
  assumes "readPacketLoop b s acc = (Inr d, b', s')"
  obtains hdr b1 data b2 where "readNext b 4 = (Ok hdr, b1)" and "readNext b1 (hdrLen (vis hdr)) = (Ok data, b2)"
    and "b' = b2 \<and> (d = data \<or> org d = None) \<or> (\<exists>p. readPacketLoop b2 (s + 1) (Some p) = (Inr d, b', s'))"
proof -
  obtain hr b1 where h: "readNext b 4 = (hr, b1)" by fastforce
  then obtain hdr where hr: "hr = Ok hdr"
    using assms by (cases hr) (simp_all add: readPacketLoop.simps [of b])
  obtain dr b2 where d: "readNext b1 (hdrLen (vis hdr)) = (dr, b2)" by fastforce
  have ne: "\<not> hdrLen (vis hdr) < 1" "vis hdr ! 3 = s"
    using assms h hr by (auto simp: readPacketLoop.simps [of b] Let_def split: if_splits)
  obtain data where dr: "dr = Ok data"
    using assms h hr ne d by (cases dr) (simp_all add: readPacketLoop.simps [of b] Let_def)
  have "readPacketLoop b s acc =
      (if hdrLen (vis hdr) < MaxPacketSize \<and> acc = None then (Inr data, b2, s + 1)
       else (let p = (case acc of None \<Rightarrow> [] | Some p \<Rightarrow> p) @ vis data in
             if hdrLen (vis hdr) < MaxPacketSize then (Inr (slice p), b2, s + 1)
             else readPacketLoop b2 (s + 1) (Some p)))"
    using h hr d dr ne by (subst readPacketLoop.simps) (simp add: Let_def)
  then have "b' = b2 \<and> (d = data \<or> org d = None) \<or> (\<exists>p. readPacketLoop b2 (s + 1) (Some p) = (Inr d, b', s'))"
    using assms by (auto simp: Let_def split: if_splits)
  with h hr d dr show thesis using that by simp
qed

text \<open>A packet that was just read is what its slice shows.\<close>

lemma readPacketLoop_deref: "readPacketLoop b s acc = (Inr d, b', s') \<Longrightarrow> deref b' d = vis d"
proof (induction "available b" arbitrary: b s acc rule: less_induct)
  case less
  from less.prems obtain hdr b1 data b2 where
    h: "readNext b 4 = (Ok hdr, b1)" and dt: "readNext b1 (hdrLen (vis hdr)) = (Ok data, b2)"
    and next': "b' = b2 \<and> (d = data \<or> org d = None) \<or>
      (\<exists>p. readPacketLoop b2 (s + 1) (Some p) = (Inr d, b', s'))" by (rule readPacketLoop_Inr)
  have "available b2 < available b" using readNext_available [OF h] readNext_available [OF dt] by simp
  with next' less.hyps readNext_deref [OF dt] show ?case by (auto simp: deref_def)
qed

text \<open>Nothing was refilled: the arrays are the same and what was used up was in the buffer.\<close>

definition calm :: "buffer \<Rightarrow> buffer \<Rightarrow> bool" where
  "calm b b' \<longleftrightarrow> b_buf b' = b_buf b \<and> b_old b' = b_old b \<and> b_len b' + available b = b_len b + available b'"

lemma calm_trans: "calm a b \<Longrightarrow> calm b c \<Longrightarrow> calm a c"
  unfolding calm_def by (elim conjE, intro conjI) (simp, simp, linarith)

lemma calm_deref: "calm b b' \<Longrightarrow> deref b' = deref b"
  by (rule deref_cong) (simp_all add: calm_def)

lemma readNext_calm:
  assumes "readNext b n = (Ok d, b')" and "n \<le> b_len b"
  shows "calm b b'"
proof -
  note k = readNext_keeps(2-4) [OF assms(2,1)]
  have "b_len b' + available b = b_len b + available b'"
    using k(3) readNext_available [OF assms(1)] assms(2) by linarith
  with k show ?thesis by (simp add: calm_def)
qed

lemma readPacketLoop_calm:
  assumes "readPacketLoop b s acc = (Inr d, b', s')" and "available b \<le> available b' + b_len b"
  shows "calm b b' \<and> deref b' d = vis d"
  using assms
proof (induction "available b" arbitrary: b s acc rule: less_induct)
  case less
  from less.prems(1) obtain hdr b1 data b2 where
    h: "readNext b 4 = (Ok hdr, b1)" and dt: "readNext b1 (hdrLen (vis hdr)) = (Ok data, b2)"
    and next': "b' = b2 \<and> (d = data \<or> org d = None) \<or>
      (\<exists>p. readPacketLoop b2 (s + 1) (Some p) = (Inr d, b', s'))" by (rule readPacketLoop_Inr)
  have a1: "available b1 + 4 = available b" and a2: "available b2 + hdrLen (vis hdr) = available b1"
    using readNext_available h dt by auto
  have le: "available b' \<le> available b2"
    using next' readPacketLoop_available by (metis less_imp_le order_refl)
  have "4 \<le> b_len b" using less.prems(2) a1 a2 le by simp
  then have c1: "calm b b1" using readNext_calm [OF h] by simp
  then have "hdrLen (vis hdr) \<le> b_len b1" using less.prems(2) a1 a2 le by (simp add: calm_def)
  then have c2: "calm b b2" using readNext_calm [OF dt] calm_trans [OF c1] by simp
  from next' show ?case
  proof
    assume "b' = b2 \<and> (d = data \<or> org d = None)"
    then show ?thesis using c2 readNext_deref [OF dt] by (auto simp: deref_def)
  next
    assume "\<exists>p. readPacketLoop b2 (s + 1) (Some p) = (Inr d, b', s')"
    then obtain p where r: "readPacketLoop b2 (s + 1) (Some p) = (Inr d, b', s')" by blast
    have "available b2 < available b" and "available b2 \<le> available b' + b_len b2"
      using a1 a2 c2 less.prems(2) by (simp_all add: calm_def)
    from less.hyps [OF this(1) r this(2)] show ?thesis using calm_trans [OF c2] by simp
  qed
qed

lemma mc_readPacket_Ok: "mc_readPacket mc = (Ok d, mc') \<Longrightarrow>
    \<exists>s'. readPacketLoop (mc_buf mc) (mc_sequence mc) None = (Inr d, mc_buf mc', s')"
  by (auto simp: mc_readPacket_def Let_def split: prod.splits sum.splits rd_fail.splits)

lemma mc_readPacket_deref: "mc_readPacket mc = (Ok d, mc') \<Longrightarrow> deref (mc_buf mc') d = vis d"
  using mc_readPacket_Ok readPacketLoop_deref by blast

lemma mc_readPacket_calm:
  assumes "mc_readPacket mc = (Ok d, mc')" and "available (mc_buf mc) \<le> available (mc_buf mc') + b_len (mc_buf mc)"
  shows "calm (mc_buf mc) (mc_buf mc') \<and> deref (mc_buf mc') d = vis d"
  using mc_readPacket_Ok [OF assms(1)] readPacketLoop_calm assms(2) by blast

text \<open>One step of each loop that comes to an end.\<close>

lemma readUntilEOF_Ok:
  assumes "readUntilEOF mc res = (Ok out, mc')"
  obtains d m1 where "mc_readPacket mc = (Ok d, m1)"
    and "(out = res @ [d] \<and> mc_buf mc' = mc_buf m1) \<or> readUntilEOF m1 (res @ [d]) = (Ok out, mc')"
proof -
  obtain r m1 where rd: "mc_readPacket mc = (r, m1)" by fastforce
  obtain d where r: "r = Ok d"
    using assms rd by (cases r) (simp_all add: readUntilEOF.simps [of mc])
  obtain h where h: "idxAt d 0 = Ok h"
    using assms rd r by (cases "idxAt d 0") (simp_all add: readUntilEOF.simps [of mc])
  have "(out = res @ [d] \<and> mc_buf mc' = mc_buf m1) \<or> readUntilEOF m1 (res @ [d]) = (Ok out, mc')"
    using assms rd r h by (auto simp: readUntilEOF.simps [of mc] Let_def bindS_Ok_iff split: if_splits)
  with rd r show thesis using that by simp
qed

lemma readResultSetLoop_Ok:
  assumes "readResultSetLoop mc res count i = (Ok out, mc')"
  obtains d m1 where "mc_readPacket mc = (Ok d, m1)"
    and "(out = res @ [d] \<and> mc' = m1) \<or> readResultSetLoop m1 (res @ [d]) count (i + 1) = (Ok out, mc')"
proof -
  obtain r m1 where rd: "mc_readPacket mc = (r, m1)" by fastforce
  obtain d where r: "r = Ok d"
    using assms rd by (cases r) (simp_all add: readResultSetLoop.simps [of mc])
  obtain h where h: "idxAt d 0 = Ok h"
    using assms rd r by (cases "idxAt d 0") (simp_all add: readResultSetLoop.simps [of mc])
  have "(out = res @ [d] \<and> mc' = m1) \<or> readResultSetLoop m1 (res @ [d]) count (i + 1) = (Ok out, mc')"
    using assms rd r h by (auto simp: readResultSetLoop.simps [of mc] Let_def split: if_splits)
  with rd r show thesis using that by simp
qed

text \<open>Both loops use bytes up.\<close>

lemma readUntilEOF_less: "readUntilEOF mc res = (Ok out, mc') \<Longrightarrow> available (mc_buf mc') < available (mc_buf mc)"
proof (induction "available (mc_buf mc)" arbitrary: mc res rule: less_induct)
  case less
  from less.prems obtain d m1 where r: "mc_readPacket mc = (Ok d, m1)"
    and n: "(out = res @ [d] \<and> mc_buf mc' = mc_buf m1) \<or> readUntilEOF m1 (res @ [d]) = (Ok out, mc')"
    by (rule readUntilEOF_Ok)
  from mc_readPacket_available [OF r] n less.hyps [of m1 "res @ [d]"] show ?case by auto
qed

lemma readResultSetLoop_less:
  "readResultSetLoop mc res count i = (Ok out, mc') \<Longrightarrow> available (mc_buf mc') < available (mc_buf mc)"
proof (induction "available (mc_buf mc)" arbitrary: mc res i rule: less_induct)
  case less
  from less.prems obtain d m1 where r: "mc_readPacket mc = (Ok d, m1)"
    and n: "(out = res @ [d] \<and> mc' = m1) \<or> readResultSetLoop m1 (res @ [d]) count (i + 1) = (Ok out, mc')"
    by (rule readResultSetLoop_Ok)
  from mc_readPacket_available [OF r] n less.hyps [of m1 "res @ [d]" "i + 1"] show ?case by auto
qed

text \<open>What both loops promise while nothing is refilled: the packets they add stay what they were.\<close>

definition addsCalmly :: "mysqlConn \<Rightarrow> gslice list \<Rightarrow> gslice list \<Rightarrow> mysqlConn \<Rightarrow> bool" where
  "addsCalmly mc res out mc' \<longleftrightarrow>
     (\<exists>ds. out = res @ ds \<and> calm (mc_buf mc) (mc_buf mc') \<and> (\<forall>d \<in> set ds. deref (mc_buf mc') d = vis d))"

lemma addsCalmly_step:
  assumes "mc_readPacket mc = (Ok d, m1)" and "available (mc_buf mc) \<le> available (mc_buf mc') + b_len (mc_buf mc)"
    and "available (mc_buf mc') \<le> available (mc_buf m1)"
    and "available (mc_buf m1) \<le> available (mc_buf mc') + b_len (mc_buf m1) \<Longrightarrow> addsCalmly m1 (res @ [d]) out mc'"
  shows "addsCalmly mc res out mc'"
proof -
  have c: "calm (mc_buf mc) (mc_buf m1)" "deref (mc_buf m1) d = vis d"
    using mc_readPacket_calm [OF assms(1)] assms(2,3) by auto
  with assms(2) have "available (mc_buf m1) \<le> available (mc_buf mc') + b_len (mc_buf m1)"
    by (simp add: calm_def)
  from assms(4) [OF this] obtain ds where ds: "out = (res @ [d]) @ ds" "calm (mc_buf m1) (mc_buf mc')"
    "\<forall>d \<in> set ds. deref (mc_buf mc') d = vis d" by (auto simp: addsCalmly_def)
  moreover have "deref (mc_buf mc') d = vis d" using calm_deref [OF ds(2)] c(2) by simp
  ultimately show ?thesis using calm_trans [OF c(1)]
    by (auto simp: addsCalmly_def intro!: exI [of _ "d # ds"])
qed

lemma addsCalmly_refl: "calm (mc_buf mc) (mc_buf mc) \<and> addsCalmly mc res res mc"
  by (simp add: addsCalmly_def calm_def)

lemma addsCalmly_buf: "mc_buf m2 = mc_buf m1 \<Longrightarrow> addsCalmly m1 res out m2 = addsCalmly m1 res out m1"
  by (simp add: addsCalmly_def)

lemma readUntilEOF_calm:
  assumes "readUntilEOF mc res = (Ok out, mc')" and "available (mc_buf mc) \<le> available (mc_buf mc') + b_len (mc_buf mc)"
  shows "addsCalmly mc res out mc'"
  using assms
proof (induction "available (mc_buf mc)" arbitrary: mc res rule: less_induct)
  case less
  from less.prems(1) obtain d m1 where r: "mc_readPacket mc = (Ok d, m1)"
    and n: "(out = res @ [d] \<and> mc_buf mc' = mc_buf m1) \<or> readUntilEOF m1 (res @ [d]) = (Ok out, mc')"
    by (rule readUntilEOF_Ok)
  show ?case
  proof (rule addsCalmly_step [OF r less.prems(2)])
    show "available (mc_buf mc') \<le> available (mc_buf m1)" using n readUntilEOF_less by (metis less_imp_le order_refl)
    show "addsCalmly m1 (res @ [d]) out mc'" if "available (mc_buf m1) \<le> available (mc_buf mc') + b_len (mc_buf m1)"
      using n
    proof
      assume "out = res @ [d] \<and> mc_buf mc' = mc_buf m1"
      then show ?thesis using addsCalmly_refl [of m1 "res @ [d]"] addsCalmly_buf [of mc' m1] by simp
    qed (use less.hyps [OF mc_readPacket_available [OF r]] that in blast)
  qed
qed

lemma readResultSetLoop_calm:
  assumes "readResultSetLoop mc res count i = (Ok out, mc')"
    and "available (mc_buf mc) \<le> available (mc_buf mc') + b_len (mc_buf mc)"
  shows "addsCalmly mc res out mc'"
  using assms
proof (induction "available (mc_buf mc)" arbitrary: mc res i rule: less_induct)
  case less
  from less.prems(1) obtain d m1 where r: "mc_readPacket mc = (Ok d, m1)"
    and n: "(out = res @ [d] \<and> mc' = m1) \<or> readResultSetLoop m1 (res @ [d]) count (i + 1) = (Ok out, mc')"
    by (rule readResultSetLoop_Ok)
  show ?case
  proof (rule addsCalmly_step [OF r less.prems(2)])
    show "available (mc_buf mc') \<le> available (mc_buf m1)"
      using n readResultSetLoop_less by (metis less_imp_le order_refl)
    show "addsCalmly m1 (res @ [d]) out mc'" if "available (mc_buf m1) \<le> available (mc_buf mc') + b_len (mc_buf m1)"
      using n
    proof
      assume "out = res @ [d] \<and> mc' = m1"
      then show ?thesis using addsCalmly_refl [of m1 "res @ [d]"] by simp
    qed (use less.hyps [OF mc_readPacket_available [OF r]] that in blast)
  qed
qed

section \<open>A refill of an empty buffer\<close>

definition refilled :: "buffer \<Rightarrow> sock \<Rightarrow> byte list \<Rightarrow> rd_event list \<Rightarrow> buffer" where
  "refilled b s bs es =
     b\<lparr>b_buf := copyAt (b_buf b) 0 bs, b_idx := 0, b_len := length bs, b_nc := Some (s\<lparr>rx := es\<rparr>)\<rparr>"

text \<open>The next \<^verbatim>\<open>Read\<close> brings \<open>bs\<close>, which fits into the array.\<close>

definition brings :: "buffer \<Rightarrow> byte list \<Rightarrow> rd_event list \<Rightarrow> bool" where
  "brings b bs es \<longleftrightarrow> b_len b = 0 \<and> 4 \<le> length bs \<and> length bs \<le> length (b_buf b) \<and>
     (\<exists>s. b_nc b = Some s \<and> rx s = Rd bs None # es \<and> (0 < b_timeout b \<longrightarrow> dl_err s = None))"

lemma readNext_refilled:
  assumes "brings b bs es" and "b_nc b = Some s"
  shows "readNext b 4 = readNext (refilled b s bs es) 4"
proof -
  from assms have b: "b_len b = 0" "0 < b_timeout b \<longrightarrow> dl_err s = None" "rx s = Rd bs None # es"
    "4 \<le> length bs" "length bs \<le> length (b_buf b)" by (auto simp: brings_def)
  have "take 4 (copyAt (b_buf b) 0 bs) = take 4 bs" using b by (simp add: copyAt_fits)
  then show ?thesis
    using readNext_refill [OF b(1) assms(2) b(2,3), of 4] b
    by (simp add: readNext_def refilled_def)
qed

lemma readPacketLoop_refilled:
  assumes "brings b bs es" and "b_nc b = Some s"
  shows "readPacketLoop b q acc = readPacketLoop (refilled b s bs es) q acc"
  by (subst (1 2) readPacketLoop.simps) (simp only: readNext_refilled [OF assms])

lemma mc_readPacket_refilled:
  assumes "brings (mc_buf mc) bs es" and "b_nc (mc_buf mc) = Some s"
  shows "mc_readPacket mc = mc_readPacket (mc\<lparr>mc_buf := refilled (mc_buf mc) s bs es\<rparr>)"
  using readPacketLoop_refilled [OF assms] by (simp add: mc_readPacket_def)

lemma readResultSetLoop_refilled:
  assumes "brings (mc_buf mc) bs es" and "b_nc (mc_buf mc) = Some s"
  shows "readResultSetLoop mc res n i =
    readResultSetLoop (mc\<lparr>mc_buf := refilled (mc_buf mc) s bs es\<rparr>) res n i"
  by (subst (1 2) readResultSetLoop.simps) (simp only: mc_readPacket_refilled [OF assms])

lemma available_refilled: "available (refilled b s bs es) = length bs + length (rxData es)"
  by (simp add: refilled_def available_def)

lemma available_stream: "wf_buffer b \<Longrightarrow> available b = length (stream b)"
  by (simp add: available_def stream_def length_unread split: option.split)

lemma available_conn: "conn_good b \<Longrightarrow> available b = length (stream b)"
  by (simp add: available_stream conn_good_def readable_def)

section \<open>Answers that come in one piece\<close>

lemma addsCalmly_both:
  assumes c: "readResultSetLoop m2 [d] n 0 = (Ok ([d] @ ds1), m3)"
    and u: "readUntilEOF m3 ([d] @ ds1) = (Ok (([d] @ ds1) @ ds2), m4)"
    and av: "available (mc_buf m2) \<le> available (mc_buf m4) + b_len (mc_buf m2)"
  shows "calm (mc_buf m2) (mc_buf m4) \<and> (\<forall>e \<in> set (ds1 @ ds2). deref (mc_buf m4) e = vis e)"
proof -
  have l: "available (mc_buf m4) \<le> available (mc_buf m3)" "available (mc_buf m3) \<le> available (mc_buf m2)"
    using readUntilEOF_less [OF u] readResultSetLoop_less [OF c] by simp_all
  then have "available (mc_buf m2) \<le> available (mc_buf m3) + b_len (mc_buf m2)" using av by simp
  from readResultSetLoop_calm [OF c this] have c3: "calm (mc_buf m2) (mc_buf m3)"
    and d1: "\<forall>e \<in> set ds1. deref (mc_buf m3) e = vis e" by (auto simp: addsCalmly_def)
  then have "available (mc_buf m3) \<le> available (mc_buf m4) + b_len (mc_buf m3)" using av by (simp add: calm_def)
  from readUntilEOF_calm [OF u this] have c4: "calm (mc_buf m3) (mc_buf m4)"
    and d2: "\<forall>e \<in> set ds2. deref (mc_buf m4) e = vis e" by (auto simp: addsCalmly_def)
  have "\<forall>e \<in> set ds1. deref (mc_buf m4) e = vis e" using d1 calm_deref [OF c4] by simp
  with d2 calm_trans [OF c3 c4] show ?thesis by auto
qed

text \<open>When the first \<^verbatim>\<open>Read\<close> brings the whole answer, the packets of the result are what was sent.\<close>

lemma mc_Query_intact:
  assumes ready: "mc_ready mc" and arg: "vis data = c # arg" "int (length arg) + 1 \<le> mc_maxPacketAllowed mc"
    and rs: "goodResultSet cols eof1 rows eof2"
    and br: "brings (mc_buf mc) (framesOfAll (seqAfter 0 (c # arg)) (resultSet cols eof1 rows eof2)) es"
  shows "\<exists>ds mc'. mc_Query mc data = (Ok ds, mc') \<and>
    map (deref (mc_buf mc')) ds = resultSet cols eof1 rows eof2"
proof -
  let ?bs = "framesOfAll (seqAfter 0 (c # arg)) (resultSet cols eof1 rows eof2)"
  from br have z: "b_len (mc_buf mc) = 0" and "stream (mc_buf mc) = ?bs @ rxData es"
    by (auto simp: brings_def stream_def unread_def)
  from mc_Query_steps [OF ready arg rs this(2)] obtain m1 d m2 ds1 m3 ds2 m4 where
    w: "writeCommandPacketStr mc c arg = (Ok (), m1)" "mc_ready m1"
    and r: "mc_readPacket m1 = (Ok d, m2)" "vis d = appendLengthEncodedInteger [] (of_nat (length cols))"
    and l1: "readResultSetPacket m2 [d] (int (length cols)) = (Ok ([d] @ ds1), m3)" "map vis ds1 = cols @ [eof1]"
    and l2: "readUntilEOF m3 ([d] @ ds1) = (Ok (([d] @ ds1) @ ds2), m4)" "map vis ds2 = rows @ [eof2]"
    and q: "mc_Query mc data = (Ok (([d] @ ds1) @ ds2), m4)" "stream (mc_buf m4) = rxData es" "conn_good (mc_buf m4)"
    .
  from writeCommandPacketStr_rx [OF w(1)] br z have b1: "brings (mc_buf m1) ?bs es"
    by (auto simp: brings_def rxSide_def)
  then obtain s where s: "b_nc (mc_buf m1) = Some s" by (auto simp: brings_def)
  let ?m = "m1\<lparr>mc_buf := refilled (mc_buf m1) s ?bs es\<rparr>"
  have r': "mc_readPacket ?m = (Ok d, m2)" using r(1) mc_readPacket_refilled [OF b1 s] by simp
  have a4: "available (mc_buf m4) = length (rxData es)" using available_conn q(2,3) by simp
  have le: "available (mc_buf m4) \<le> available (mc_buf m2)"
    using readUntilEOF_less [OF l2(1)] readResultSetLoop_less [OF l1(1) [unfolded readResultSetPacket_def]] by simp
  have "b_len (mc_buf ?m) = length ?bs" by (simp add: refilled_def)
  then have "available (mc_buf ?m) \<le> available (mc_buf m2) + b_len (mc_buf ?m)"
    and tot: "available (mc_buf ?m) = available (mc_buf m4) + b_len (mc_buf ?m)"
    using le a4 by (simp_all add: available_refilled)
  with mc_readPacket_calm [OF r'] have c2: "calm (mc_buf ?m) (mc_buf m2)" and dd: "deref (mc_buf m2) d = vis d" by auto
  have "available (mc_buf m2) \<le> available (mc_buf m4) + b_len (mc_buf m2)"
    using c2 tot unfolding calm_def by linarith
  from addsCalmly_both [OF l1(1) [unfolded readResultSetPacket_def] l2(1) this]
  have c4: "calm (mc_buf m2) (mc_buf m4)" and ds: "\<forall>e \<in> set (ds1 @ ds2). deref (mc_buf m4) e = vis e" by auto
  have "deref (mc_buf m4) d = vis d" using dd calm_deref [OF c4] by simp
  moreover have "map (deref (mc_buf m4)) ds1 = map vis ds1" "map (deref (mc_buf m4)) ds2 = map vis ds2"
    using ds by auto
  ultimately have "map (deref (mc_buf m4)) (([d] @ ds1) @ ds2) = resultSet cols eof1 rows eof2"
    using r(2) l1(2) l2(2) by (simp add: resultSet_def)
  with q(1) show ?thesis by blast
qed

text \<open>C3: the answer to a query that has rows is the column count, the column definitions, an EOF packet, the
  rows and an EOF packet. However these arrive, \<^verbatim>\<open>Query\<close> sends the command as one packet, reads exactly these
  packets in this order and returns one slice for each, whose content was that packet when it was read, and it
  leaves what follows unread. A slice is only valid until the next refill of the buffer: that the slices
  still show the packets when \<^verbatim>\<open>Query\<close> has returned holds when the first \<^verbatim>\<open>Read\<close> brings the whole answer; C2
  shows that it fails for an answer that comes in two pieces.\<close>

theorem mc_Query_resultSet:
  assumes "mc_ready mc" and "vis data = c # arg" and "int (length arg) + 1 \<le> mc_maxPacketAllowed mc"
    and "goodResultSet cols eof1 rows eof2"
    and "stream (mc_buf mc) = framesOfAll (seqAfter 0 (c # arg)) (resultSet cols eof1 rows eof2) @ rest"
  shows "\<exists>ds mc'. mc_Query mc data = (Ok ds, mc') \<and> map vis ds = resultSet cols eof1 rows eof2 \<and>
    stream (mc_buf mc') = rest \<and> sentBytes (mc_buf mc') = sentBytes (mc_buf mc) @ framesOf 0 (c # arg) \<and>
    conn_good (mc_buf mc') \<and>
    ((\<exists>es. brings (mc_buf mc) (framesOfAll (seqAfter 0 (c # arg)) (resultSet cols eof1 rows eof2)) es) \<longrightarrow>
      map (deref (mc_buf mc')) ds = resultSet cols eof1 rows eof2)"
proof -
  from mc_Query_packets [OF assms] obtain ds mc' where
    q: "mc_Query mc data = (Ok ds, mc')" "map vis ds = resultSet cols eof1 rows eof2" "stream (mc_buf mc') = rest"
    "sentBytes (mc_buf mc') = sentBytes (mc_buf mc) @ framesOf 0 (c # arg)" "conn_good (mc_buf mc')" by blast
  have "map (deref (mc_buf mc')) ds = resultSet cols eof1 rows eof2"
    if "brings (mc_buf mc) (framesOfAll (seqAfter 0 (c # arg)) (resultSet cols eof1 rows eof2)) es" for es
    using mc_Query_intact [OF assms(1-4) that] q(1) by auto
  with q show ?thesis by blast
qed

theorem mc_Query_resultSet_witness:
  "\<exists>ds mc' ds2 mc2. mc_Query (idleConn [Rd [] None, Rd (framesOfAll 1 (resultSet [[1]] [0xfe] [[2], [3]] [0xfe])) None])
      (slice [3, 0x61]) = (Ok ds, mc') \<and>
    map vis ds = resultSet [[1]] [0xfe] [[2], [3]] [0xfe] \<and> stream (mc_buf mc') = [] \<and>
    mc_Query (idleConn [Rd (framesOfAll 1 (resultSet [[1]] [0xfe] [[2], [3]] [0xfe])) None])
      (slice [3, 0x61]) = (Ok ds2, mc2) \<and>
    map (deref (mc_buf mc2)) ds2 = resultSet [[1]] [0xfe] [[2], [3]] [0xfe]"
proof -
  let ?ps = "resultSet [[1]] [0xfe] [[2], [3]] [0xfe] :: byte list list"
  let ?m1 = "idleConn [Rd [] None, Rd (framesOfAll 1 ?ps) None]" and ?m2 = "idleConn [Rd (framesOfAll 1 ?ps) None]"
  have g: "goodResultSet [[1]] [0xfe] [[2], [3]] [0xfe]"
    by (simp add: goodResultSet_def framable_def isEOF_def header_defs MaxPacketSize_val)
  have q: "seqAfter 0 (3 # [0x61]) = 1" by (simp add: seqAfter_def MaxPacketSize_val)
  have "\<exists>ds mc'. mc_Query ?m1 (slice [3, 0x61]) = (Ok ds, mc') \<and> map vis ds = ?ps \<and> stream (mc_buf mc') = [] \<and>
      sentBytes (mc_buf mc') = sentBytes (mc_buf ?m1) @ framesOf 0 (3 # [0x61]) \<and> conn_good (mc_buf mc') \<and>
      ((\<exists>es. brings (mc_buf ?m1) (framesOfAll (seqAfter 0 (3 # [0x61])) ?ps) es) \<longrightarrow> map (deref (mc_buf mc')) ds = ?ps)"
    by (rule mc_Query_resultSet [OF _ _ _ g]) (simp_all add: q)
  moreover have "\<exists>ds mc'. mc_Query ?m2 (slice [3, 0x61]) = (Ok ds, mc') \<and> map vis ds = ?ps \<and> stream (mc_buf mc') = [] \<and>
      sentBytes (mc_buf mc') = sentBytes (mc_buf ?m2) @ framesOf 0 (3 # [0x61]) \<and> conn_good (mc_buf mc') \<and>
      ((\<exists>es. brings (mc_buf ?m2) (framesOfAll (seqAfter 0 (3 # [0x61])) ?ps) es) \<longrightarrow> map (deref (mc_buf mc')) ds = ?ps)"
    by (rule mc_Query_resultSet [OF _ _ _ g]) (simp_all add: q)
  moreover have "4 \<le> length (framesOfAll 1 ?ps)" "length (framesOfAll 1 ?ps) \<le> defaultBufSize"
    by (simp_all add: resultSet_def MaxPacketSize_val defaultBufSize_def lenEncSize_def)
  then have "brings (mc_buf ?m2) (framesOfAll (seqAfter 0 (3 # [0x61])) ?ps) []"
    unfolding q by (simp add: brings_def idleConn_def newBuffer_def)
  ultimately show ?thesis by blast
qed

section \<open>Answers that come in two pieces\<close>

lemma readPacketLoop_one:
  assumes p: "p \<noteq> []" "length p < MaxPacketSize"
    and b: "b_idx b = 0" "b_buf b = framesOf q p @ r" "b_len b = length (framesOf q p)"
  shows "\<exists>e. readPacketLoop b q None = (Inr \<lparr>vis = p, ext = e, org = Some (length (b_old b), 4)\<rparr>,
    b\<lparr>b_idx := 4 + length p, b_len := 0\<rparr>, q + 1)"
proof -
  let ?h = "[byteAt 0 (of_nat (length p) :: u64), byteAt 8 (of_nat (length p) :: u64),
      byteAt 16 (of_nat (length p) :: u64), q]"
  let ?b1 = "b\<lparr>b_idx := 4, b_len := length p\<rparr>"
  have f: "framesOf q p = ?h @ p" using p by (simp add: framesOf.simps [of q p])
  have dr: "drop (4 + length p) (w # x # y # z # p @ r) = r" for w x y z
    by (simp add: add.commute [of 4] flip: drop_drop)
  have "readNext b 4 = (Ok \<lparr>vis = ?h, ext = p @ r, org = Some (length (b_old b), 0)\<rparr>, ?b1)"
    using b f by (simp add: readNext_def)
  moreover have "hdrLen ?h = length p" using p by (simp add: hdrLen_frame MaxPacketSize_val)
  moreover have "readNext ?b1 (length p) = (Ok \<lparr>vis = p, ext = r, org = Some (length (b_old b), 4)\<rparr>,
      ?b1\<lparr>b_idx := 4 + length p, b_len := 0\<rparr>)"
    using b f by (simp add: readNext_def dr)
  ultimately show ?thesis using p by (subst readPacketLoop.simps) (simp add: Let_def)
qed

lemma mc_readPacket_whole:
  assumes p: "p \<noteq> []" "length p < MaxPacketSize"
    and br: "brings (mc_buf mc) (framesOf (mc_sequence mc) p) es" and s: "b_nc (mc_buf mc) = Some s"
  shows "\<exists>e. mc_readPacket mc = (Ok \<lparr>vis = p, ext = e, org = Some (length (b_old (mc_buf mc)), 4)\<rparr>,
    mc\<lparr>mc_buf := (refilled (mc_buf mc) s (framesOf (mc_sequence mc) p) es)\<lparr>b_idx := 4 + length p, b_len := 0\<rparr>,
       mc_sequence := mc_sequence mc + 1\<rparr>)"
proof -
  let ?b = "refilled (mc_buf mc) s (framesOf (mc_sequence mc) p) es"
  have "b_buf ?b = framesOf (mc_sequence mc) p @ drop (length (framesOf (mc_sequence mc) p)) (b_buf (mc_buf mc))"
    using br by (simp add: refilled_def brings_def copyAt_fits)
  moreover have "b_idx ?b = 0" "b_len ?b = length (framesOf (mc_sequence mc) p)" "b_old ?b = b_old (mc_buf mc)"
    by (simp_all add: refilled_def)
  ultimately obtain e where "readPacketLoop ?b (mc_sequence mc) None =
      (Inr \<lparr>vis = p, ext = e, org = Some (length (b_old (mc_buf mc)), 4)\<rparr>,
       ?b\<lparr>b_idx := 4 + length p, b_len := 0\<rparr>, mc_sequence mc + 1)"
    using readPacketLoop_one [OF p] by metis
  then show ?thesis using readPacketLoop_refilled [OF br s] by (simp add: mc_readPacket_def Let_def)
qed

text \<open>
  When the first \<^verbatim>\<open>Read\<close> brings the header packet and the second the rest, the second goes to the front
  of the array, over the header packet: its place now shows the first bytes of the next packet.
\<close>

lemma mc_Query_overwritten:
  assumes ready: "mc_ready mc" and arg: "vis data = c # arg" "int (length arg) + 1 \<le> mc_maxPacketAllowed mc"
    and rs: "goodResultSet cols eof1 rows eof2"
  defines "q \<equiv> seqAfter 0 (c # arg)" and "hdr \<equiv> appendLengthEncodedInteger [] (of_nat (length cols))"
  defines "tail \<equiv> framesOfAll (seqAfter q hdr) (cols @ [eof1] @ rows @ [eof2])"
  assumes br: "brings (mc_buf mc) (framesOf q hdr) (Rd tail None # es)"
    and fit: "length hdr + 4 \<le> length tail" "length tail \<le> defaultBufSize"
  shows "\<exists>ds mc'. mc_Query mc data = (Ok ds, mc') \<and>
    map (deref (mc_buf mc')) ds = take (length hdr) (drop 4 tail) # cols @ [eof1] @ rows @ [eof2]"
proof -
  from br have z: "b_len (mc_buf mc) = 0"
    and "stream (mc_buf mc) = framesOfAll (seqAfter 0 (c # arg)) (resultSet cols eof1 rows eof2) @ rxData es"
    by (auto simp: brings_def stream_def unread_def resultSet_def q_def hdr_def tail_def)
  from mc_Query_steps [OF ready arg rs this(2)] obtain m1 d m2 ds1 m3 ds2 m4 where
    w: "writeCommandPacketStr mc c arg = (Ok (), m1)" "mc_ready m1"
    and r: "mc_readPacket m1 = (Ok d, m2)" "vis d = appendLengthEncodedInteger [] (of_nat (length cols))"
    and l1: "readResultSetPacket m2 [d] (int (length cols)) = (Ok ([d] @ ds1), m3)" "map vis ds1 = cols @ [eof1]"
    and l2: "readUntilEOF m3 ([d] @ ds1) = (Ok (([d] @ ds1) @ ds2), m4)" "map vis ds2 = rows @ [eof2]"
    and q': "mc_Query mc data = (Ok (([d] @ ds1) @ ds2), m4)" "stream (mc_buf m4) = rxData es" "conn_good (mc_buf m4)"
    .
  from writeCommandPacketStr_rx [OF w(1)] br z have b1: "brings (mc_buf m1) (framesOf q hdr) (Rd tail None # es)"
    by (auto simp: brings_def rxSide_def)
  then obtain s where s: "b_nc (mc_buf m1) = Some s" by (auto simp: brings_def)
  have seq1: "mc_sequence m1 = q"
    using writeCommandPacketStr_sends [OF ready arg(2), of c] w(1) by (auto simp: q_def)
  have big: "defaultBufSize \<le> length (b_buf (mc_buf m1))"
    using w(2) by (simp add: mc_ready_def conn_good_def readable_def wf_buffer_def)
  have hdr: "hdr \<noteq> []" "length hdr < MaxPacketSize"
    using lenEncSize_bounds [of "of_nat (length cols)"] lenEnc_header(2) [of "length cols"] rs
    by (simp_all add: hdr_def goodResultSet_def MaxPacketSize_def)
  let ?b = "refilled (mc_buf m1) s (framesOf q hdr) (Rd tail None # es)"
  from mc_readPacket_whole [OF hdr _ s] b1 seq1 obtain e where
    "mc_readPacket m1 = (Ok \<lparr>vis = hdr, ext = e, org = Some (length (b_old (mc_buf m1)), 4)\<rparr>,
      m1\<lparr>mc_buf := ?b\<lparr>b_idx := 4 + length hdr, b_len := 0\<rparr>, mc_sequence := q + 1\<rparr>)" by auto
  with r(1) have d: "d = \<lparr>vis = hdr, ext = e, org = Some (length (b_old ?b), 4)\<rparr>"
    and m2: "mc_buf m2 = ?b\<lparr>b_idx := 4 + length hdr, b_len := 0\<rparr>" by (auto simp: refilled_def)
  let ?s = "s\<lparr>rx := Rd tail None # es\<rparr>"
  have "length (b_buf ?b) = length (b_buf (mc_buf m1))" by (simp add: refilled_def)
  then have b2: "brings (mc_buf m2) tail es" and s2: "b_nc (mc_buf m2) = Some ?s"
    using b1 s fit big by (auto simp: brings_def m2 refilled_def)
  let ?m = "m2\<lparr>mc_buf := refilled (mc_buf m2) ?s tail es\<rparr>"
  have l1': "readResultSetLoop ?m [d] (int (length cols)) 0 = (Ok ([d] @ ds1), m3)"
    using l1(1) readResultSetLoop_refilled [OF b2 s2] by (simp add: readResultSetPacket_def)
  have "available (mc_buf m4) = length (rxData es)" using available_conn q'(2,3) by simp
  then have "available (mc_buf ?m) \<le> available (mc_buf m4) + b_len (mc_buf ?m)"
    by (simp add: available_refilled) (simp add: refilled_def)
  from addsCalmly_both [OF l1' l2(1) this] have c4: "calm (mc_buf ?m) (mc_buf m4)"
    and ds: "\<forall>e \<in> set (ds1 @ ds2). deref (mc_buf m4) e = vis e" by auto
  have "deref (mc_buf ?m) d = take (length hdr) (drop 4 (copyAt (b_buf (mc_buf m2)) 0 tail))"
    by (simp add: d deref_def arrayAt_def refilled_def m2)
  also have "copyAt (b_buf (mc_buf m2)) 0 tail = tail @ drop (length tail) (b_buf (mc_buf m2))"
    using b2 by (simp add: brings_def copyAt_fits)
  also have "take (length hdr) (drop 4 \<dots>) = take (length hdr) (drop 4 tail)" using fit by simp
  finally have "deref (mc_buf m4) d = take (length hdr) (drop 4 tail)" using calm_deref [OF c4] by simp
  moreover have "map (deref (mc_buf m4)) ds1 = map vis ds1" "map (deref (mc_buf m4)) ds2 = map vis ds2"
    using ds by auto
  ultimately have "map (deref (mc_buf m4)) (([d] @ ds1) @ ds2) =
      take (length hdr) (drop 4 tail) # cols @ [eof1] @ rows @ [eof2]"
    using l1(2) l2(2) by simp
  with q'(1) show ?thesis by (intro exI conjI)
qed

section \<open>An answer of one packet\<close>

lemma framesOf_length: "4 \<le> length (framesOf q p)"
  by (subst framesOf.simps) simp

text \<open>After a command whose answer is one OK packet the connection is ready for the next one, and the
  next \<^verbatim>\<open>Read\<close> is still to come.\<close>

lemma mc_Exec_ok_whole:
  assumes ready: "mc_ready mc" and arg: "vis data = c # arg" "int (length arg) + 1 \<le> mc_maxPacketAllowed mc"
    and p: "p = [0x00] @ appendLengthEncodedInteger [] rows @ appendLengthEncodedInteger [] ins @ putUint16 st @ extra"
    and m: "length p < MaxPacketSize" "\<not> mc_strict mc"
    and br: "brings (mc_buf mc) (framesOf (seqAfter 0 (c # arg)) p) es"
  shows "\<exists>d mc'. mc_Exec mc data = (Ok d, mc') \<and> mc_Query mc data = (Ok [d], mc') \<and>
    deref (mc_buf mc') d = p \<and> mc_ready mc' \<and>
    (\<forall>bs es'. es = Rd bs None # es' \<and> 4 \<le> length bs \<and> length bs \<le> length (b_buf (mc_buf mc)) \<longrightarrow>
      brings (mc_buf mc') bs es') \<and>
    sentBytes (mc_buf mc') = sentBytes (mc_buf mc) @ framesOf 0 (c # arg) \<and>
    mc_maxPacketAllowed mc' = mc_maxPacketAllowed mc"
proof -
  from writeCommandPacketStr_sends [OF ready arg(2), of c] obtain m1 where
    w: "writeCommandPacketStr mc c arg = (Ok (), m1)"
    and m1: "sentBytes (mc_buf m1) = sentBytes (mc_buf mc) @ framesOf 0 (c # arg)"
      "mc_sequence m1 = seqAfter 0 (c # arg)" "m1 = mc\<lparr>mc_buf := mc_buf m1, mc_sequence := mc_sequence m1\<rparr>"
      "mc_ready m1" by blast
  from writeCommandPacketStr_rx [OF w] br ready
  have b1: "brings (mc_buf m1) (framesOf (mc_sequence m1) p) es"
    and lb: "length (b_buf (mc_buf mc)) \<le> length (b_buf (mc_buf m1))"
    by (auto simp: brings_def rxSide_def m1(2))
  then obtain s where s: "b_nc (mc_buf m1) = Some s" by (auto simp: brings_def)
  let ?b = "(refilled (mc_buf m1) s (framesOf (mc_sequence m1) p) es)
      \<lparr>b_idx := 4 + length p, b_len := 0\<rparr>"
  let ?m2 = "m1\<lparr>mc_buf := ?b, mc_sequence := mc_sequence m1 + 1\<rparr>"
  from mc_readPacket_whole [OF _ m(1) b1 s] obtain e where
    "mc_readPacket m1 = (Ok \<lparr>vis = p, ext = e, org = Some (length (b_old (mc_buf m1)), 4)\<rparr>, ?m2)" by (auto simp: p)
  then obtain d where r: "mc_readPacket m1 = (Ok d, ?m2)" "vis d = p" by simp
  have dr: "deref ?b d = p" using mc_readPacket_deref [OF r(1)] r(2) by simp
  have lr: "length (b_buf (refilled (mc_buf m1) s (framesOf (mc_sequence m1) p) es)) =
      length (b_buf (mc_buf m1))" by (simp add: refilled_def)
  let ?m3 = "?m2\<lparr>mc_affectedRows := rows, mc_insertID := ins, mc_status := st\<rparr>"
  have strict: "\<not> mc_strict ?m2" using m(2) by (subst m1(3)) simp
  have "handleOkPacket ?m2 d = (Ok (), ?m3)"
    using strict by (intro handleOkPacket_fields [OF r(2) [unfolded p]]) simp
  moreover have "idxAt d 0 = Ok HeaderOK" using idxAt_hd [OF r(2)] p by (simp add: HeaderOK_def)
  ultimately have "readResultSetHeaderPacket m1 = (Ok (d, 0), ?m3)"
    using r(1) by (simp add: readResultSetHeaderPacket_def)
  moreover obtain a where "gfrom data 1 = Ok a" "vis a = arg" using gfrom_in [of 1 data] arg(1) by simp
  moreover have "makeSlices (wrap64 (wrap64 (0 * 2) + 1)) = Ok ()" using makeSlices_columns [of 0] by simp
  ultimately have e: "mc_Exec mc data = (Ok d, ?m3)" "mc_Query mc data = (Ok [d], ?m3)"
    using w idxAt_hd [OF arg(1)] by (simp_all add: mc_Exec_def mc_Query_def)
  have b3: "\<forall>bs es'. es = Rd bs None # es' \<and> 4 \<le> length bs \<and> length bs \<le> length (b_buf (mc_buf mc)) \<longrightarrow>
      brings (mc_buf ?m3) bs es'"
    using b1 s lb lr by (auto simp: brings_def) (simp_all add: refilled_def)
  have wf: "wf_buffer (mc_buf ?m3)"
    using m1(4) b1 lr framesOf_length [of "mc_sequence m1" p] m(1)
    by (auto simp: wf_buffer_def mc_ready_def conn_good_def readable_def brings_def framesOf.simps [of _ p])
  have "mc_ready ?m3"
    using m1(4) s b1 wf
    by (auto simp: mc_ready_def conn_good_def readable_def brings_def) (auto simp: refilled_def)
  moreover have "sentBytes (mc_buf ?m3) = sentBytes (mc_buf mc) @ framesOf 0 (c # arg)"
    using m1(1) s by (simp add: sentBytes_def) (simp add: refilled_def)
  moreover have "mc_maxPacketAllowed ?m3 = mc_maxPacketAllowed mc" by (subst m1(3)) simp
  ultimately show ?thesis using e b3 dr by (intro exI [of _ d] exI [of _ ?m3]) simp
qed

end
