(* ===== verification/Server_Handshake.thy ===== *)
theory Server_Handshake
  imports Server_Alias
begin

text \<open>
  The connection phase with the database: what \<open>readInitPacket\<close> takes from a handshake packet, what
  \<open>writeAuthPacket\<close> answers and what \<open>readInitOK\<close> accepts.
\<close>

section \<open>The handshake packet\<close>

lemma indexByte_first: "c \<notin> set xs \<Longrightarrow> indexByte (xs @ c # ys) c = int (length xs)"
  by (induction xs) (auto simp: Let_def)

lemma indexByte_none: "c \<notin> set xs \<Longrightarrow> indexByte xs c = - 1"
  by (induction xs) (auto simp: Let_def)

text \<open>Protocol version, server version, connection id, the first part of the salt, a filler, the
  lower capabilities; then charset, status, upper capabilities, length and reserved bytes, the
  second part of the salt and what may follow.\<close>

definition initPacket ::
  "byte \<Rightarrow> byte list \<Rightarrow> byte list \<Rightarrow> byte list \<Rightarrow> byte \<Rightarrow> u16 \<Rightarrow> byte list \<Rightarrow> byte list \<Rightarrow> byte list \<Rightarrow> byte list" where
  "initPacket v ver cid s1 filler caps mid s2 tail =
     [v] @ ver @ [0x00] @ cid @ s1 @ [filler] @ putUint16 caps @ mid @ s2 @ tail"

definition goodInit ::
  "byte \<Rightarrow> byte list \<Rightarrow> byte list \<Rightarrow> byte list \<Rightarrow> u16 \<Rightarrow> byte list \<Rightarrow> byte list \<Rightarrow> bool" where
  "goodInit v ver cid s1 caps mid s2 \<longleftrightarrow>
     MinProtocolVersion \<le> v \<and> v \<noteq> HeaderERR \<and> 0x00 \<notin> set ver \<and> length cid = 4 \<and> length s1 = 8 \<and>
     hasFlag (ucast caps) ClientProtocol41 \<and> length mid = 16 \<and> length s2 = 12"

text \<open>Where a packet's slice lies.\<close>

lemma readPacketLoop_org:
  assumes "readPacketLoop b s acc = (Inr d, b', s')" and "wf_buffer b" and "b_nc b \<noteq> None"
  shows "wf_buffer b' \<and>
    (org d = None \<or> (\<exists>k. org d = Some (length (b_old b'), k) \<and> k + length (vis d) = b_idx b'))"
  using assms
proof (induction "available b" arbitrary: b s acc rule: less_induct)
  case less
  from less.prems(1) obtain hdr b1 data b2 where
    h: "readNext b 4 = (Ok hdr, b1)" and dt: "readNext b1 (hdrLen (vis hdr)) = (Ok data, b2)"
    and next': "b' = b2 \<and> (d = data \<or> org d = None) \<or>
      (\<exists>p. readPacketLoop b2 (s + 1) (Some p) = (Inr d, b', s'))" by (rule readPacketLoop_Inr)
  have w1: "wf_buffer b1" "b_nc b1 \<noteq> None" using readNext_safe [OF less.prems(2,3), of 4] h by auto
  have w2: "wf_buffer b2" "b_nc b2 \<noteq> None" using readNext_safe [OF w1, of "hdrLen (vis hdr)"] dt by auto
  have o: "\<exists>k. org data = Some (length (b_old b2), k) \<and> k + length (vis data) = b_idx b2"
    using dt by (auto simp: readNext_def bindS_Ok_iff split: if_splits)
  from next' show ?case
  proof
    assume "b' = b2 \<and> (d = data \<or> org d = None)"
    then show ?thesis using w2 o by auto
  next
    assume "\<exists>p. readPacketLoop b2 (s + 1) (Some p) = (Inr d, b', s')"
    then obtain p where r: "readPacketLoop b2 (s + 1) (Some p) = (Inr d, b', s')" by blast
    have "available b2 < available b" using readNext_available [OF h] readNext_available [OF dt] by simp
    from less.hyps [OF this r w2] show ?thesis .
  qed
qed

text \<open>An append inside a packet that was read leaves what is unread alone.\<close>

lemma appendInto_keeps:
  assumes wf: "wf_buffer b" and o: "org s = Some (length (b_old b), k)" and k: "k + length (vis s) + length bs \<le> b_idx b"
  shows "\<exists>a. appendInto b s bs = b\<lparr>b_buf := a\<rparr> \<and> length a = length (b_buf b) \<and> drop (b_idx b) a = drop (b_idx b) (b_buf b)"
proof (cases "length (ext s) < length bs")
  case True
  then show ?thesis using o by (intro exI [of _ "b_buf b"]) (simp add: appendInto_def)
next
  case False
  let ?a = "copyAt (b_buf b) (k + length (vis s)) bs"
  have "k + length (vis s) + length bs \<le> length (b_buf b)" using k wf by (simp add: wf_buffer_def)
  moreover have "drop (b_idx b) ?a = drop (b_idx b) (b_buf b)"
    using k calculation by (simp add: copyAt_fits)
  ultimately show ?thesis using o False by (intro exI [of _ ?a]) (simp add: appendInto_def)
qed

lemma conn_good_array:
  assumes "conn_good b" and "length a = length (b_buf b)" and "drop (b_idx b) a = drop (b_idx b) (b_buf b)"
  shows "conn_good (b\<lparr>b_buf := a\<rparr>)" and "stream (b\<lparr>b_buf := a\<rparr>) = stream b"
    and "sentBytes (b\<lparr>b_buf := a\<rparr>) = sentBytes b"
  using assms by (auto simp: conn_good_def readable_def wf_buffer_def stream_def unread_def sentBytes_def)

lemma gsub_at:
  assumes "vis s = a @ b @ c"
  shows "\<exists>t. gsub s (int (length a)) (int (length a) + int (length b)) = Ok t \<and> vis t = b \<and>
    org t = moveOrg (int (length a)) (org s) \<and> ext t = c @ ext s"
  using gsub_in [of "length a" "length a + length b" s] assms by simp

lemma readInitPacket_salt:
  assumes g: "conn_good (mc_buf mc)" and i: "goodInit v ver cid s1 caps mid s2"
    and p: "p = initPacket v ver cid s1 filler caps mid s2 tail" "framable p"
    and st: "stream (mc_buf mc) = framesOf (mc_sequence mc) p @ rest"
  shows "\<exists>mc'. readInitPacket mc = (Ok (s1 @ s2), mc') \<and> mc_flags mc' = ucast caps \<and>
    stream (mc_buf mc') = rest \<and> sentBytes (mc_buf mc') = sentBytes (mc_buf mc) \<and>
    mc_sequence mc' = seqAfter (mc_sequence mc) p \<and> conn_good (mc_buf mc') \<and>
    mc' = mc\<lparr>mc_buf := mc_buf mc', mc_sequence := mc_sequence mc', mc_flags := ucast caps\<rparr>"
proof -
  let ?n = "length ver"
  from i have l: "length cid = 4" "length s1 = 8" "length mid = 16" "length s2 = 12"
    and v: "\<not> v < MinProtocolVersion" "v \<noteq> HeaderERR" and ver: "0x00 \<notin> set ver"
    and f: "ucast caps AND client_flag ClientProtocol41 \<noteq> 0"
    by (auto simp: goodInit_def hasFlag_def)
  from mc_readPacket_frames [OF g st p(2)] obtain d m1 where
    r: "mc_readPacket mc = (Ok d, m1)" "vis d = p" and s: "stream (mc_buf m1) = rest"
    "sentBytes (mc_buf m1) = sentBytes (mc_buf mc)" "mc_sequence m1 = seqAfter (mc_sequence mc) p"
    "conn_good (mc_buf m1)" "m1 = mc\<lparr>mc_buf := mc_buf m1, mc_sequence := mc_sequence m1\<rparr>" .
  have d: "vis d = [v] @ ver @ [0x00] @ cid @ s1 @ [filler] @ putUint16 caps @ mid @ s2 @ tail"
    using r(2) by (simp add: p(1) initPacket_def)
  have pl: "length (putUint16 caps) = 2" by (simp add: putUint16_def)
  have len: "len d = 45 + int ?n + int (length tail)" using d l pl by (simp add: len_def)
  have h: "idxAt d 0 = Ok v" using idxAt_in [of 0 d] d by simp
  from gfrom_mid [of d "[v]"] d obtain t where t: "gfrom d 1 = Ok t"
    "vis t = ver @ 0x00 # cid @ s1 @ [filler] @ putUint16 caps @ mid @ s2 @ tail" by auto
  have ix: "indexByte (vis t) 0 = int ?n" unfolding t(2) by (rule indexByte_first [OF ver])
  from gsub_at [of d "[v] @ ver @ [0x00] @ cid" s1] d l obtain cipher where
    c: "gsub d (int ?n + 6) (int ?n + 14) = Ok cipher" "vis cipher = s1" "org cipher = moveOrg (int ?n + 6) (org d)"
    by (auto simp: algebra_simps)
  from gsub_mid [of d "[v] @ ver @ [0x00] @ cid @ s1 @ [filler]" "putUint16 caps"] d l pl obtain fl where
    fl: "gsub d (int ?n + 15) (int ?n + 17) = Ok fl" "vis fl = putUint16 caps" by (auto simp: algebra_simps)
  from gsub_mid [of d "[v] @ ver @ [0x00] @ cid @ s1 @ [filler] @ putUint16 caps @ mid" s2] d l pl obtain c2 where
    c2: "gsub d (int ?n + 33) (int ?n + 45) = Ok c2" "vis c2 = s2" by (auto simp: algebra_simps)
  let ?b = "appendInto (mc_buf m1) cipher s2"
  have "\<exists>a. ?b = (mc_buf m1)\<lparr>b_buf := a\<rparr> \<and> length a = length (b_buf (mc_buf m1)) \<and>
      drop (b_idx (mc_buf m1)) a = drop (b_idx (mc_buf m1)) (b_buf (mc_buf m1))"
  proof -
    from g have w: "wf_buffer (mc_buf mc)" "b_nc (mc_buf mc) \<noteq> None" by (auto simp: conn_good_def readable_def)
    from mc_readPacket_Ok [OF r(1)] obtain q where
      "readPacketLoop (mc_buf mc) (mc_sequence mc) None = (Inr d, mc_buf m1, q)" by blast
    from readPacketLoop_org [OF this w] have w1: "wf_buffer (mc_buf m1)" and
      o: "org d = None \<or> (\<exists>k. org d = Some (length (b_old (mc_buf m1)), k) \<and> k + length (vis d) = b_idx (mc_buf m1))"
      by auto
    from o show ?thesis
    proof
      assume "org d = None"
      then have "?b = (mc_buf m1)\<lparr>b_buf := b_buf (mc_buf m1)\<rparr>" using c(3) by (simp add: appendInto_def)
      then show ?thesis by blast
    next
      assume "\<exists>k. org d = Some (length (b_old (mc_buf m1)), k) \<and> k + length (vis d) = b_idx (mc_buf m1)"
      then obtain k where k: "org d = Some (length (b_old (mc_buf m1)), k)" "k + length (vis d) = b_idx (mc_buf m1)"
        by blast
      have "org cipher = Some (length (b_old (mc_buf m1)), k + nat (int ?n + 6))"
        using c(3) k(1) by (simp add: moveOrg_def)
      moreover have "length (vis d) = 45 + ?n + length tail" using d l pl by simp
      then have "k + nat (int ?n + 6) + length (vis cipher) + length s2 \<le> b_idx (mc_buf m1)"
        using k(2) l c(2) by simp
      ultimately show ?thesis by (rule appendInto_keeps [OF w1])
    qed
  qed
  then obtain a where a: "?b = (mc_buf m1)\<lparr>b_buf := a\<rparr>" "length a = length (b_buf (mc_buf m1))"
    "drop (b_idx (mc_buf m1)) a = drop (b_idx (mc_buf m1)) (b_buf (mc_buf m1))" by blast
  note keep = conn_good_array [OF s(4) a(2,3)]
  let ?m = "m1\<lparr>mc_flags := ucast caps, mc_buf := ?b\<rparr>"
  have "readInitPacket mc = (Ok (s1 @ s2), ?m)"
    using r(1) h v t ix c fl c2 f leUint16_put [of caps "[]"]
    by (simp add: readInitPacket_def Let_def algebra_simps len)
  moreover have "?m = mc\<lparr>mc_buf := mc_buf ?m, mc_sequence := mc_sequence ?m, mc_flags := ucast caps\<rparr>"
    by (subst s(5)) simp
  moreover have "conn_good (mc_buf ?m)" "stream (mc_buf ?m) = rest" "sentBytes (mc_buf ?m) = sentBytes (mc_buf mc)"
    using keep s(1,2) by (simp_all add: a(1))
  ultimately show ?thesis using s(3) by (intro exI [of _ ?m]) simp
qed

section \<open>The answer\<close>

text \<open>\<open>data\<close> holds \<open>pre\<close> behind its four header bytes; a write at the position after it extends it.\<close>

definition filled :: "byte list \<Rightarrow> byte list \<Rightarrow> bool" where
  "filled data pre \<longleftrightarrow> (\<exists>h r. length h = 4 \<and> data = h @ pre @ r)"

lemma filled_start: "4 \<le> length data \<Longrightarrow> filled data []"
  unfolding filled_def by (rule exI [of _ "take 4 data"], rule exI [of _ "drop 4 data"]) simp

lemma filled_copy:
  assumes "filled data pre" and "pos = 4 + length pre" and "pos + length bs \<le> length data"
  shows "filled (copyAt data pos bs) (pre @ bs)"
proof -
  from assms obtain h r where d: "length h = 4" "data = h @ pre @ r" by (auto simp: filled_def)
  then have "copyAt data pos bs = h @ (pre @ bs) @ drop (length bs) r"
    using assms(2,3) by (simp add: copyAt_fits)
  with d(1) show ?thesis unfolding filled_def by blast
qed

lemma filled_put:
  assumes "filled data pre" and "pos = 4 + length pre" and "pos < length data"
  shows "filled (data[pos := x]) (pre @ [x])"
proof -
  from assms obtain h r where d: "length h = 4" "data = h @ pre @ r" by (auto simp: filled_def)
  then obtain y r' where "r = y # r'" using assms(2,3) by (cases r) auto
  with d assms(2) have "data[pos := x] = h @ (pre @ [x]) @ r'" by (simp add: list_update_append)
  with d(1) show ?thesis unfolding filled_def by blast
qed

lemma filled_all: "filled data p \<Longrightarrow> length data = 4 + length p \<Longrightarrow> drop 4 data = p"
  by (auto simp: filled_def)

definition authFlags :: "u32 \<Rightarrow> byte list \<Rightarrow> u32" where
  "authFlags fl db =
     (let f = client_flag ClientProtocol41 OR client_flag ClientSecureConn OR client_flag ClientLongPassword OR
            client_flag ClientTransactions OR (fl AND client_flag ClientLongFlag)
      in if 0 < length db then f OR client_flag ClientConnectWithDB else f)"

definition authPayload :: "u32 \<Rightarrow> byte \<Rightarrow> byte list \<Rightarrow> byte list \<Rightarrow> byte list \<Rightarrow> byte list" where
  "authPayload flags charset user token db =
     putUint32 flags @ [0, 0, 0, 0] @ [charset] @ replicate 23 0 @ user @ [0] @ [of_nat (length token)] @ token @
     (if 0 < length db then db @ [0] else []) @ str ''mysql_native_password'' @ [0]"

lemma DefaultCollation_id: "collationId DefaultCollation = Some 33"
  by (simp add: collationId_def DefaultCollation_def Collations_def collations1_def)

text \<open>The writes of \<open>writeAuthPacket\<close>, as far as the collation and after it.\<close>

definition authWrites :: "byte list \<Rightarrow> u32 \<Rightarrow> byte \<Rightarrow> byte list \<Rightarrow> byte list \<Rightarrow> byte list \<Rightarrow> byte list" where
  "authWrites data flags charset user token db =
     (let data = copyAt data 4 (putUint32 flags);
          data = copyAt data 8 [0x00, 0x00, 0x00, 0x00];
          data = data[12 := charset];
          data = copyAt data 13 (replicate 23 0);
          pos = 13 + 23;
          data = (if 0 < length user then copyAt data pos user else data);
          pos = pos + length user;
          data = data[pos := 0x00];
          pos = pos + 1;
          data = data[pos := of_nat (length token)];
          data = copyAt data (pos + 1) token;
          pos = pos + 1 + length token;
          data = (if 0 < length db then (copyAt data pos db)[pos + length db := 0x00] else data);
          pos = (if 0 < length db then pos + length db + 1 else pos);
          data = copyAt data pos (str ''mysql_native_password'');
          pos = pos + 21
      in data[pos := 0x00])"

lemma length_authPayload:
  "length (authPayload flags charset user token db) =
     4 + 4 + 1 + 23 + length user + 1 + 1 + length token + 21 + 1 + (if 0 < length db then length db + 1 else 0)"
  by (simp add: authPayload_def putUint32_def)

lemma authWrites_payload:
  assumes l: "length data = 4 + length (authPayload flags charset user token db)"
  shows "length (authWrites data flags charset user token db) = length data \<and>
    drop 4 (authWrites data flags charset user token db) = authPayload flags charset user token db"
proof -
  note len = l [unfolded length_authPayload]
  have pf: "length (putUint32 flags) = 4" by (simp add: putUint32_def)
  define d1 where "d1 = copyAt data 4 (putUint32 flags)"
  have l1: "length d1 = length data" using len by (simp add: d1_def)
  have f1: "filled d1 (putUint32 flags)"
    unfolding d1_def using filled_copy [OF filled_start, of data 4 "putUint32 flags"] len pf by simp
  define d2 where "d2 = copyAt d1 8 [0, 0, 0, 0]"
  have l2: "length d2 = length data" using len l1 by (simp add: d2_def)
  have f2: "filled d2 (putUint32 flags @ [0, 0, 0, 0])"
    unfolding d2_def using len l1 pf by (intro filled_copy [OF f1]) auto
  define d3 where "d3 = d2[12 := charset]"
  have l3: "length d3 = length data" using l2 by (simp add: d3_def)
  have f3: "filled d3 ((putUint32 flags @ [0, 0, 0, 0]) @ [charset])"
    unfolding d3_def using len l2 pf by (intro filled_put [OF f2]) auto
  define d4 where "d4 = copyAt d3 13 (replicate 23 0)"
  have l4: "length d4 = length data" using len l3 by (simp add: d4_def)
  have f4: "filled d4 (((putUint32 flags @ [0, 0, 0, 0]) @ [charset]) @ replicate 23 0)"
    unfolding d4_def using len l3 pf by (intro filled_copy [OF f3]) auto
  define d5 where "d5 = (if 0 < length user then copyAt d4 36 user else d4)"
  have l5: "length d5 = length data" using len l4 by (simp add: d5_def)
  have f5: "filled d5 ((((putUint32 flags @ [0, 0, 0, 0]) @ [charset]) @ replicate 23 0) @ user)"
  proof (cases "0 < length user")
    case True
    have "filled (copyAt d4 36 user) ((((putUint32 flags @ [0, 0, 0, 0]) @ [charset]) @ replicate 23 0) @ user)"
      by (rule filled_copy [OF f4]) (use len l4 pf in auto)
    with True show ?thesis by (simp add: d5_def)
  qed (use f4 in \<open>simp add: d5_def\<close>)
  define d6 where "d6 = d5[36 + length user := 0]"
  have l6: "length d6 = length data" using l5 by (simp add: d6_def)
  have f6: "filled d6 (((((putUint32 flags @ [0, 0, 0, 0]) @ [charset]) @ replicate 23 0) @ user) @ [0])"
    unfolding d6_def using len l5 pf by (intro filled_put [OF f5]) auto
  define d7 where "d7 = d6[36 + length user + 1 := of_nat (length token)]"
  have l7: "length d7 = length data" using l6 by (simp add: d7_def)
  have f7: "filled d7 ((((((putUint32 flags @ [0, 0, 0, 0]) @ [charset]) @ replicate 23 0) @ user) @ [0]) @
      [of_nat (length token)])"
    unfolding d7_def using len l6 pf by (intro filled_put [OF f6]) auto
  define d8 where "d8 = copyAt d7 (36 + length user + 1 + 1) token"
  have l8: "length d8 = length data" using len l7 by (simp add: d8_def)
  have f8: "filled d8 (((((((putUint32 flags @ [0, 0, 0, 0]) @ [charset]) @ replicate 23 0) @ user) @ [0]) @
      [of_nat (length token)]) @ token)" (is "filled d8 ?p8")
    unfolding d8_def using len l7 pf by (intro filled_copy [OF f7]) auto
  define pos where "pos = 36 + length user + 1 + 1 + length token"
  have p8: "4 + length ?p8 = pos" using pf by (simp add: pos_def)
  define d9 where "d9 = (if 0 < length db then (copyAt d8 pos db)[pos + length db := 0] else d8)"
  have l9: "length d9 = length data" using len l8 by (simp add: d9_def pos_def)
  have f9: "filled d9 (?p8 @ (if 0 < length db then db @ [0] else []))"
  proof (cases "0 < length db")
    case True
    have c: "filled (copyAt d8 pos db) (?p8 @ db)"
      by (rule filled_copy [OF f8]) (use p8 len l8 True in \<open>auto simp: pos_def\<close>)
    have "filled ((copyAt d8 pos db)[pos + length db := 0]) ((?p8 @ db) @ [0])"
      by (rule filled_put [OF c]) (use p8 len l8 True in \<open>auto simp: pos_def\<close>)
    with True show ?thesis by (simp add: d9_def)
  qed (use f8 in \<open>simp add: d9_def\<close>)
  define pos2 where "pos2 = (if 0 < length db then pos + length db + 1 else pos)"
  define d10 where "d10 = copyAt d9 pos2 (str ''mysql_native_password'')"
  have p9: "pos2 = 4 + length (?p8 @ (if 0 < length db then db @ [0] else []))"
    using p8 by (auto simp: pos2_def)
  have l10: "length d10 = length data" using len l9 by (simp add: d10_def pos2_def pos_def)
  have f10: "filled d10 ((?p8 @ (if 0 < length db then db @ [0] else [])) @ str ''mysql_native_password'')"
    unfolding d10_def
    by (rule filled_copy [OF f9 p9]) (use len l9 in \<open>auto simp: pos2_def pos_def\<close>)
  have f11: "filled (d10[pos2 + 21 := 0])
      (((?p8 @ (if 0 < length db then db @ [0] else [])) @ str ''mysql_native_password'') @ [0])"
    by (rule filled_put [OF f10]) (use p9 len l10 in \<open>auto simp: pos2_def pos_def\<close>)
  have w: "authWrites data flags charset user token db = d10[pos2 + 21 := 0]"
    by (simp add: authWrites_def Let_def d1_def d2_def d3_def d4_def d5_def d6_def d7_def d8_def d9_def d10_def
        pos_def pos2_def del: One_nat_def)
  from f11 have "filled (d10[pos2 + 21 := 0]) (authPayload flags charset user token db)"
    by (simp add: authPayload_def)
  with l10 l show ?thesis unfolding w by (simp add: filled_all)
qed

lemma writeAuthPacket_sends:
  assumes ready: "mc_ready mc" and token: "scramblePassword sha1 cipher (cfg_Passwd (mc_cfg mc)) = Ok token"
  defines "p \<equiv> authPayload (authFlags (mc_flags mc) (cfg_DBName (mc_cfg mc))) 33 (cfg_User (mc_cfg mc)) token
      (cfg_DBName (mc_cfg mc))"
  assumes l: "4 + length p \<le> defaultBufSize" "int (length p) \<le> mc_maxPacketAllowed mc"
  shows "\<exists>mc'. writeAuthPacket sha1 mc cipher = (Ok (), mc') \<and>
    sentBytes (mc_buf mc') = sentBytes (mc_buf mc) @ framesOf (mc_sequence mc) p \<and>
    stream (mc_buf mc') = stream (mc_buf mc) \<and> mc_sequence mc' = seqAfter (mc_sequence mc) p \<and>
    mc' = mc\<lparr>mc_buf := mc_buf mc', mc_sequence := mc_sequence mc', mc_dbname := cfg_DBName (mc_cfg mc)\<rparr> \<and>
    mc_ready mc'"
proof -
  let ?user = "cfg_User (mc_cfg mc)" and ?db = "cfg_DBName (mc_cfg mc)"
  let ?fl = "authFlags (mc_flags mc) ?db"
  from ready have g: "conn_good (mc_buf mc)" "b_len (mc_buf mc) = 0" by (simp_all add: mc_ready_def)
  from takeSmallBuffer_ready [OF this l(1)] obtain data own where
    t: "takeSmallBuffer (mc_buf mc) (4 + length p) = (Ok (Some (data, own)), mc_buf mc)" and dl: "length data = 4 + length p"
    by blast
  let ?w = "authWrites data ?fl 33 ?user token ?db"
  from authWrites_payload dl have w: "length ?w = 4 + length p" "drop 4 ?w = p" by (simp_all add: p_def)
  let ?m = "mc\<lparr>mc_dbname := ?db, mc_buf := writeBack own ?w (mc_buf mc)\<rparr>"
  have pl: "length p = 4 + 4 + 1 + 23 + length ?user + 1 + 1 + length token + 21 + 1 +
      (if 0 < length ?db then length ?db + 1 else 0)" by (simp add: p_def length_authPayload)
  have "writeAuthPacket sha1 mc cipher = mc_writePacket ?m (?w, own)"
  proof (cases "?db = []")
    case True
    with t pl have "takeSmallBuffer (mc_buf mc) (60 + length ?user + length token) = (Ok (Some (data, own)), mc_buf mc)"
      by (simp add: algebra_simps)
    with True token show ?thesis unfolding writeAuthPacket_def ScramblePassword_def authWrites_def authFlags_def
      by (simp add: Let_def DefaultCollation_id algebra_simps)
  next
    case False
    with t pl have "takeSmallBuffer (mc_buf mc) (61 + length ?user + length token + length ?db) =
        (Ok (Some (data, own)), mc_buf mc)"
      by (simp add: algebra_simps)
    with False token show ?thesis unfolding writeAuthPacket_def ScramblePassword_def authWrites_def authFlags_def
      by (simp add: Let_def DefaultCollation_id algebra_simps)
  qed
  moreover have "conn_good (mc_buf ?m)" using g by (simp add: conn_good_writeBack)
  from mc_packets.write_packet [OF this w, of own] l(2) g obtain mc' where
    "mc_writePacket ?m (?w, own) = (Ok (), mc')"
    "sentBytes (mc_buf mc') = sentBytes (mc_buf mc) @ framesOf (mc_sequence mc) p"
    "stream (mc_buf mc') = stream (mc_buf mc)" "mc_sequence mc' = seqAfter (mc_sequence mc) p"
    "b_len (mc_buf mc') = 0" "conn_good (mc_buf mc')"
    by (auto simp: sentBytes_writeBack stream_writeBack)
  moreover have "mc' = mc\<lparr>mc_buf := mc_buf mc', mc_sequence := mc_sequence mc', mc_dbname := ?db\<rparr>"
  proof -
    have "mc' = mc\<lparr>mc_dbname := ?db, mc_buf := mc_buf mc', mc_sequence := mc_sequence mc'\<rparr>"
      using mc_writePacket_frame [of ?m "(?w, own)"] calculation(2) by simp
    then show ?thesis by (cases mc; cases mc') simp
  qed
  ultimately show ?thesis by (auto simp: mc_ready_def)
qed

section \<open>The last packet\<close>

lemma readInitOK_ok:
  assumes g: "conn_good (mc_buf mc)" and p: "framable p" "hd p = HeaderOK"
    and st: "stream (mc_buf mc) = framesOf (mc_sequence mc) p @ rest"
  shows "\<exists>mc'. readInitOK mc = (Ok (), mc') \<and> stream (mc_buf mc') = rest \<and> onlyRead mc mc'"
proof -
  from mc_readPacket_frames [OF g st p(1)] obtain d m1 where
    r: "mc_readPacket mc = (Ok d, m1)" "vis d = p" and s: "stream (mc_buf m1) = rest"
    "sentBytes (mc_buf m1) = sentBytes (mc_buf mc)" "mc_sequence m1 = seqAfter (mc_sequence mc) p"
    "conn_good (mc_buf m1)" "m1 = mc\<lparr>mc_buf := mc_buf m1, mc_sequence := mc_sequence m1\<rparr>" .
  have "idxAt d 0 = Ok HeaderOK" using idxAt_hd [OF r(2) framable_nonempty [OF p(1)]] p(2) by simp
  then have "readInitOK mc = (Ok (), m1)" using r(1) by (simp add: readInitOK_def)
  with s(1) onlyRead_readPacket [OF s(5,2,4)] show ?thesis by blast
qed

text \<open>A database that asks for another authentication method is turned down with the error for that method:
  the old one, the clear-text one, or an unknown one.\<close>

lemma readInitOK_switch:
  assumes g: "conn_good (mc_buf mc)" and p: "p = [0xfe] @ plugin @ [0x00] @ extra" "framable p" "0x00 \<notin> set plugin"
    and st: "stream (mc_buf mc) = framesOf (mc_sequence mc) p @ rest"
  shows "\<exists>e. fst (readInitOK mc) = Err e \<and>
    e = (if plugin = str ''mysql_old_password'' then ErrOldPassword
         else if plugin = str ''mysql_clear_password'' then ErrCleartextPassword else ErrUnknownPlugin)"
proof -
  from mc_readPacket_frames [OF g st p(2)] obtain d m1 where
    r: "mc_readPacket mc = (Ok d, m1)" "vis d = p" by metis
  have h: "idxAt d 0 = Ok HeaderEOF"
    using idxAt_hd [OF r(2) framable_nonempty [OF p(2)]] by (simp add: p(1) HeaderEOF_def)
  have "indexByte (vis d) 0 = int (length ([0xfe] @ plugin))"
    using p(3) indexByte_first [of 0 "[0xfe] @ plugin" extra] by (simp add: r(2) p(1))
  moreover from gsub_mid [of d "[0xfe]" plugin "[0x00] @ extra"] r(2) obtain pl where
    "gsub d 1 (1 + int (length plugin)) = Ok pl" "vis pl = plugin" by (auto simp: p(1))
  moreover have "1 < len d" by (simp add: len_def r(2) p(1))
  ultimately show ?thesis using r(1) h by (simp add: readInitOK_def header_defs)
qed

lemma readInitOK_switch_witness:
  "\<exists>e. fst (readInitOK (idleConn [Rd (framesOf 0 ([0xfe] @ str ''dialog'' @ [0x00] @ [])) None])) = Err e \<and>
    e = (if str ''dialog'' = str ''mysql_old_password'' then ErrOldPassword
         else if str ''dialog'' = str ''mysql_clear_password'' then ErrCleartextPassword else ErrUnknownPlugin)"
  by (rule readInitOK_switch [where extra = "[]" and rest = "[]"]) (simp_all add: framable_def MaxPacketSize_val str_def)

end
