(* ===== verification/Server_Client.thy ===== *)
theory Server_Client
  imports Server_Handshake Mysql_NewErr
begin

text \<open>
  \<^verbatim>\<open>server/client.go\<close>: a session with a client. The handshake (\<open>writeInitHandshake\<close>,
  \<open>readHandshakeRespone\<close>, \<open>writeOK\<close>, \<open>writeError\<close>), the dispatch on the command byte and the handlers.
  A handler that needs the database is given what \<open>GetDB\<close> and \<open>getConn\<close> return: no pool, no
  connection, or a connection. It returns the connection its deferred \<open>putConn\<close> gives back, after a
  panic too.
\<close>

section \<open>Sessions\<close>

text \<open>\<open>baseConnectID\<close> is the global counter, \<open>intn\<close> the random source of the salt. The channel
  \<^verbatim>\<open>die\<close> is \<open>c_die\<close>: closed or not. The field \<^verbatim>\<open>dbConn\<close> is never used.\<close>

definition newClient :: "u32 \<Rightarrow> (nat \<Rightarrow> nat) \<Rightarrow> sock \<Rightarrow> ServerConfig \<Rightarrow> Client \<times> u32" where
  "newClient baseConnectID intn conn conf =
     (let connectID = baseConnectID + 1
      in (\<lparr>c_cfg = conf, c_buf = newBuffer (Some conn), c_stmt = None, c_die = False, c_user = [],
           c_dbname = [], c_connectID = connectID, c_salt = RandomBuf intn 20, c_status = 0,
           c_capability = 0, c_collation = 0, c_sequence = 0,
           c_maxPacketAllowed = int MaxPacketSize, c_writeTimeout = defaultWriteTimeout * Second\<rparr>, connectID))"

section \<open>The handshake\<close>

definition writeInitHandshake :: "Client \<Rightarrow> unit res \<times> Client" where
  "writeInitHandshake c =
     (if length (c_salt c) < 8 then (Panic, c)
      else
        (let data = [0, 0, 0, 0];
             data = data @ [10];
             data = data @ serverVersion;
             data = data @ [0];
             data = data @ [byteAt 0 (c_connectID c), byteAt 8 (c_connectID c), byteAt 16 (c_connectID c),
               byteAt 24 (c_connectID c)];
             data = data @ take 8 (c_salt c);
             data = data @ [0];
             data = data @ [byteAt 0 DefaultCapability, byteAt 8 DefaultCapability];
             data = data @ [case collationId DefaultCollation of Some x \<Rightarrow> x | None \<Rightarrow> 0];
             data = data @ [byteAt 0 (status_flag StatusInAutocommit), byteAt 8 (status_flag StatusInAutocommit)];
             data = data @ [byteAt 16 DefaultCapability, byteAt 24 DefaultCapability];
             data = data @ [0x15];
             data = data @ [0, 0, 0, 0, 0, 0, 0, 0, 0, 0];
             data = data @ drop 8 (c_salt c);
             data = data @ [0]
         in client_writePacket c (data, False)))"

definition readHandshakeRespone :: "Client \<Rightarrow> unit res \<times> Client" where
  "readHandshakeRespone c =
     bindS (client_readPacket c) (\<lambda>data c.
     bindS (bindR (gsub data 0 4) (\<lambda>d. leUint32 (vis d)), c) (\<lambda>capability c.
     (let c = c\<lparr>c_capability := capability\<rparr>; pos = 4 + 4 + 1 + 23 in
     bindS (gfrom data pos, c) (\<lambda>rest c.
     bindS (gsub data pos (pos + indexByte (vis rest) 0), c) (\<lambda>user c.
     (let c = c\<lparr>c_user := vis user\<rparr>; pos = pos + len user + 1 in
     bindS (idxAt data pos, c) (\<lambda>authLen c.
     (let pos = pos + 1 + uint authLen in
      if 0 < c_capability c AND client_flag ClientConnectWithDB then
        bindS (gfrom data pos, c) (\<lambda>rest c.
          if len rest = 0 then (Ok (), c)
          else
            bindS (gsub data pos (pos + indexByte (vis rest) 0), c) (\<lambda>db c.
              (Ok (), c\<lparr>c_dbname := vis db\<rparr>)))
      else (Ok (), c\<lparr>c_dbname := cfg_DBName (c_cfg c)\<rparr>)))))))))"

definition writeOK :: "Client \<Rightarrow> unit res \<times> Client" where
  "writeOK c =
     (let data = [0, 0, 0, 0] @ [HeaderOK];
          data = AppendLengthEncodedInteger data 0;
          data = AppendLengthEncodedInteger data 0;
          data = (if 0 < c_capability c AND client_flag ClientProtocol41
                  then data @ [byteAt 0 (c_status c), byteAt 8 (c_status c)] @ [0, 0] else data)
      in client_writePacket c (data, False))"

text \<open>The text of an error that can come to \<open>writeError\<close>; \<open>osText\<close> gives the texts that the operating
  system makes up, and stands for those of the errors that never come there.\<close>

fun errText :: "(gerror \<Rightarrow> byte list) \<Rightarrow> gerror \<Rightarrow> byte list" where
  "errText osText (SqlErr e) = SQLError_Error e"
| "errText osText (MySqlErr e) = MySQLError_Error e"
| "errText osText ErrPktSync = str ''commands out of sync. You can't run this command now''"
| "errText osText ErrPktSyncMul = str ''commands out of sync. Did you run multiple statements at once?''"
| "errText osText ErrPktTooLarge =
     str ''packet for query is too large. Try adjusting the 'max_allowed_packet' variable on the server''"
| "errText osText ErrNotfoundDB = str ''not found db''"
| "errText osText ErrCannotGetConn = str ''can not get conn''"
| "errText osText DriverBadConn = str ''driver: bad connection''"
| "errText osText UnexpectedEOF = str ''unexpected EOF''"
| "errText osText (SockErr EOF) = str ''EOF''"
| "errText osText e = osText e"

definition writeError :: "(gerror \<Rightarrow> byte list) \<Rightarrow> Client \<Rightarrow> gerror \<Rightarrow> unit res \<times> Client" where
  "writeError osText c e =
     (let m = (case e of SqlErr m \<Rightarrow> m | _ \<Rightarrow> NewErr ErrUnknown [StrArg (errText osText e)]);
          data = [0, 0, 0, 0] @ [HeaderERR];
          data = data @ [byteAt 0 (Code m), byteAt 8 (Code m)];
          data = (if 0 < c_capability c AND client_flag ClientProtocol41 then (data @ str ''#'') @ State m else data);
          data = data @ Message m
      in client_writePacket c (data, False))"

text \<open>The errors of \<open>writeError\<close> and \<open>writeOK\<close> are dropped, their panics are not.\<close>

definition dropErr :: "unit res \<times> 's \<Rightarrow> unit res \<times> 's" where
  "dropErr rs = (case rs of (Err e, s) \<Rightarrow> (Ok (), s) | _ \<Rightarrow> rs)"

definition Handshake :: "(gerror \<Rightarrow> byte list) \<Rightarrow> Client \<Rightarrow> unit res \<times> Client" where
  "Handshake osText c =
     bindS (writeInitHandshake c) (\<lambda>_ c.
       (case readHandshakeRespone c of
          (Err e, c) \<Rightarrow> bindS (dropErr (writeError osText c e)) (\<lambda>_ c. (Err e, c))
        | (Ok _, c) \<Rightarrow> bindS (dropErr (writeOK c)) (\<lambda>_ c. (Ok (), c\<lparr>c_sequence := 0\<rparr>))
        | (Panic, c) \<Rightarrow> (Panic, c)
        | (Spin, c) \<Rightarrow> (Spin, c)))"

section \<open>Handlers\<close>

text \<open>What \<open>GetDB\<close> and \<open>getConn\<close> give: no pool (\<open>None\<close>), no connection (\<open>Some None\<close>), a connection.\<close>

type_synonym db_result = "mysqlConn option option"

text \<open>A call on the connection and a call on the client, in a handler that has both.\<close>

definition onConn :: "(mysqlConn \<Rightarrow> 'a res \<times> mysqlConn) \<Rightarrow> Client \<times> mysqlConn \<Rightarrow> 'a res \<times> Client \<times> mysqlConn" where
  "onConn f s = (case f (snd s) of (r, mc) \<Rightarrow> (r, fst s, mc))"

definition onClient :: "(Client \<Rightarrow> 'a res \<times> Client) \<Rightarrow> Client \<times> mysqlConn \<Rightarrow> 'a res \<times> Client \<times> mysqlConn" where
  "onClient f s = (case f (fst s) of (r, c) \<Rightarrow> (r, c, snd s))"

text \<open>\<open>writeResultPackets\<close> gets the packets as the connection's buffer shows them now.\<close>

definition forward :: "gslice list \<Rightarrow> Client \<times> mysqlConn \<Rightarrow> unit res \<times> Client \<times> mysqlConn" where
  "forward res s = onClient (\<lambda>c. writeResultPackets c (map (deref (mc_buf (snd s))) res)) s"

definition withDB ::
  "Client \<Rightarrow> db_result \<Rightarrow> (Client \<times> mysqlConn \<Rightarrow> unit res \<times> Client \<times> mysqlConn) \<Rightarrow>
     unit res \<times> Client \<times> mysqlConn option" where
  "withDB c db f =
     (case db of
        None \<Rightarrow> (Err ErrNotfoundDB, c, None)
      | Some None \<Rightarrow> (Err ErrCannotGetConn, c, None)
      | Some (Some conn) \<Rightarrow> (case f (c, conn) of (r, c, conn) \<Rightarrow> (r, c, Some conn)))"

definition useCmd :: "Client \<Rightarrow> gslice" where
  "useCmd c = slice (com_byte ComInitDB # c_dbname c)"

definition handleQuit :: "Client \<Rightarrow> unit res \<times> Client \<times> mysqlConn option" where
  "handleQuit c = (case client_close c of (r, c) \<Rightarrow> (r, c, None))"

definition handleQuery :: "Client \<Rightarrow> db_result \<Rightarrow> gslice \<Rightarrow> unit res \<times> Client \<times> mysqlConn option" where
  "handleQuery c db data =
     withDB c db (\<lambda>s.
       bindS (onConn (\<lambda>mc. mc_Exec mc (useCmd c)) s) (\<lambda>_ s.
       bindS (onConn (\<lambda>mc. mc_Query mc data) s) (\<lambda>res s. forward res s)))"

definition handleFieldList :: "Client \<Rightarrow> db_result \<Rightarrow> gslice \<Rightarrow> unit res \<times> Client \<times> mysqlConn option" where
  "handleFieldList c db data =
     withDB c db (\<lambda>s. bindS (onConn (\<lambda>mc. mc_Query mc data) s) (\<lambda>res s. forward res s))"

definition useDB :: "Client \<Rightarrow> db_result \<Rightarrow> byte list \<Rightarrow> unit res \<times> Client \<times> mysqlConn option" where
  "useDB c db name =
     (let data = str ''use '' @ name in
      withDB c db (\<lambda>s.
        bindS (onConn (\<lambda>mc. mc_Query mc (slice data)) s) (\<lambda>res s.
        bindS (forward res s) (\<lambda>_ s. (Ok (), (fst s)\<lparr>c_dbname := data\<rparr>, snd s)))))"

definition handleUseDB :: "Client \<Rightarrow> db_result \<Rightarrow> gslice \<Rightarrow> unit res \<times> Client \<times> mysqlConn option" where
  "handleUseDB c db data =
     (case gfrom data 4 of
        Ok name \<Rightarrow> useDB c db (vis name)
      | _ \<Rightarrow> (Panic, c, None))"

text \<open>\<open>handleStmtPrepare\<close> does not give its connection back: the statement keeps it.\<close>

definition handleStmtPrepare :: "Client \<Rightarrow> db_result \<Rightarrow> gslice \<Rightarrow> unit res \<times> Client \<times> mysqlConn option" where
  "handleStmtPrepare c db data =
     (case withDB c db (\<lambda>s.
         bindS (onConn (\<lambda>mc. mc_Exec mc (useCmd c)) s) (\<lambda>_ s.
         bindS (gfrom data 1, s) (\<lambda>query s.
         bindS (onConn (\<lambda>mc. mc_Prepare mc (vis query)) s) (\<lambda>(res, stmt) s.
           forward res ((fst s)\<lparr>c_stmt := Some stmt\<rparr>, snd s))))) of
        (r, c, _) \<Rightarrow> (r, c, None))"

definition handlestmtExec :: "Client \<Rightarrow> gslice \<Rightarrow> unit res \<times> Client \<times> mysqlConn option" where
  "handlestmtExec c data =
     (case c_stmt c of
        None \<Rightarrow> (Err ErrCannotGetConn, c, None)
      | Some stmt \<Rightarrow>
          (case st_mc stmt of
             None \<Rightarrow> (Err ErrCannotGetConn, c, None)
           | Some _ \<Rightarrow>
               (case stmt_Query stmt data of
                  (r, stmt) \<Rightarrow>
                    (let c = c\<lparr>c_stmt := Some stmt\<rparr>;
                         view = (case st_mc stmt of Some mc \<Rightarrow> deref (mc_buf mc) | None \<Rightarrow> vis)
                     in case r of
                          Ok res \<Rightarrow> (case writeResultPackets c (map view res) of (r, c) \<Rightarrow> (r, c, None))
                        | Err e \<Rightarrow> (case writeResultPackets c [] of (r, c) \<Rightarrow> (r, c, None))
                        | Panic \<Rightarrow> (Panic, c, None)
                        | Spin \<Rightarrow> (Spin, c, None)))))"

definition handleStmtClose :: "Client \<Rightarrow> gslice \<Rightarrow> unit res \<times> Client \<times> mysqlConn option" where
  "handleStmtClose c data =
     (case bindR (gfrom data 1) (\<lambda>d. leUint32 (vis d)) of
        Ok stmtID \<Rightarrow>
          (case c_stmt c of
             None \<Rightarrow> (Panic, c, None)
           | Some stmt \<Rightarrow>
               if stmtID \<noteq> st_id stmt
               then (Err (SqlErr (NewErr ErrUnknownStmtHandler [IntArg ''uint32'' (uint stmtID)])), c, None)
               else
                 (case stmt_Close stmt of
                    (Panic, stmt, _) \<Rightarrow> (Panic, c\<lparr>c_stmt := Some stmt\<rparr>, None)
                  | (Spin, stmt, _) \<Rightarrow> (Spin, c\<lparr>c_stmt := Some stmt\<rparr>, None)
                  | (r, _, _) \<Rightarrow> (r, c\<lparr>c_stmt := None\<rparr>, None)))
      | _ \<Rightarrow> (Panic, c, None))"

section \<open>Dispatch\<close>

definition dispatch :: "Client \<Rightarrow> db_result \<Rightarrow> gslice \<Rightarrow> unit res \<times> Client \<times> mysqlConn option" where
  "dispatch c db data =
     (case idxAt data 0 of
        Ok cmd \<Rightarrow>
          if cmd = com_byte ComQuit then handleQuit c
          else if cmd = com_byte ComQuery then handleQuery c db data
          else if cmd = com_byte ComInitDB then handleUseDB c db data
          else if cmd = com_byte ComFieldList then handleFieldList c db data
          else if cmd = com_byte ComStmtPrepare then handleStmtPrepare c db data
          else if cmd = com_byte ComStmtExecute then handlestmtExec c data
          else if cmd = com_byte ComStmtClose then handleStmtClose c data
          else (Err (UnsupportedCmd cmd (vis data)), c, None)
      | _ \<Rightarrow> (Panic, c, None))"

definition client_Accept :: "Client \<Rightarrow> db_result \<Rightarrow> unit res \<times> Client \<times> mysqlConn option" where
  "client_Accept c db =
     (case client_readPacket c of
        (Ok data, c) \<Rightarrow>
          (case dispatch c db data of
             (Ok _, c, back) \<Rightarrow> (Ok (), c\<lparr>c_sequence := 0\<rparr>, back)
           | r \<Rightarrow> r)
      | (Err e, c) \<Rightarrow> (Err e, c, None)
      | (Panic, c) \<Rightarrow> (Panic, c, None)
      | (Spin, c) \<Rightarrow> (Spin, c, None))"

section \<open>The handshake from both sides\<close>

lemma DefaultCapability_val: "DefaultCapability = 0xa20f"
  by (simp add: DefaultCapability_def client_flag_def)

lemma serverVersion_bytes: "0x00 \<notin> set serverVersion" "length serverVersion = 19"
  by (simp_all add: serverVersion_def str_def)

definition greetingMid :: "byte list" where
  "greetingMid = [33] @ putUint16 (status_flag StatusInAutocommit) @
     [byteAt 16 DefaultCapability, byteAt 24 DefaultCapability] @ [0x15] @ [0, 0, 0, 0, 0, 0, 0, 0, 0, 0]"

text \<open>The packet \<open>writeInitHandshake\<close> sends, as \<open>readInitPacket\<close> sees it.\<close>

definition greeting :: "u32 \<Rightarrow> byte list \<Rightarrow> byte list" where
  "greeting connectID salt =
     initPacket 10 serverVersion (putUint32 connectID) (take 8 salt) 0 0xa20f greetingMid (drop 8 salt) [0]"

lemma length_greetingMid: "length greetingMid = 16"
  by (simp add: greetingMid_def putUint16_def)

lemma greeting_flag: "hasFlag (ucast (0xa20f :: u16)) ClientProtocol41"
  by (simp add: hasFlag_bit)

lemma greeting_good:
  "length salt = 20 \<Longrightarrow>
    goodInit 10 serverVersion (putUint32 connectID) (take 8 salt) 0xa20f greetingMid (drop 8 salt)"
  unfolding goodInit_def
  by (intro conjI greeting_flag serverVersion_bytes length_greetingMid)
    (simp_all add: MinProtocolVersion_def HeaderERR_def putUint32_def)

lemma length_greeting: "length salt = 20 \<Longrightarrow> length (greeting connectID salt) = 65"
  by (simp add: greeting_def initPacket_def serverVersion_bytes putUint32_def putUint16_def greetingMid_def)

lemma greeting_framable: "length salt = 20 \<Longrightarrow> framable (greeting connectID salt)"
  using length_greeting [of salt connectID] by (intro framable_short) (auto simp: MaxPacketSize_def)

lemma writeInitHandshake_sends:
  assumes "length (c_salt c) = 20" and "conn_good (c_buf c)" and "65 \<le> c_maxPacketAllowed c"
  shows "\<exists>c'. writeInitHandshake c = (Ok (), c') \<and>
    sentBytes (c_buf c') = sentBytes (c_buf c) @ framesOf (c_sequence c) (greeting (c_connectID c) (c_salt c)) \<and>
    stream (c_buf c') = stream (c_buf c) \<and> c_sequence c' = c_sequence c + 1 \<and> conn_good (c_buf c') \<and>
    c' = c\<lparr>c_buf := c_buf c', c_sequence := c_sequence c'\<rparr>"
proof -
  let ?g = "greeting (c_connectID c) (c_salt c)"
  have w: "writeInitHandshake c = client_writePacket c ([0, 0, 0, 0] @ ?g, False)"
    using assms(1)
    by (simp add: writeInitHandshake_def greeting_def initPacket_def greetingMid_def putUint32_def putUint16_def
        DefaultCollation_id DefaultCapability_val Let_def byteAt_def)
  have "int (length ?g) \<le> c_maxPacketAllowed c" using assms by (simp add: length_greeting)
  from client_packets.write_packet [OF assms(2) _ _ this, of "[0, 0, 0, 0] @ ?g" False] w
  obtain c' where c': "writeInitHandshake c = (Ok (), c')"
    "sentBytes (c_buf c') = sentBytes (c_buf c) @ framesOf (c_sequence c) ?g"
    "stream (c_buf c') = stream (c_buf c)" "c_sequence c' = seqAfter (c_sequence c) ?g" "conn_good (c_buf c')"
    by auto
  moreover have "seqAfter (c_sequence c) ?g = c_sequence c + 1"
    using assms(1) by (intro seqAfter_small) (simp add: length_greeting MaxPacketSize_def)
  moreover have "c' = c\<lparr>c_buf := c_buf c', c_sequence := c_sequence c'\<rparr>"
    using client_writePacket_frame [of c "([0, 0, 0, 0] @ ?g, False)"] c'(1) w by simp
  ultimately show ?thesis by auto
qed

lemma readInitPacket_greeting:
  assumes "length salt = 20" and "conn_good (mc_buf mc)"
    and "stream (mc_buf mc) = framesOf (mc_sequence mc) (greeting connectID salt) @ rest"
  shows "\<exists>mc'. readInitPacket mc = (Ok salt, mc') \<and> stream (mc_buf mc') = rest \<and> mc_flags mc' = 0xa20f"
proof -
  have "\<exists>mc'. readInitPacket mc = (Ok (take 8 salt @ drop 8 salt), mc') \<and> mc_flags mc' = ucast (0xa20f :: u16) \<and>
      stream (mc_buf mc') = rest \<and> sentBytes (mc_buf mc') = sentBytes (mc_buf mc) \<and>
      mc_sequence mc' = seqAfter (mc_sequence mc) (greeting connectID salt) \<and> conn_good (mc_buf mc') \<and>
      mc' = mc\<lparr>mc_buf := mc_buf mc', mc_sequence := mc_sequence mc', mc_flags := ucast (0xa20f :: u16)\<rparr>"
    by (rule readInitPacket_salt [OF assms(2) greeting_good [OF assms(1)] greeting_def greeting_framable [OF assms(1)]
          assms(3)])
  then show ?thesis by auto
qed

text \<open>Reading the answer of \<open>writeAuthPacket\<close>.\<close>

lemma hasFlag_authFlags:
  "hasFlag (authFlags fl db) ClientConnectWithDB \<longleftrightarrow> db \<noteq> []"
  "hasFlag (authFlags fl db) ClientProtocol41" "hasFlag (authFlags fl db) ClientSecureConn"
  by (auto simp: authFlags_def Let_def hasFlag_or hasFlag_and)

lemma client_readPacket_frames:
  assumes "conn_good (c_buf c)" and "stream (c_buf c) = framesOf (c_sequence c) p @ rest" and "framable p"
  obtains d c' where "client_readPacket c = (Ok d, c')" and "vis d = p" and "stream (c_buf c') = rest"
    and "sentBytes (c_buf c') = sentBytes (c_buf c)" and "c_sequence c' = seqAfter (c_sequence c) p"
    and "conn_good (c_buf c')" and "c' = c\<lparr>c_buf := c_buf c', c_sequence := c_sequence c'\<rparr>"
proof -
  from client_packets.read_packet [OF assms(1,2)] assms(3) obtain d c' where
    r: "client_readPacket c = (Ok d, c')" "vis d = p" "stream (c_buf c') = rest"
    "sentBytes (c_buf c') = sentBytes (c_buf c)" "c_sequence c' = seqAfter (c_sequence c) p"
    "conn_good (c_buf c')" by (auto simp: framable_def)
  moreover have "c' = c\<lparr>c_buf := c_buf c', c_sequence := c_sequence c'\<rparr>"
    using r(1,2) framable_nonempty [OF assms(3)]
    by (auto simp: client_readPacket_def client_close_def Let_def
        split: prod.splits sum.splits rd_fail.splits if_splits)
  ultimately show thesis by (rule that)
qed

lemma readHandshakeRespone_auth:
  fixes charset :: byte and fl :: u32
  assumes g: "conn_good (c_buf c)" and user: "0x00 \<notin> set user" and db: "0x00 \<notin> set db" and t: "length token < 256"
  defines "p \<equiv> authPayload (authFlags fl db) charset user token db"
  assumes p: "framable p" and st: "stream (c_buf c) = framesOf (c_sequence c) p @ rest"
  shows "\<exists>c'. readHandshakeRespone c = (Ok (), c') \<and> c_user c' = user \<and>
    c_dbname c' = (if db = [] then cfg_DBName (c_cfg c) else db) \<and> c_capability c' = authFlags fl db \<and>
    stream (c_buf c') = rest \<and> sentBytes (c_buf c') = sentBytes (c_buf c) \<and>
    c_sequence c' = seqAfter (c_sequence c) p \<and> conn_good (c_buf c')"
proof -
  let ?fl = "authFlags fl db"
  from client_readPacket_frames [OF g st p] obtain d c1 where
    r: "client_readPacket c = (Ok d, c1)" "vis d = p" and s: "stream (c_buf c1) = rest"
    "sentBytes (c_buf c1) = sentBytes (c_buf c)" "c_sequence c1 = seqAfter (c_sequence c) p"
    "conn_good (c_buf c1)" "c1 = c\<lparr>c_buf := c_buf c1, c_sequence := c_sequence c1\<rparr>" .
  let ?h = "putUint32 ?fl @ [0, 0, 0, 0] @ [charset] @ replicate 23 0"
  let ?t = "(if 0 < length db then db @ [0] else []) @ str ''mysql_native_password'' @ [0]"
  have hl: "length ?h = 32" and fl4: "length (putUint32 ?fl) = 4" by (simp_all add: putUint32_def)
  have d: "vis d = ?h @ user @ [0] @ [of_nat (length token)] @ token @ ?t"
    using r(2) by (simp add: p_def authPayload_def)
  from gsub_mid [of d "[]" "putUint32 ?fl"] d fl4 obtain d1 where d1: "gsub d 0 4 = Ok d1" "vis d1 = putUint32 ?fl"
    by auto
  from gfrom_mid [OF d] hl obtain d2 where d2: "gfrom d 32 = Ok d2"
    "vis d2 = user @ 0 # [of_nat (length token)] @ token @ ?t" by auto
  have i2: "indexByte (vis d2) 0 = int (length user)" unfolding d2(2) by (rule indexByte_first [OF user])
  from gsub_mid [of d ?h user] d hl obtain d3 where
    d3: "gsub d 32 (32 + int (length user)) = Ok d3" "vis d3 = user" by auto
  have a: "idxAt d (33 + int (length user)) = Ok (of_nat (length token))"
    using idxAt_in [of "33 + length user" d] d hl by (simp add: nth_append)
  have u: "uint (of_nat (length token) :: byte) = int (length token)"
    using t by (simp add: uint_nat unat_of_nat take_bit_eq_mod)
  have flag: "0 < c_capability (c1\<lparr>c_capability := ?fl\<rparr>) AND client_flag ClientConnectWithDB \<longleftrightarrow> db \<noteq> []"
    using hasFlag_authFlags(1) [of fl db] by (simp add: hasFlag_def word_gt_0)
  have ld: "len d3 = int (length user)" by (simp add: len_def d3)
  have cfg: "c_cfg c1 = c_cfg c" by (subst s(5)) simp
  show ?thesis
  proof (cases "db = []")
    case True
    then have "readHandshakeRespone c = (Ok (), c1\<lparr>c_capability := ?fl, c_user := user,
        c_dbname := cfg_DBName (c_cfg c)\<rparr>)"
      using r(1) d1 d2(1) i2 d3 a ld flag cfg leUint32_put [of ?fl "[]"]
      by (simp add: readHandshakeRespone_def Let_def algebra_simps)
    with True s show ?thesis by simp
  next
    case False
    let ?pre = "?h @ user @ [0] @ [of_nat (length token)] @ token"
    have pl: "int (length ?pre) = 34 + int (length user) + int (length token)" using hl by simp
    from gfrom_mid [of d ?pre ?t] d obtain d4 where d4: "gfrom d (int (length ?pre)) = Ok d4" "vis d4 = ?t" by auto
    have d4': "vis d4 = db @ 0 # str ''mysql_native_password'' @ [0]" using False d4(2) by simp
    have i4: "indexByte (vis d4) 0 = int (length db)" unfolding d4' by (rule indexByte_first [OF db])
    have l4: "len d4 \<noteq> 0" by (simp add: len_def d4')
    from gsub_mid [of d ?pre db "[0] @ str ''mysql_native_password'' @ [0]"] d False obtain d5 where
      d5: "gsub d (int (length ?pre)) (int (length ?pre) + int (length db)) = Ok d5" "vis d5 = db" by auto
    have "readHandshakeRespone c = (Ok (), c1\<lparr>c_capability := ?fl, c_user := user, c_dbname := db\<rparr>)"
      using r(1) d1 d2(1) i2 d3 a ld flag u d4(1) i4 l4 d5 False leUint32_put [of ?fl "[]"]
      unfolding pl by (simp add: readHandshakeRespone_def Let_def algebra_simps)
    with False s show ?thesis by simp
  qed
qed

section \<open>Queries\<close>

lemma idle_brings [simp]:
  "brings (newBuffer (Some (idleSock es))) bs es' \<longleftrightarrow> 4 \<le> length bs \<and> length bs \<le> defaultBufSize \<and>
    (es = Rd bs None # es')"
  by (auto simp: brings_def newBuffer_def)


definition client_ready :: "Client \<Rightarrow> bool" where
  "client_ready c \<longleftrightarrow> conn_good (c_buf c) \<and> b_len (c_buf c) = 0"

definition okPacket :: "u64 \<Rightarrow> u64 \<Rightarrow> u16 \<Rightarrow> byte list \<Rightarrow> byte list" where
  "okPacket rows ins st extra =
     [0x00] @ appendLengthEncodedInteger [] rows @ appendLengthEncodedInteger [] ins @ putUint16 st @ extra"

definition errPacket :: "u16 \<Rightarrow> byte list \<Rightarrow> byte list \<Rightarrow> byte list" where
  "errPacket n state msg = [0xff] @ putUint16 n @ [0x23] @ state @ msg"

lemma forward_sends:
  assumes "client_ready c" and "\<forall>p \<in> set ps. int (length p) \<le> c_maxPacketAllowed c"
    and "map (deref (mc_buf mc)) ds = ps"
  shows "\<exists>c'. forward ds (c, mc) = (Ok (), c', mc) \<and>
    sentBytes (c_buf c') = sentBytes (c_buf c) @ framesOfAll (c_sequence c) ps \<and> client_ready c' \<and>
    stream (c_buf c') = stream (c_buf c) \<and> c' = c\<lparr>c_buf := c_buf c', c_sequence := 0\<rparr>"
  using resultLoop_sends [of c ps] assms
  by (auto simp: client_ready_def forward_def onClient_def writeResultPackets_def)

text \<open>The first exchange of a query: the command that selects the client's database.\<close>

definition useAnswered :: "Client \<Rightarrow> mysqlConn \<Rightarrow> byte list \<Rightarrow> rd_event list \<Rightarrow> bool" where
  "useAnswered c mc bs es \<longleftrightarrow> mc_ready mc \<and> \<not> mc_strict mc \<and> int (length (c_dbname c)) + 1 \<le> mc_maxPacketAllowed mc \<and>
     length bs \<le> defaultBufSize \<and>
     (\<exists>rows ins st extra. length (okPacket rows ins st extra) < MaxPacketSize \<and>
       brings (mc_buf mc) (framesOf (seqAfter 0 (com_byte ComInitDB # c_dbname c)) (okPacket rows ins st extra))
         (Rd bs None # es))"

lemma idle_useAnswered:
  assumes "length bs \<le> defaultBufSize" and "clean es"
  shows "useAnswered (idleClient ces) (idleConn (Rd (framesOf 1 (okPacket 0 0 2 [])) None # Rd bs None # es)) bs es"
  unfolding useAnswered_def
  using assms by (intro conjI exI [of _ 0] exI [of _ 2] exI [of _ "[]"])
    (simp_all add: okPacket_def lenEncSize_def putUint16_def MaxPacketSize_val defaultBufSize_def seqAfter_def)

lemma useAnswered_Exec:
  assumes u: "useAnswered c mc bs es" and l: "4 \<le> length bs"
  obtains d mc1 where "mc_Exec mc (useCmd c) = (Ok d, mc1)" and "mc_ready mc1" and "brings (mc_buf mc1) bs es"
    and "sentBytes (mc_buf mc1) = sentBytes (mc_buf mc) @ framesOf 0 (com_byte ComInitDB # c_dbname c)"
    and "mc_maxPacketAllowed mc1 = mc_maxPacketAllowed mc"
proof -
  from u obtain rows ins st extra where lp: "length (okPacket rows ins st extra) < MaxPacketSize"
    and br: "brings (mc_buf mc) (framesOf (seqAfter 0 (com_byte ComInitDB # c_dbname c)) (okPacket rows ins st extra))
         (Rd bs None # es)" by (auto simp: useAnswered_def)
  from u have m: "mc_ready mc" "\<not> mc_strict mc" "int (length (c_dbname c)) + 1 \<le> mc_maxPacketAllowed mc"
    "length bs \<le> length (b_buf (mc_buf mc))"
    by (auto simp: useAnswered_def mc_ready_def conn_good_def readable_def wf_buffer_def)
  have "vis (useCmd c) = com_byte ComInitDB # c_dbname c" by (simp add: useCmd_def)
  from mc_Exec_ok_whole [OF m(1) this m(3) okPacket_def lp m(2) br] l m(4) that show thesis by blast
qed

lemma handleQuery_forwards:
  assumes c: "client_ready c" "\<forall>p \<in> set (resultSet cols eof1 rows eof2). int (length p) \<le> c_maxPacketAllowed c"
    and rs: "goodResultSet cols eof1 rows eof2"
    and arg: "vis data = q # arg" "int (length arg) + 1 \<le> mc_maxPacketAllowed mc"
    and u: "useAnswered c mc (framesOfAll (seqAfter 0 (q # arg)) (resultSet cols eof1 rows eof2)) es"
  shows "\<exists>c' mc'. handleQuery c (Some (Some mc)) data = (Ok (), c', Some mc') \<and>
    sentBytes (c_buf c') = sentBytes (c_buf c) @ framesOfAll (c_sequence c) (resultSet cols eof1 rows eof2) \<and>
    sentBytes (mc_buf mc') =
      sentBytes (mc_buf mc) @ framesOf 0 (com_byte ComInitDB # c_dbname c) @ framesOf 0 (q # arg) \<and>
    client_ready c' \<and> c' = c\<lparr>c_buf := c_buf c', c_sequence := 0\<rparr> \<and> (\<exists>ps. writeResultPackets c ps = (Ok (), c'))"
proof -
  let ?ps = "resultSet cols eof1 rows eof2"
  have "4 \<le> length (framesOfAll (seqAfter 0 (q # arg)) ?ps)"
    using framesOf_length [of "seqAfter 0 (q # arg)" "hd ?ps"] by (simp add: resultSet_def)
  from useAnswered_Exec [OF u this] obtain d mc1 where
    x: "mc_Exec mc (useCmd c) = (Ok d, mc1)" "mc_ready mc1"
    and br: "brings (mc_buf mc1) (framesOfAll (seqAfter 0 (q # arg)) ?ps) es"
    and m1: "sentBytes (mc_buf mc1) = sentBytes (mc_buf mc) @ framesOf 0 (com_byte ComInitDB # c_dbname c)"
      "mc_maxPacketAllowed mc1 = mc_maxPacketAllowed mc" .
  have arg1: "int (length arg) + 1 \<le> mc_maxPacketAllowed mc1" using arg(2) m1(2) by simp
  from mc_Query_intact [OF x(2) arg(1) arg1 rs br] obtain ds mc2 where
    qy: "mc_Query mc1 data = (Ok ds, mc2)" and dv: "map (deref (mc_buf mc2)) ds = ?ps" by blast
  have "stream (mc_buf mc1) = framesOfAll (seqAfter 0 (q # arg)) ?ps @ rxData es"
    using br by (auto simp: brings_def stream_def unread_def)
  then have s2: "sentBytes (mc_buf mc2) = sentBytes (mc_buf mc1) @ framesOf 0 (q # arg)"
    using qy by (elim mc_Query_steps [OF x(2) arg(1) arg1 rs]) simp
  from forward_sends [OF c dv] obtain c' where
    f: "forward ds (c, mc2) = (Ok (), c', mc2)"
    and c': "sentBytes (c_buf c') = sentBytes (c_buf c) @ framesOfAll (c_sequence c) ?ps" "client_ready c'"
      "c' = c\<lparr>c_buf := c_buf c', c_sequence := 0\<rparr>" by blast
  have "handleQuery c (Some (Some mc)) data = (Ok (), c', Some mc2)"
    using x(1) qy f by (simp add: handleQuery_def withDB_def onConn_def)
  moreover have "\<exists>ps. writeResultPackets c ps = (Ok (), c')"
    using f by (auto simp: forward_def onClient_def split: prod.splits)
  ultimately show ?thesis using c' m1(1) s2 by (intro exI [of _ c'] exI [of _ mc2]) simp
qed

text \<open>C2: the answer that reaches the client is damaged when it comes in two pieces: the first \<^verbatim>\<open>Read\<close> brings the
  header packet, the second, which is put at the front of the same array, the rest; in place of the header
  packet the client is sent the first bytes of the next one.\<close>

theorem handleQuery_overwritten:
  assumes c: "client_ready c" and rs: "goodResultSet cols eof1 rows eof2"
    and arg: "vis data = q # arg" "int (length arg) + 1 \<le> mc_maxPacketAllowed mc"
  defines "hdr \<equiv> appendLengthEncodedInteger [] (of_nat (length cols))"
  defines "rest \<equiv> cols @ [eof1] @ rows @ [eof2]"
  defines "tail \<equiv> framesOfAll (seqAfter (seqAfter 0 (q # arg)) hdr) rest"
  assumes u: "useAnswered c mc (framesOf (seqAfter 0 (q # arg)) hdr) (Rd tail None # es)"
    and fit: "length hdr + 4 \<le> length tail" "length tail \<le> defaultBufSize"
    and small: "\<forall>p \<in> set (take (length hdr) (drop 4 tail) # rest). int (length p) \<le> c_maxPacketAllowed c"
  shows "\<exists>c' mc'. handleQuery c (Some (Some mc)) data = (Ok (), c', Some mc') \<and>
    sentBytes (c_buf c') =
      sentBytes (c_buf c) @ framesOfAll (c_sequence c) (take (length hdr) (drop 4 tail) # rest)"
proof -
  from useAnswered_Exec [OF u framesOf_length] obtain d mc1 where
    x: "mc_Exec mc (useCmd c) = (Ok d, mc1)" "mc_ready mc1"
    and br: "brings (mc_buf mc1) (framesOf (seqAfter 0 (q # arg)) hdr) (Rd tail None # es)"
    and m1: "mc_maxPacketAllowed mc1 = mc_maxPacketAllowed mc" .
  have arg1: "int (length arg) + 1 \<le> mc_maxPacketAllowed mc1" using arg(2) m1 by simp
  from mc_Query_overwritten [OF x(2) arg(1) arg1 rs br [unfolded hdr_def tail_def rest_def]] fit
  obtain ds mc2 where qy: "mc_Query mc1 data = (Ok ds, mc2)"
    and dv: "map (deref (mc_buf mc2)) ds = take (length hdr) (drop 4 tail) # rest"
    by (auto simp: hdr_def tail_def rest_def)
  from forward_sends [OF c small dv] obtain c' where
    "forward ds (c, mc2) = (Ok (), c', mc2)"
    "sentBytes (c_buf c') = sentBytes (c_buf c) @
      framesOfAll (c_sequence c) (take (length hdr) (drop 4 tail) # rest)" by blast
  with x qy show ?thesis by (simp add: handleQuery_def withDB_def onConn_def)
qed

lemma hdr_one: "appendLengthEncodedInteger [] (of_nat (length [x])) = [1]"
  by (simp add: appendLengthEncodedInteger_def byteAt_def)

theorem handleQuery_overwritten_witness:
  "\<exists>c' mc'. handleQuery (idleClient []) (Some (Some (idleConn (Rd (framesOf 1 (okPacket 0 0 2 [])) None #
      Rd (framesOf 1 [1]) None # [Rd (framesOfAll 2 ([[9, 2]] @ [[0xfe]] @ [[7]] @ [[0xfe]])) None])))) (slice [3, 0x61]) =
      (Ok (), c', Some mc') \<and>
    sentBytes (c_buf c') = [] @ framesOfAll 0 ([9] # [[9, 2]] @ [[0xfe]] @ [[7]] @ [[0xfe]])"
proof -
  define tail :: "byte list" where "tail = framesOfAll 2 ([[9, 2]] @ [[0xfe]] @ [[7]] @ [[0xfe]])"
  let ?mc = "idleConn (Rd (framesOf 1 (okPacket 0 0 2 [])) None # Rd (framesOf 1 [1]) None # [Rd tail None])"
  have l: "length tail = 21" by (simp add: MaxPacketSize_val tail_def)
  have d: "take 1 (drop 4 tail) = [9]" by (simp add: framesOf.simps [of _ "[9, 2]"] MaxPacketSize_val tail_def)
  have u: "useAnswered (idleClient []) ?mc (framesOf 1 [1]) [Rd tail None]"
    by (rule idle_useAnswered) (simp_all add: MaxPacketSize_val defaultBufSize_def)
  have g: "goodResultSet [[9, 2]] [0xfe] [[7]] [0xfe]"
    by (simp add: goodResultSet_def framable_def isEOF_def header_defs MaxPacketSize_val)
  have r: "client_ready (idleClient [])" by (simp add: client_ready_def)
  have s: "seqAfter 0 (3 # [0x61]) = 1" "seqAfter 1 [1] = 2" by (simp_all add: seqAfter_def MaxPacketSize_val)
  have h: "length [1 :: byte] = 1" by simp
  note t = handleQuery_overwritten [OF r g, where q = 3 and arg = "[0x61]" and data = "slice [3, 0x61]" and es = "[]"
      and mc = ?mc, unfolded hdr_one s h, folded tail_def, unfolded d]
  have "\<exists>c' mc'. handleQuery (idleClient []) (Some (Some ?mc)) (slice [3, 0x61]) = (Ok (), c', Some mc') \<and>
    sentBytes (c_buf c') = sentBytes (c_buf (idleClient [])) @
      framesOfAll (c_sequence (idleClient [])) ([9] # [[9, 2]] @ [[0xfe]] @ [[7]] @ [[0xfe]])"
    by (rule t [OF _ _ u]) (simp_all add: l defaultBufSize_def)
  then show ?thesis by (simp only: idleClient_simps idle_sent tail_def)
qed

text \<open>C20: an error of the database ends the session: the handler returns the error of Go, and the client, which
  waits for an answer, is sent nothing.\<close>

theorem handleQuery_db_error:
  assumes u: "useAnswered c mc bs es" and arg: "vis data = q # arg" "int (length arg) + 1 \<le> mc_maxPacketAllowed mc"
    and bs: "bs = framesOf (seqAfter 0 (q # arg)) (errPacket n state msg)" "length state = 5"
      "framable (errPacket n state msg)"
  shows "\<exists>mc'. handleQuery c (Some (Some mc)) data =
    (Err (MySqlErr \<lparr>Number = n, MyMessage = msg\<rparr>), c, Some mc')"
proof -
  from useAnswered_Exec [OF u] bs(1) framesOf_length obtain d mc1 where
    x: "mc_Exec mc (useCmd c) = (Ok d, mc1)" "mc_ready mc1" "brings (mc_buf mc1) bs es"
    "mc_maxPacketAllowed mc1 = mc_maxPacketAllowed mc" by metis
  have arg1: "int (length arg) + 1 \<le> mc_maxPacketAllowed mc1" using arg(2) x(4) by simp
  have "stream (mc_buf mc1) = framesOf (seqAfter 0 (q # arg)) (errPacket n state msg) @ rxData es"
    using x(3) bs(1) by (auto simp: brings_def stream_def unread_def)
  from mc_Query_error [OF x(2) arg(1) arg1 errPacket_def bs(2,3) this] obtain mc2 where
    "mc_Query mc1 data = (Err (MySqlErr \<lparr>Number = n, MyMessage = msg\<rparr>), mc2)" by blast
  with x(1) show ?thesis by (simp add: handleQuery_def withDB_def onConn_def)
qed

theorem handleQuery_db_error_witness:
  "\<exists>mc'. handleQuery (idleClient []) (Some (Some (idleConn (Rd (framesOf 1 (okPacket 0 0 2 [])) None #
      [Rd (framesOf 1 (errPacket 1064 (replicate 5 0x30) [0x78])) None])))) (slice [3, 0x61]) =
    (Err (MySqlErr \<lparr>Number = 1064, MyMessage = [0x78]\<rparr>), idleClient [], Some mc')"
  by (rule handleQuery_db_error [OF idle_useAnswered, where q = 3 and arg = "[0x61]" and state = "replicate 5 0x30"])
    (simp_all add: errPacket_def framable_def defaultBufSize_def MaxPacketSize_val putUint16_def seqAfter_def)

section \<open>Properties\<close>

text \<open>C12: the greeting that the proxy sends to a client is one that the proxy, as a client of a database,
  reads: it takes out the whole salt of 20 bytes and the capabilities.\<close>

theorem greeting_roundtrip:
  assumes "length (c_salt c) = 20" and "conn_good (c_buf c)" and "65 \<le> c_maxPacketAllowed c"
    and "conn_good (mc_buf mc)" and "mc_sequence mc = c_sequence c"
    and "stream (mc_buf mc) = framesOf (c_sequence c) (greeting (c_connectID c) (c_salt c)) @ rest"
  shows "\<exists>c' mc'. writeInitHandshake c = (Ok (), c') \<and>
    sentBytes (c_buf c') = sentBytes (c_buf c) @ framesOf (c_sequence c) (greeting (c_connectID c) (c_salt c)) \<and>
    readInitPacket mc = (Ok (c_salt c), mc') \<and> stream (mc_buf mc') = rest \<and> mc_flags mc' = DefaultCapability"
  using writeInitHandshake_sends [OF assms(1-3)] readInitPacket_greeting [OF assms(1,4)] assms(5,6)
  by (auto simp: DefaultCapability_val)

theorem greeting_roundtrip_witness:
  "\<exists>c' mc'. writeInitHandshake (idleClient []) = (Ok (), c') \<and>
    sentBytes (c_buf c') = sentBytes (c_buf (idleClient [])) @
      framesOf (c_sequence (idleClient [])) (greeting (c_connectID (idleClient [])) (c_salt (idleClient []))) \<and>
    readInitPacket (idleConn [Rd (framesOf 0 (greeting (c_connectID (idleClient [])) (replicate 20 0x41))) None]) =
      (Ok (c_salt (idleClient [])), mc') \<and>
    stream (mc_buf mc') = [] \<and> mc_flags mc' = DefaultCapability"
  by (rule greeting_roundtrip) simp_all

text \<open>C11: the authentication packet that the proxy writes to a database is one that the proxy's own server
  side reads: user, database and capabilities come out as they went in.\<close>

theorem auth_roundtrip:
  fixes mc
  assumes "mc_ready mc" and "scramblePassword sha1 salt (cfg_Passwd (mc_cfg mc)) = Ok token" and "length token < 256"
    and "0x00 \<notin> set (cfg_User (mc_cfg mc))" and "0x00 \<notin> set (cfg_DBName (mc_cfg mc))"
    and p: "p = authPayload (authFlags (mc_flags mc) (cfg_DBName (mc_cfg mc))) 33 (cfg_User (mc_cfg mc)) token
        (cfg_DBName (mc_cfg mc))"
      "4 + length p \<le> defaultBufSize" "int (length p) \<le> mc_maxPacketAllowed mc"
    and c: "conn_good (c_buf c)" "c_sequence c = mc_sequence mc" "stream (c_buf c) = framesOf (c_sequence c) p @ rest"
  shows "\<exists>mc' c'. writeAuthPacket sha1 mc salt = (Ok (), mc') \<and>
    sentBytes (mc_buf mc') = sentBytes (mc_buf mc) @ framesOf (mc_sequence mc) p \<and>
    readHandshakeRespone c = (Ok (), c') \<and> c_user c' = cfg_User (mc_cfg mc) \<and>
    c_dbname c' = (if cfg_DBName (mc_cfg mc) = [] then cfg_DBName (c_cfg c) else cfg_DBName (mc_cfg mc)) \<and>
    hasFlag (c_capability c') ClientProtocol41 \<and> stream (c_buf c') = rest \<and> c_sequence c' = mc_sequence mc'"
proof -
  have "framable p" using p(2) by (intro framable_short) (auto simp: p(1) authPayload_def defaultBufSize_def MaxPacketSize_val)
  from readHandshakeRespone_auth [OF c(1) assms(4,5,3) this [unfolded p(1)] c(3) [unfolded p(1)]]
    writeAuthPacket_sends [OF assms(1,2) p(2,3) [unfolded p(1)]]
  show ?thesis using c(2) hasFlag_authFlags(2) by (auto simp: p(1))
qed

definition loginConn :: mysqlConn where
  "loginConn = (idleConn [])\<lparr>mc_cfg := zeroConfig\<lparr>cfg_User := [0x61], cfg_DBName := [0x62]\<rparr>\<rparr>"

lemma loginConn_simps [simp]: "mc_buf loginConn = newBuffer (Some (idleSock []))" "mc_sequence loginConn = 0"
  "mc_maxPacketAllowed loginConn = 16777215" "cfg_User (mc_cfg loginConn) = [0x61]"
  "cfg_DBName (mc_cfg loginConn) = [0x62]" "cfg_Passwd (mc_cfg loginConn) = []" "mc_flags loginConn = 0"
  by (simp_all add: loginConn_def zeroConfig_def)

definition loginAuth :: "byte list" where
  "loginAuth = authPayload (authFlags 0 [0x62]) 33 [0x61] [] [0x62]"

theorem auth_roundtrip_witness:
  "\<exists>mc' c'. writeAuthPacket (\<lambda>x. x) loginConn [1, 2] = (Ok (), mc') \<and>
    sentBytes (mc_buf mc') = sentBytes (mc_buf loginConn) @ framesOf (mc_sequence loginConn) loginAuth \<and>
    readHandshakeRespone (idleClient [Rd (framesOf 0 loginAuth) None]) = (Ok (), c') \<and>
    c_user c' = cfg_User (mc_cfg loginConn) \<and>
    c_dbname c' = (if cfg_DBName (mc_cfg loginConn) = []
      then cfg_DBName (c_cfg (idleClient [Rd (framesOf 0 loginAuth) None])) else cfg_DBName (mc_cfg loginConn)) \<and>
    hasFlag (c_capability c') ClientProtocol41 \<and> stream (c_buf c') = [] \<and> c_sequence c' = mc_sequence mc'"
  by (rule auth_roundtrip [where token = "[]" and rest = "[]"])
    (simp_all add: mc_ready_def scramblePassword_def loginAuth_def length_authPayload defaultBufSize_def)

end
