(* ===== verification/Server_Pool.thy ===== *)
theory Server_Pool
  imports Server_Handshake
begin

text \<open>
  \<^verbatim>\<open>server/mysql_db.go\<close>: the pool of database connections. Callers take a connection with
  \<open>getConn\<close> and give it back with \<open>putConn\<close>, both under the mutex; a goroutine, the opener, makes the
  connections, one for each token it finds in the channel \<open>openCh\<close>. The step relation interleaves the
  opener with the one caller that holds the mutex. The opener writes \<open>numOpen\<close> without the mutex, so
  the \<^verbatim>\<open>numOpen++\<close> of \<open>newConn\<close> and the \<^verbatim>\<open>numOpen--\<close> of \<open>putConn\<close> are two steps each, a load and a store,
  and a store of the one between the load and the store of the other is lost. \<open>orderly\<close> are the states of
  the runs in which that does not happen.
\<close>

section \<open>The pool\<close>

text \<open>Where the caller that holds the mutex is: nowhere, sending tokens from \<open>Open\<close> or from
  \<open>maybeOpenNew\<close>, in the \<^verbatim>\<open>select\<close> of \<open>getConn\<close> with some tries left, or in \<open>putConn\<close> with a
  connection that it will not keep: before it loads \<open>numOpen\<close>, or with the value it has loaded.\<close>

datatype caller = Nobody | Booting nat | Sending nat | Selecting nat | Closing | Dropping int

text \<open>The opener waits for a token, opens a connection, has loaded \<open>numOpen\<close> for the new connection,
  sends it to \<open>freeConn\<close>, or has brought the process down by a panic.\<close>

datatype opener = Waiting | Dialing | Counting int mysqlConn | Holding mysqlConn | Crashed

record MysqlDB =
  db_addr :: "byte list"
  db_user :: "byte list"
  db_passwd :: "byte list"
  db_db :: "byte list"
  db_maxLifetime :: int
  db_freeConn :: "mysqlConn list"
  db_openCh :: nat
  db_maxIdle :: int
  db_maxOpen :: int
  db_numOpen :: int
  db_caller :: caller
  db_opener :: opener
  db_inUse :: "mysqlConn list"

definition Open :: "ServerConfig \<Rightarrow> MysqlDB res" where
  "Open conf =
     (if cfg_MaxConnNum conf < 0 then Panic
      else Ok \<lparr>db_addr = cfg_Addr conf, db_user = cfg_User conf, db_passwd = cfg_Passwd conf,
        db_db = cfg_DBName conf, db_maxLifetime = cfg_MaxLifeTime conf, db_freeConn = [], db_openCh = 0,
        db_maxIdle = cfg_MaxIdleConn conf, db_maxOpen = cfg_MaxConnNum conf, db_numOpen = 0,
        db_caller = Booting (nat (cfg_MaxIdleConn conf)), db_opener = Waiting, db_inUse = []\<rparr>)"

text \<open>Both channels have the capacity \<open>maxOpen\<close>.\<close>

definition chanCap :: "MysqlDB \<Rightarrow> nat" where
  "chanCap m = nat (db_maxOpen m)"

section \<open>Opening a connection\<close>

text \<open>\<open>dial\<close> is the result of \<^verbatim>\<open>net.Dial\<close>, \<open>ka\<close> the error of \<^verbatim>\<open>SetKeepAlive\<close>, \<open>now\<close> the time.\<close>

definition newMysqlConn :: "int \<Rightarrow> MysqlDB \<Rightarrow> sock \<Rightarrow> mysqlConn" where
  "newMysqlConn now m s =
     (let cfg = zeroConfig\<lparr>cfg_Addr := db_addr m, cfg_User := db_user m, cfg_Passwd := db_passwd m,
            cfg_DBName := db_db m\<rparr>
      in \<lparr>mc_buf = (newBuffer (Some s))\<lparr>b_timeout := wrap64 (cfg_ReadTimeout cfg * Second)\<rparr>,
          mc_affectedRows = 0, mc_insertID = 0, mc_dbname = [], mc_cfg = cfg,
          mc_maxPacketAllowed = int MaxPacketSize, mc_maxWriteSize = int MaxPacketSize - 1,
          mc_writeTimeout = wrap64 (cfg_WriteTimeout cfg * Second), mc_flags = 0, mc_status = 0,
          mc_sequence = 0, mc_strict = cfg_Strict cfg, mc_createdAt = now\<rparr>)"

definition dialConn ::
  "(byte list \<Rightarrow> byte list) \<Rightarrow> int \<Rightarrow> MysqlDB \<Rightarrow> sock + sock_err \<Rightarrow> sock_err option \<Rightarrow> mysqlConn res" where
  "dialConn sha1 now m dial ka =
     (case dial of
        Inr e \<Rightarrow> Err (SockErr e)
      | Inl s \<Rightarrow>
          (case ka of
             Some e \<Rightarrow> Err (SockErr e)
           | None \<Rightarrow>
               (case bindS (readInitPacket (newMysqlConn now m s)) (\<lambda>cipher mc.
                     bindS (writeAuthPacket sha1 mc cipher) (\<lambda>_ mc. readInitOK mc)) of
                  (Ok _, mc) \<Rightarrow> Ok mc
                | (Err e, mc) \<Rightarrow> Err e
                | (Panic, mc) \<Rightarrow> Panic
                | (Spin, mc) \<Rightarrow> Spin)))"

text \<open>\<open>dialConn\<close> is \<open>newConn\<close> up to its last line, \<^verbatim>\<open>m.numOpen++\<close>. \<open>newConn\<close> is the function when
  nothing else runs; the steps below take its end apart.\<close>

definition newConn ::
  "(byte list \<Rightarrow> byte list) \<Rightarrow> int \<Rightarrow> MysqlDB \<Rightarrow> sock + sock_err \<Rightarrow> sock_err option \<Rightarrow> mysqlConn res \<times> MysqlDB" where
  "newConn sha1 now m dial ka =
     (case dialConn sha1 now m dial ka of
        Ok mc \<Rightarrow> (Ok mc, m\<lparr>db_numOpen := db_numOpen m + 1\<rparr>)
      | r \<Rightarrow> (r, m))"

lemma newConn_Ok_iff:
  "newConn sha1 now m dial ka = (Ok mc, m\<lparr>db_numOpen := db_numOpen m + 1\<rparr>) \<longleftrightarrow> dialConn sha1 now m dial ka = Ok mc"
  by (auto simp: newConn_def split: res.splits)

section \<open>Taking and giving back\<close>

text \<open>How many tokens \<open>maybeOpenNew\<close> sends.\<close>

definition maybeOpenNew :: "MysqlDB \<Rightarrow> nat" where
  "maybeOpenNew m = (let can = db_maxOpen m - db_numOpen m in if 0 < can then nat can else 0)"

text \<open>\<open>putConn\<close> up to the decrement: the connection is to be closed when it has expired and more are open
  than may idle, goes back when there is room, and is to be closed when there is none. Closing it has
  no effect on the pool.\<close>

definition putConn :: "int \<Rightarrow> MysqlDB \<Rightarrow> mysqlConn \<Rightarrow> MysqlDB" where
  "putConn now m mc =
     (if 0 < db_maxLifetime m \<and> db_maxIdle m < db_numOpen m \<and> mc_expired now mc (db_maxLifetime m)
      then m\<lparr>db_caller := Closing\<rparr>
      else if length (db_freeConn m) < chanCap m
      then m\<lparr>db_freeConn := db_freeConn m @ [mc]\<rparr>
      else m\<lparr>db_caller := Closing\<rparr>)"

text \<open>
  The steps. A caller can have used the connection in any way between taking it and giving it
  back; \<open>db_inUse\<close> holds the connections that are out, as they were when they were taken. A
  panic of the opener ends the process: there is no step after it. The opener's \<^verbatim>\<open>numOpen++\<close> is the
  load of \<open>op_dial\<close> and the store of \<open>op_count\<close>, the caller's \<^verbatim>\<open>numOpen--\<close> the load of \<open>drop_load\<close> and the
  store of \<open>drop_store\<close>.
\<close>

inductive pstep :: "(byte list \<Rightarrow> byte list) \<Rightarrow> MysqlDB \<Rightarrow> MysqlDB \<Rightarrow> bool" for sha1 where
  boot_send: "db_opener m \<noteq> Crashed \<Longrightarrow> db_caller m = Booting (Suc k) \<Longrightarrow> db_openCh m < chanCap m \<Longrightarrow>
     pstep sha1 m (m\<lparr>db_openCh := db_openCh m + 1, db_caller := Booting k\<rparr>)"
| boot_done: "db_opener m \<noteq> Crashed \<Longrightarrow> db_caller m = Booting 0 \<Longrightarrow> pstep sha1 m (m\<lparr>db_caller := Nobody\<rparr>)"
| op_take: "db_opener m = Waiting \<Longrightarrow> 0 < db_openCh m \<Longrightarrow>
     pstep sha1 m (m\<lparr>db_openCh := db_openCh m - 1, db_opener := Dialing\<rparr>)"
| op_dial: "db_opener m = Dialing \<Longrightarrow> dialConn sha1 now m dial ka = Ok mc \<Longrightarrow>
     pstep sha1 m (m\<lparr>db_opener := Counting (db_numOpen m) mc\<rparr>)"
| op_count: "db_opener m = Counting n mc \<Longrightarrow> pstep sha1 m (m\<lparr>db_numOpen := n + 1, db_opener := Holding mc\<rparr>)"
| op_fail: "db_opener m = Dialing \<Longrightarrow> dialConn sha1 now m dial ka = Err e \<Longrightarrow>
     pstep sha1 m (m\<lparr>db_opener := Waiting\<rparr>)"
| op_crash: "db_opener m = Dialing \<Longrightarrow> dialConn sha1 now m dial ka = Panic \<Longrightarrow>
     pstep sha1 m (m\<lparr>db_opener := Crashed\<rparr>)"
| op_send: "db_opener m = Holding mc \<Longrightarrow> length (db_freeConn m) < chanCap m \<Longrightarrow>
     pstep sha1 m (m\<lparr>db_freeConn := db_freeConn m @ [mc], db_opener := Waiting\<rparr>)"
| get_lock: "db_opener m \<noteq> Crashed \<Longrightarrow> db_caller m = Nobody \<Longrightarrow> pstep sha1 m (m\<lparr>db_caller := Sending (maybeOpenNew m)\<rparr>)"
| get_send: "db_opener m \<noteq> Crashed \<Longrightarrow> db_caller m = Sending (Suc k) \<Longrightarrow> db_openCh m < chanCap m \<Longrightarrow>
     pstep sha1 m (m\<lparr>db_openCh := db_openCh m + 1, db_caller := Sending k\<rparr>)"
| get_select: "db_opener m \<noteq> Crashed \<Longrightarrow> db_caller m = Sending 0 \<Longrightarrow> pstep sha1 m (m\<lparr>db_caller := Selecting 10\<rparr>)"
| get_recv: "db_opener m \<noteq> Crashed \<Longrightarrow> db_caller m = Selecting (Suc t) \<Longrightarrow> db_freeConn m = mc # rest \<Longrightarrow>
     pstep sha1 m (m\<lparr>db_freeConn := rest, db_inUse := mc # db_inUse m, db_caller := Nobody\<rparr>)"
| get_tick: "db_opener m \<noteq> Crashed \<Longrightarrow> db_caller m = Selecting (Suc t) \<Longrightarrow>
     pstep sha1 m (m\<lparr>db_caller := (if t = 0 then Nobody else Selecting t)\<rparr>)"
| get_default: "db_opener m \<noteq> Crashed \<Longrightarrow> db_caller m = Selecting (Suc t) \<Longrightarrow> db_freeConn m = [] \<Longrightarrow>
     pstep sha1 m (m\<lparr>db_caller := Nobody\<rparr>)"
| put: "db_opener m \<noteq> Crashed \<Longrightarrow> db_caller m = Nobody \<Longrightarrow> db_inUse m = us @ u # vs \<Longrightarrow>
     pstep sha1 m (putConn now (m\<lparr>db_inUse := us @ vs\<rparr>) mc)"
| drop_load: "db_opener m \<noteq> Crashed \<Longrightarrow> db_caller m = Closing \<Longrightarrow>
     pstep sha1 m (m\<lparr>db_caller := Dropping (db_numOpen m)\<rparr>)"
| drop_store: "db_opener m \<noteq> Crashed \<Longrightarrow> db_caller m = Dropping n \<Longrightarrow>
     pstep sha1 m (m\<lparr>db_numOpen := n - 1, db_caller := Nobody\<rparr>)"

inductive_cases pstepE: "pstep sha1 m m'"

inductive reachable :: "(byte list \<Rightarrow> byte list) \<Rightarrow> ServerConfig \<Rightarrow> MysqlDB \<Rightarrow> bool" for sha1 conf where
  start: "Open conf = Ok m \<Longrightarrow> reachable sha1 conf m"
| next_step: "reachable sha1 conf m \<Longrightarrow> pstep sha1 m m' \<Longrightarrow> reachable sha1 conf m'"

text \<open>Both have loaded \<open>numOpen\<close> and neither has stored it: the one that stores first is overwritten.\<close>

definition racing :: "MysqlDB \<Rightarrow> bool" where
  "racing m \<longleftrightarrow> (case (db_opener m, db_caller m) of (Counting _ _, Dropping _) \<Rightarrow> True | _ \<Rightarrow> False)"

inductive orderly :: "(byte list \<Rightarrow> byte list) \<Rightarrow> ServerConfig \<Rightarrow> MysqlDB \<Rightarrow> bool" for sha1 conf where
  orderly_start: "Open conf = Ok m \<Longrightarrow> orderly sha1 conf m"
| orderly_step: "orderly sha1 conf m \<Longrightarrow> pstep sha1 m m' \<Longrightarrow> \<not> racing m' \<Longrightarrow> orderly sha1 conf m'"

lemma orderly_reachable: "orderly sha1 conf m \<Longrightarrow> reachable sha1 conf m"
  by (induction rule: orderly.induct) (auto intro: reachable.intros)

section \<open>Invariants\<close>

definition holding :: "opener \<Rightarrow> int" where
  "holding p = (case p of Holding _ \<Rightarrow> 1 | _ \<Rightarrow> 0)"

text \<open>The opener is making a connection that is not counted yet.\<close>

definition dialing :: "opener \<Rightarrow> int" where
  "dialing p = (case p of Dialing \<Rightarrow> 1 | Counting _ _ \<Rightarrow> 1 | _ \<Rightarrow> 0)"

definition toSend :: "caller \<Rightarrow> int" where
  "toSend c = (case c of Booting k \<Rightarrow> int k | Sending k \<Rightarrow> int k | _ \<Rightarrow> 0)"

text \<open>A connection that will not be kept and is still counted.\<close>

definition leaving :: "caller \<Rightarrow> int" where
  "leaving c = (case c of Closing \<Rightarrow> 1 | Dropping _ \<Rightarrow> 1 | _ \<Rightarrow> 0)"

text \<open>Connections that are open or on their way: one for each token sent or to be sent.\<close>

definition potential :: "MysqlDB \<Rightarrow> int" where
  "potential m = db_numOpen m + toSend (db_caller m) + int (db_openCh m) + dialing (db_opener m)"

text \<open>The channels hold no more than they can, whatever is lost.\<close>

definition chan_inv :: "MysqlDB \<Rightarrow> bool" where
  "chan_inv m \<longleftrightarrow> 0 \<le> db_maxOpen m \<and> length (db_freeConn m) \<le> chanCap m \<and> db_openCh m \<le> chanCap m"

text \<open>The values that have been loaded are those that are stored.\<close>

definition fresh :: "MysqlDB \<Rightarrow> bool" where
  "fresh m \<longleftrightarrow> (case db_opener m of Counting n _ \<Rightarrow> n = db_numOpen m | _ \<Rightarrow> True) \<and>
     (case db_caller m of Dropping n \<Rightarrow> n = db_numOpen m | _ \<Rightarrow> True)"

definition pool_inv :: "MysqlDB \<Rightarrow> bool" where
  "pool_inv m \<longleftrightarrow> chan_inv m \<and> fresh m \<and> \<not> racing m \<and>
     db_numOpen m = int (length (db_freeConn m)) + int (length (db_inUse m)) + holding (db_opener m) + leaving (db_caller m) \<and>
     potential m \<le> 2 * db_maxOpen m + 1"

lemmas pool_defs = pool_inv_def chan_inv_def fresh_def racing_def potential_def holding_def dialing_def toSend_def
  leaving_def chanCap_def

lemma putConn_inv:
  assumes "pool_inv m" and "db_caller m = Nobody" and "db_inUse m = us @ u # vs"
  shows "pool_inv (putConn now (m\<lparr>db_inUse := us @ vs\<rparr>) mc)"
  using assms by (auto simp: putConn_def pool_defs split: opener.splits)

lemma pstep_chan: "pstep sha1 m m' \<Longrightarrow> chan_inv m \<Longrightarrow> chan_inv m'"
  by (induction rule: pstep.induct) (auto simp: putConn_def chan_inv_def chanCap_def)

text \<open>The state after the store of the opener, and after that of the caller.\<close>

lemma op_count_inv:
  assumes "pool_inv m" and "db_opener m = Counting n mc"
  shows "pool_inv (m\<lparr>db_numOpen := n + 1, db_opener := Holding mc\<rparr>)"
  using assms by (cases "db_caller m") (simp_all add: pool_defs)

lemma drop_store_inv:
  assumes "pool_inv m" and "db_caller m = Dropping n"
  shows "pool_inv (m\<lparr>db_numOpen := n - 1, db_caller := Nobody\<rparr>)"
  using assms by (cases "db_opener m") (simp_all add: pool_defs)

lemma pstep_inv: "pstep sha1 m m' \<Longrightarrow> pool_inv m \<Longrightarrow> \<not> racing m' \<Longrightarrow> pool_inv m'"
proof (induction rule: pstep.induct)
  case (put m us u vs now mc)
  then show ?case using putConn_inv by blast
next
  case (get_lock m)
  then have "int (db_openCh m) \<le> db_maxOpen m" by (auto simp: pool_inv_def chan_inv_def chanCap_def)
  with get_lock show ?case
    by (cases "db_opener m"; cases "db_numOpen m < db_maxOpen m") (simp_all add: pool_defs maybeOpenNew_def Let_def)
next
  case (op_count m n mc)
  then show ?case using op_count_inv by blast
next
  case (drop_store m n)
  then show ?case using drop_store_inv by blast
next
  case (op_dial m now dial ka mc)
  then show ?case by (cases "db_caller m") (simp_all add: pool_defs)
next
  case (drop_load m)
  then show ?case by (cases "db_opener m") (simp_all add: pool_defs)
next
  case (boot_send m k)
  then show ?case by (cases "db_opener m") (simp_all add: pool_defs)
next
  case (boot_done m)
  then show ?case by (cases "db_opener m") (simp_all add: pool_defs)
next
  case (op_take m)
  then show ?case by (cases "db_caller m") (auto simp: pool_defs)
next
  case (op_fail m now dial ka e)
  then show ?case by (cases "db_caller m") (auto simp: pool_defs)
next
  case (op_crash m now dial ka)
  then show ?case by (cases "db_caller m") (auto simp: pool_defs)
next
  case (op_send m mc)
  then show ?case by (cases "db_caller m") (auto simp: pool_defs)
next
  case (get_send m k)
  then show ?case by (cases "db_opener m") (auto simp: pool_defs)
next
  case (get_select m)
  then show ?case by (cases "db_opener m") (auto simp: pool_defs)
next
  case (get_recv m t mc rest)
  then show ?case by (cases "db_opener m") (auto simp: pool_defs)
next
  case (get_tick m t)
  then show ?case by (cases "db_opener m") (auto simp: pool_defs)
next
  case (get_default m t)
  then show ?case by (cases "db_opener m") (auto simp: pool_defs)
qed

lemma Open_inv: "Open conf = Ok m \<Longrightarrow> cfg_MaxIdleConn conf \<le> 2 * cfg_MaxConnNum conf + 1 \<Longrightarrow> pool_inv m"
  by (auto simp: Open_def pool_defs split: if_splits)

lemma orderly_inv:
  "orderly sha1 conf m \<Longrightarrow> cfg_MaxIdleConn conf \<le> 2 * cfg_MaxConnNum conf + 1 \<Longrightarrow> pool_inv m"
  by (induction rule: orderly.induct) (auto intro: Open_inv pstep_inv)

lemma reachable_chan: "reachable sha1 conf m \<Longrightarrow> chan_inv m"
proof (induction rule: reachable.induct)
  case (start m)
  then show ?case by (auto simp: Open_def chan_inv_def split: if_splits)
qed (rule pstep_chan)

text \<open>What the invariant says of the connections.\<close>

lemma pool_inv_bounds:
  assumes "pool_inv m"
  shows "0 \<le> db_numOpen m" and "db_numOpen m \<le> 2 * db_maxOpen m + 1"
    and "int (length (db_freeConn m)) \<le> db_maxOpen m" and "int (length (db_inUse m)) \<le> db_numOpen m"
  using assms by (auto simp: pool_defs split: caller.splits opener.splits if_splits)

lemma pstep_maxOpen: "pstep sha1 m m' \<Longrightarrow> db_maxOpen m' = db_maxOpen m"
  by (induction rule: pstep.induct) (auto simp: putConn_def)

lemma reachable_maxOpen: "reachable sha1 conf m \<Longrightarrow> db_maxOpen m = cfg_MaxConnNum conf"
  by (induction rule: reachable.induct) (auto simp: Open_def pstep_maxOpen split: if_splits)

section \<open>No deadlock without the race\<close>

text \<open>A caller that holds the mutex and has a token to send can go on, or the opener can: \<open>openCh\<close> and
  \<open>freeConn\<close> are never both full with the opener waiting for room.\<close>

lemma sender_not_stuck:
  assumes inv: "pool_inv m" and pos: "0 < db_maxOpen m"
    and c: "db_caller m = Sending (Suc k) \<or> db_caller m = Booting (Suc k)" and o: "db_opener m \<noteq> Crashed"
  shows "\<exists>m'. pstep sha1 m m' \<and> \<not> racing m'"
proof (cases "db_openCh m < chanCap m")
  case True
  with c o pstep.get_send [of m k] pstep.boot_send [of m k] show ?thesis
    by (fastforce simp: racing_def split: opener.splits)
next
  case False
  with inv have full: "db_openCh m = chanCap m" by (simp add: pool_inv_def chan_inv_def)
  show ?thesis
  proof (cases "db_opener m")
    case Waiting
    have "0 < db_openCh m" using full pos by (simp add: chanCap_def)
    from pstep.op_take [OF Waiting this] show ?thesis by (intro exI conjI) (auto simp: racing_def)
  next
    case Dialing
    have "dialConn sha1 0 m (Inr EOF) None = Err (SockErr EOF)" by (simp add: dialConn_def)
    from pstep.op_fail [OF Dialing this] show ?thesis by (intro exI conjI) (auto simp: racing_def)
  next
    case (Counting n mc)
    from pstep.op_count [OF this] show ?thesis by (intro exI conjI) (auto simp: racing_def)
  next
    case (Holding mc)
    have "length (db_freeConn m) < chanCap m"
      using inv full c Holding by (auto simp: pool_defs split: if_splits)
    from pstep.op_send [OF Holding this] show ?thesis by (intro exI conjI) (auto simp: racing_def)
  next
    case Crashed
    with o show ?thesis by simp
  qed
qed

section \<open>A connection is made\<close>

lemma appendInto_len: "b_len (appendInto b s bs) = b_len b"
  by (simp add: appendInto_def split: option.split)

lemma readInitPacket_len:
  assumes "mc_readPacket mc = (Ok d, m1)" and "readInitPacket mc = (Ok x, mc')" and "\<exists>h t. vis d = h # t \<and> h \<noteq> HeaderERR"
  shows "b_len (mc_buf mc') = b_len (mc_buf m1)"
  using assms
  by (auto simp: readInitPacket_def bindS_Ok_iff Let_def appendInto_len idxAt_def len_def split: if_splits)

lemma newConn_ok:
  assumes sha: "\<And>x. length (sha1 x) = 20"
    and s: "rx s = Rd (framesOf 0 ip) None # es" "clean es" "rxData es = framesOf 2 okp @ rest" "wr s = []" "dl_err s = None"
    and i: "goodInit v ver cid s1 caps mid s2" "ip = initPacket v ver cid s1 filler caps mid s2 tail"
    and l: "length ip + 4 \<le> defaultBufSize" "length (db_user m) + length (db_db m) \<le> 4000"
    and ok: "framable okp" "hd okp = HeaderOK"
  shows "\<exists>mc token. newConn sha1 now m (Inl s) None = (Ok mc, m\<lparr>db_numOpen := db_numOpen m + 1\<rparr>) \<and>
    scramblePassword sha1 (s1 @ s2) (db_passwd m) = Ok token \<and> conn_good (mc_buf mc) \<and> stream (mc_buf mc) = rest \<and>
    sentBytes (mc_buf mc) =
      tx s @ framesOf 1 (authPayload (authFlags (ucast caps) (db_db m)) 33 (db_user m) token (db_db m))"
proof -
  let ?m = "newMysqlConn now m s"
  have sm: "length ip < MaxPacketSize" using l(1) by (simp add: defaultBufSize_def MaxPacketSize_def)
  have ne: "ip \<noteq> []" by (simp add: i(2) initPacket_def)
  have fr: "framable ip" using ne sm by (rule framable_short)
  have m0: "mc_sequence ?m = 0" "mc_cfg ?m = zeroConfig\<lparr>cfg_Addr := db_addr m, cfg_User := db_user m,
      cfg_Passwd := db_passwd m, cfg_DBName := db_db m\<rparr>" "mc_maxPacketAllowed ?m = int MaxPacketSize"
    "mc_buf ?m = newBuffer (Some s)" "sentBytes (mc_buf ?m) = tx s"
    by (simp_all add: newMysqlConn_def zeroConfig_def Let_def wrap64_def newBuffer_def sentBytes_def)
  have cl: "clean (rx s)" using s(1,2) by simp
  have g0: "conn_good (mc_buf ?m)"
    using newBuffer_readable [OF cl] s(4,5) by (simp add: conn_good_def m0(4)) (simp add: newBuffer_def)
  have st0: "stream (mc_buf ?m) = framesOf (mc_sequence ?m) ip @ rxData es"
    by (simp add: m0 newBuffer_stream s(1))
  from readInitPacket_salt [OF g0 i(1,2) fr st0] obtain m1 where
    r1: "readInitPacket ?m = (Ok (s1 @ s2), m1)" "stream (mc_buf m1) = rxData es" "mc_flags m1 = ucast caps"
    "sentBytes (mc_buf m1) = sentBytes (mc_buf ?m)" "mc_sequence m1 = seqAfter (mc_sequence ?m) ip"
    "conn_good (mc_buf m1)"
    "m1 = ?m\<lparr>mc_buf := mc_buf m1, mc_sequence := mc_sequence m1, mc_flags := ucast caps\<rparr>" by blast
  have lf: "length (framesOf 0 ip) = 4 + length ip" using sm by (simp add: framesOf.simps [of _ ip])
  have br: "brings (mc_buf ?m) (framesOf (mc_sequence ?m) ip) es" and nc: "b_nc (mc_buf ?m) = Some s"
    using l(1) s lf by (simp_all add: m0 brings_def newBuffer_def)
  from mc_readPacket_whole [OF ne sm br nc] obtain d mr where
    rp: "mc_readPacket ?m = (Ok d, mr)" "vis d = ip" "b_len (mc_buf mr) = 0" by fastforce
  have "\<exists>h t. vis d = h # t \<and> h \<noteq> HeaderERR"
    using i by (auto simp: rp(2) initPacket_def goodInit_def)
  from readInitPacket_len [OF rp(1) r1(1) this] have z1: "b_len (mc_buf m1) = 0" using rp(3) by simp
  have ready1: "mc_ready m1" using r1(6) z1 by (simp add: mc_ready_def)
  have q1: "mc_sequence m1 = 1" using r1(5) sm by (simp add: m0 seqAfter_small)
  have c1: "mc_cfg m1 = mc_cfg ?m" "mc_maxPacketAllowed m1 = int MaxPacketSize"
    by (subst r1(7), simp add: m0)+
  have c1': "cfg_User (mc_cfg m1) = db_user m" "cfg_DBName (mc_cfg m1) = db_db m" "cfg_Passwd (mc_cfg m1) = db_passwd m"
    by (simp_all add: c1 m0)
  obtain token where tk: "scramblePassword sha1 (s1 @ s2) (db_passwd m) = Ok token"
    and tl: "length token \<le> 20" using scramblePassword_length [of sha1 "s1 @ s2" "db_passwd m"] sha by fastforce
  let ?p = "authPayload (authFlags (ucast caps) (db_db m)) 33 (db_user m) token (db_db m)"
  have pl: "4 + length ?p \<le> defaultBufSize" "int (length ?p) \<le> mc_maxPacketAllowed m1" "length ?p < MaxPacketSize"
    using l(2) tl by (auto simp: length_authPayload defaultBufSize_def c1(2) MaxPacketSize_def)
  from writeAuthPacket_sends [OF ready1, of sha1 "s1 @ s2" token] tk pl obtain m2 where
    r2: "writeAuthPacket sha1 m1 (s1 @ s2) = (Ok (), m2)"
    "sentBytes (mc_buf m2) = sentBytes (mc_buf m1) @ framesOf (mc_sequence m1) ?p"
    "stream (mc_buf m2) = stream (mc_buf m1)" "mc_sequence m2 = seqAfter (mc_sequence m1) ?p" "mc_ready m2"
    by (auto simp: c1' r1(3))
  have q2: "mc_sequence m2 = 2" using r2(4) pl(3) by (simp add: q1 seqAfter_small)
  have "conn_good (mc_buf m2)" using r2(5) by (simp add: mc_ready_def)
  moreover have "stream (mc_buf m2) = framesOf (mc_sequence m2) okp @ rest" using r2(3) r1(2) s(3) q2 by simp
  ultimately obtain m3 where
    r3: "readInitOK m2 = (Ok (), m3)" "stream (mc_buf m3) = rest" "onlyRead m2 m3" using readInitOK_ok ok by blast
  have "newConn sha1 now m (Inl s) None = (Ok m3, m\<lparr>db_numOpen := db_numOpen m + 1\<rparr>)"
    using r1(1) r2(1) r3(1) by (simp add: newConn_def dialConn_def)
  moreover have "sentBytes (mc_buf m3) = tx s @ framesOf 1 ?p"
    using r3(3) r2(2) r1(4) q1 m0(5) by (simp add: onlyRead_def)
  moreover have "conn_good (mc_buf m3)" using r3(3) by (simp add: onlyRead_def)
  ultimately show ?thesis using tk r3(2) by blast
qed

definition the_db :: "int \<Rightarrow> MysqlDB" where
  "the_db n = \<lparr>db_addr = [], db_user = [0x72], db_passwd = [0x70], db_db = [], db_maxLifetime = 0, db_freeConn = [],
     db_openCh = 0, db_maxIdle = 0, db_maxOpen = n, db_numOpen = 0, db_caller = Booting 0, db_opener = Waiting,
     db_inUse = []\<rparr>"

definition dialed :: sock where
  "dialed = idleSock [Rd (framesOf 0 (initPacket 10 [0x35] [1, 0, 0, 0] [1, 2, 3, 4, 5, 6, 7, 8] 0 0x200 (replicate 16 0)
     (replicate 12 9) [0])) None, Rd (framesOf 2 [0, 0, 0, 2, 0]) None]"

lemma dialed_goodInit: "goodInit 10 [0x35] [1, 0, 0, 0] [1, 2, 3, 4, 5, 6, 7, 8] 0x200 (replicate 16 0) (replicate 12 9)"
  unfolding goodInit_def
  by (intro conjI) (simp_all add: MinProtocolVersion_def header_defs hasFlag_def client_flag_def)

lemma dialed_connects:
  assumes "db_user m = [0x72]" and "db_db m = []"
  shows "\<exists>mc. dialConn (\<lambda>x. replicate 20 7) 5 m (Inl dialed) None = Ok mc"
proof -
  have "\<exists>mc token. newConn (\<lambda>x. replicate 20 7) 5 m (Inl dialed) None = (Ok mc, m\<lparr>db_numOpen := db_numOpen m + 1\<rparr>) \<and>
      scramblePassword (\<lambda>x. replicate 20 7) ([1, 2, 3, 4, 5, 6, 7, 8] @ replicate 12 9) (db_passwd m) = Ok token \<and>
      conn_good (mc_buf mc) \<and> stream (mc_buf mc) = [] \<and>
      sentBytes (mc_buf mc) = tx dialed @ framesOf 1
        (authPayload (authFlags (ucast (0x200 :: u16)) (db_db m)) 33 (db_user m) token (db_db m))"
    by (rule newConn_ok [where okp = "[0, 0, 0, 2, 0]" and es = "[Rd (framesOf 2 [0, 0, 0, 2, 0]) None]"
          and filler = 0 and tail = "[0]", OF _ _ _ _ _ _ dialed_goodInit refl])
      (simp_all add: dialed_def initPacket_def putUint16_def framable_def MaxPacketSize_val defaultBufSize_def
        HeaderOK_def assms)
  then show ?thesis by (auto simp: newConn_Ok_iff)
qed

section \<open>Properties of the pool\<close>

text \<open>C14: as long as a load of \<open>numOpen\<close> by the opener or by \<open>putConn\<close> has been stored before the other loads
  it, the pool's count is right: in every state of such a run it is the number of connections that are
  free, out, about to be handed over or about to be closed, and it stays below twice the maximum and one;
  no more than the maximum are free. The maximum of idle connections is to be at most twice the other
  maximum and one, since \<open>Open\<close> asks for that many.\<close>

theorem pool_count:
  assumes "orderly sha1 conf m" and "cfg_MaxIdleConn conf \<le> 2 * cfg_MaxConnNum conf + 1"
  shows "db_numOpen m = int (length (db_freeConn m)) + int (length (db_inUse m)) + holding (db_opener m) + leaving (db_caller m) \<and>
    db_numOpen m \<le> 2 * cfg_MaxConnNum conf + 1 \<and> int (length (db_freeConn m)) \<le> cfg_MaxConnNum conf"
  using orderly_inv [OF assms] pool_inv_bounds [of m] reachable_maxOpen [OF orderly_reachable [OF assms(1)]]
  by (simp add: pool_inv_def)

definition oneConn :: ServerConfig where
  "oneConn = zeroConfig\<lparr>cfg_MaxConnNum := 1, cfg_User := [0x72], cfg_Passwd := [0x70]\<rparr>"

lemma Open_oneConn: "Open oneConn = Ok (the_db 1)"
  by (simp add: Open_def oneConn_def zeroConfig_def the_db_def)

text \<open>Pools with a maximum of one, whose connections live for \<open>t\<close> units of time, or for ever if that is 0.\<close>

abbreviation sha20 :: "byte list \<Rightarrow> byte list" where
  "sha20 \<equiv> \<lambda>x. replicate 20 7"

definition agedConn :: "int \<Rightarrow> ServerConfig" where
  "agedConn t = oneConn\<lparr>cfg_MaxLifeTime := t\<rparr>"

definition aged_db :: "int \<Rightarrow> MysqlDB" where
  "aged_db t = (the_db 1)\<lparr>db_maxLifetime := t\<rparr>"

lemma aged_simps:
  "aged_db t = \<lparr>db_addr = [], db_user = [0x72], db_passwd = [0x70], db_db = [], db_maxLifetime = t, db_freeConn = [],
     db_openCh = 0, db_maxIdle = 0, db_maxOpen = 1, db_numOpen = 0, db_caller = Booting 0, db_opener = Waiting,
     db_inUse = []\<rparr>"
  by (simp add: aged_db_def the_db_def)

lemma aged_0 [simp]: "agedConn 0 = oneConn" "aged_db 0 = the_db 1"
  by (simp_all add: agedConn_def oneConn_def zeroConfig_def aged_db_def the_db_def)

lemma Open_aged: "Open (agedConn t) = Ok (aged_db t)"
  by (simp add: Open_def agedConn_def oneConn_def zeroConfig_def aged_db_def the_db_def)

text \<open>The first caller of such a pool sends a token, finds no connection and gives up; the second sends a token
  while the first connection is made.\<close>

lemma sending_orderly: "orderly sha1 (agedConn t) ((aged_db t)\<lparr>db_caller := Sending 1\<rparr>)"
proof -
  have "orderly sha1 (agedConn t) ((aged_db t)\<lparr>db_caller := Nobody\<rparr>)"
    by (rule orderly.orderly_step [OF orderly.orderly_start [OF Open_aged] pstep.boot_done])
      (simp_all add: aged_simps racing_def)
  from orderly.orderly_step [OF this pstep.get_lock] show ?thesis by (simp add: aged_simps maybeOpenNew_def racing_def)
qed

lemma aged_dials:
  assumes "db_user m = [0x72]" and "db_db m = []" and "db_opener m = Dialing"
  shows "\<exists>mc. pstep sha20 m (m\<lparr>db_opener := Counting (db_numOpen m) mc\<rparr>)"
  using dialed_connects [OF assms(1,2)] pstep.op_dial [OF assms(3)] by blast

lemma holding_orderly:
  "\<exists>mc. orderly sha20 (agedConn t) ((aged_db t)\<lparr>db_caller := Sending 0, db_openCh := 1, db_opener := Holding mc, db_numOpen := 1\<rparr>)"
proof -
  let ?d = "aged_db t"
  note step = orderly.orderly_step [where ?sha1.0 = sha20 and conf = "agedConn t"] and defs = aged_simps chanCap_def racing_def
  have "orderly sha20 (agedConn t) (?d\<lparr>db_caller := Sending 1\<rparr>)" by (rule sending_orderly)
  from step [OF this pstep.get_send [where k = 0]]
  have "orderly sha20 (agedConn t) (?d\<lparr>db_caller := Sending 0, db_openCh := 1\<rparr>)" by (simp add: defs)
  from step [OF this pstep.get_select] have "orderly sha20 (agedConn t) (?d\<lparr>db_caller := Selecting 10, db_openCh := 1\<rparr>)"
    by (simp add: defs)
  from step [OF this pstep.get_default [where t = 9]]
  have "orderly sha20 (agedConn t) (?d\<lparr>db_caller := Nobody, db_openCh := 1\<rparr>)" by (simp add: defs)
  from step [OF this pstep.op_take] have "orderly sha20 (agedConn t) (?d\<lparr>db_caller := Nobody, db_opener := Dialing\<rparr>)"
    by (simp add: defs)
  from step [OF this pstep.get_lock]
  have "orderly sha20 (agedConn t) (?d\<lparr>db_caller := Sending 1, db_opener := Dialing\<rparr>)"
    by (simp add: defs maybeOpenNew_def)
  from step [OF this pstep.get_send [where k = 0]]
  have r: "orderly sha20 (agedConn t) (?d\<lparr>db_caller := Sending 0, db_openCh := 1, db_opener := Dialing\<rparr>)" (is "orderly _ _ ?m")
    by (simp add: defs)
  obtain mc where "pstep sha20 ?m (?m\<lparr>db_opener := Counting (db_numOpen ?m) mc\<rparr>)"
    using aged_dials [of ?m] by (auto simp: aged_simps)
  from step [OF r this]
  have "orderly sha20 (agedConn t) (?d\<lparr>db_caller := Sending 0, db_openCh := 1, db_opener := Counting 0 mc\<rparr>)"
    by (simp add: defs)
  from step [OF this pstep.op_count]
  have "orderly sha20 (agedConn t) (?d\<lparr>db_caller := Sending 0, db_openCh := 1, db_opener := Holding mc, db_numOpen := 1\<rparr>)"
    by (simp add: defs)
  then show ?thesis by blast
qed

lemma second_orderly:
  "\<exists>mc. orderly sha20 (agedConn t) ((aged_db t)\<lparr>db_caller := Sending 0, db_opener := Dialing, db_numOpen := 1, db_freeConn := [mc]\<rparr>)"
proof -
  let ?d = "aged_db t"
  note step = orderly.orderly_step [where ?sha1.0 = sha20 and conf = "agedConn t"] and defs = aged_simps chanCap_def racing_def
  obtain mc where
    "orderly sha20 (agedConn t) (?d\<lparr>db_caller := Sending 0, db_openCh := 1, db_opener := Holding mc, db_numOpen := 1\<rparr>)"
    using holding_orderly by blast
  from step [OF this pstep.op_send [where mc = mc]]
  have "orderly sha20 (agedConn t) (?d\<lparr>db_caller := Sending 0, db_openCh := 1, db_numOpen := 1, db_freeConn := [mc]\<rparr>)"
    by (simp add: defs)
  from step [OF this pstep.op_take]
  have "orderly sha20 (agedConn t) (?d\<lparr>db_caller := Sending 0, db_opener := Dialing, db_numOpen := 1, db_freeConn := [mc]\<rparr>)"
    by (simp add: defs)
  then show ?thesis by blast
qed

theorem pool_count_witness:
  "\<exists>mc. db_numOpen ((the_db 1)\<lparr>db_caller := Sending 0, db_openCh := 1, db_opener := Holding mc, db_numOpen := 1\<rparr>) = 0 + 0 + 1 + 0 \<and>
    (1 :: int) \<le> 2 * cfg_MaxConnNum oneConn + 1 \<and> 0 \<le> cfg_MaxConnNum oneConn"
proof -
  obtain mc where "orderly sha20 oneConn ((the_db 1)\<lparr>db_caller := Sending 0, db_openCh := 1, db_opener := Holding mc, db_numOpen := 1\<rparr>)"
    using holding_orderly [of 0] by auto
  from pool_count [OF this] show ?thesis
    by (auto simp: oneConn_def zeroConfig_def the_db_def holding_def leaving_def)
qed

text \<open>C16: a caller that sends tokens while it holds the mutex does not block the pool for good, as long as no
  store of \<open>numOpen\<close> has been lost and the opener has not brought the process down: with a caller in the
  middle of sending, some step is possible, of the caller or of the opener, after which none has been
  lost either. As for C14 the maximum of idle connections is to be at most twice the other maximum and one.\<close>

theorem pool_sender_not_stuck:
  assumes "orderly sha1 conf m" and "cfg_MaxIdleConn conf \<le> 2 * cfg_MaxConnNum conf + 1" and "0 < cfg_MaxConnNum conf"
    and "db_caller m = Sending (Suc k) \<or> db_caller m = Booting (Suc k)" and "db_opener m \<noteq> Crashed"
  shows "\<exists>m'. pstep sha1 m m' \<and> orderly sha1 conf m'"
  using sender_not_stuck [OF orderly_inv [OF assms(1,2)] _ assms(4,5)] reachable_maxOpen [OF orderly_reachable [OF assms(1)]] assms(3)
    orderly.orderly_step [OF assms(1)] by fastforce

theorem pool_sender_not_stuck_witness:
  "\<exists>m'. pstep sha20 ((the_db 1)\<lparr>db_caller := Sending 1\<rparr>) m' \<and> orderly sha20 oneConn m'"
  by (rule pool_sender_not_stuck [OF sending_orderly [of sha20 0, unfolded aged_0], where k = 0])
    (simp_all add: oneConn_def zeroConfig_def the_db_def)

text \<open>A caller that finds a connection, gives it back and asks again.\<close>

lemma aged_again:
  assumes "reachable sha20 (agedConn 1) ((aged_db 1)\<lparr>db_caller := Sending 0, db_openCh := k, db_opener := Dialing, db_freeConn := [c]\<rparr>)"
  shows "reachable sha20 (agedConn 1) ((aged_db 1)\<lparr>db_caller := Sending 1, db_openCh := k, db_opener := Dialing, db_freeConn := [c]\<rparr>)"
proof -
  let ?d = "(aged_db 1)\<lparr>db_openCh := k, db_opener := Dialing\<rparr>"
  note step = reachable.next_step [where ?sha1.0 = sha20 and conf = "agedConn 1"] and defs = aged_simps chanCap_def
  from step [OF assms pstep.get_select] have "reachable sha20 (agedConn 1) (?d\<lparr>db_caller := Selecting 10, db_freeConn := [c]\<rparr>)"
    by (simp add: defs)
  from step [OF this pstep.get_recv [where t = 9 and mc = c and rest = "[]"]]
  have "reachable sha20 (agedConn 1) (?d\<lparr>db_caller := Nobody, db_inUse := [c]\<rparr>)" by (simp add: defs)
  from step [OF this pstep.put [where us = "[]" and u = c and vs = "[]" and mc = c]]
  have "reachable sha20 (agedConn 1) (?d\<lparr>db_caller := Nobody, db_freeConn := [c]\<rparr>)" by (simp add: defs putConn_def)
  from step [OF this pstep.get_lock] show ?thesis by (simp add: defs maybeOpenNew_def)
qed

lemma full_stuck:
  assumes "db_caller m = Sending (Suc k)" and "db_opener m = Holding mc" and "chanCap m \<le> db_openCh m"
    and "chanCap m \<le> length (db_freeConn m)"
  shows "\<not> pstep sha1 m m'"
  using assms by (auto elim: pstepE)

text \<open>C17: when stores of \<open>numOpen\<close> are lost the pool can come to a stand for good. With a maximum of one and
  connections that expire, \<open>putConn\<close> drops an expired connection while the opener counts a new one; the
  pool then counts one less than are open, two callers in a row are allowed to send a token too many, and
  in the end a caller waits for room in \<open>openCh\<close> while it holds the mutex, and the opener for room in
  \<open>freeConn\<close>: no step is possible any more.\<close>

theorem pool_race_deadlock:
  "\<exists>m mc. reachable sha20 (agedConn 1) m \<and> db_caller m = Sending 1 \<and> db_opener m = Holding mc \<and> (\<forall>m'. \<not> pstep sha20 m m')"
proof -
  let ?d = "aged_db 1"
  note step = reachable.next_step [where ?sha1.0 = sha20 and conf = "agedConn 1"] and defs = aged_simps chanCap_def
  obtain c1 where
    "orderly sha20 (agedConn 1) (?d\<lparr>db_caller := Sending 0, db_opener := Dialing, db_numOpen := 1, db_freeConn := [c1]\<rparr>)"
    using second_orderly by blast
  from step [OF orderly_reachable [OF this] pstep.get_select]
  have "reachable sha20 (agedConn 1) (?d\<lparr>db_caller := Selecting 10, db_opener := Dialing, db_numOpen := 1, db_freeConn := [c1]\<rparr>)"
    by (simp add: defs)
  from step [OF this pstep.get_recv [where t = 9 and mc = c1 and rest = "[]"]]
  have r: "reachable sha20 (agedConn 1) (?d\<lparr>db_caller := Nobody, db_opener := Dialing, db_numOpen := 1, db_inUse := [c1]\<rparr>)"
    (is "reachable _ _ ?m") by (simp add: defs)
  obtain c2 where "pstep sha20 ?m (?m\<lparr>db_opener := Counting (db_numOpen ?m) c2\<rparr>)"
    using aged_dials [of ?m] by (auto simp: aged_simps)
  from step [OF r this]
  have "reachable sha20 (agedConn 1) (?d\<lparr>db_caller := Nobody, db_opener := Counting 1 c2, db_numOpen := 1, db_inUse := [c1]\<rparr>)"
    by (simp add: defs)
  from step [OF this pstep.put [where us = "[]" and u = c1 and vs = "[]" and now = "mc_createdAt c1 + 2" and mc = c1]]
  have "reachable sha20 (agedConn 1) (?d\<lparr>db_caller := Closing, db_opener := Counting 1 c2, db_numOpen := 1\<rparr>)"
    by (simp add: defs putConn_def mc_expired_def)
  from step [OF this pstep.drop_load]
  have "reachable sha20 (agedConn 1) (?d\<lparr>db_caller := Dropping 1, db_opener := Counting 1 c2, db_numOpen := 1\<rparr>)"
    by (simp add: defs)
  from step [OF this pstep.op_count]
  have "reachable sha20 (agedConn 1) (?d\<lparr>db_caller := Dropping 1, db_opener := Holding c2, db_numOpen := 2\<rparr>)"
    by (simp add: defs)
  from step [OF this pstep.drop_store]
  have "reachable sha20 (agedConn 1) (?d\<lparr>db_caller := Nobody, db_opener := Holding c2\<rparr>)"
    by (simp add: defs)
  from step [OF this pstep.op_send [where mc = c2]]
  have "reachable sha20 (agedConn 1) (?d\<lparr>db_caller := Nobody, db_freeConn := [c2]\<rparr>)" by (simp add: defs)
  from step [OF this pstep.get_lock]
  have "reachable sha20 (agedConn 1) (?d\<lparr>db_caller := Sending 1, db_freeConn := [c2]\<rparr>)"
    by (simp add: defs maybeOpenNew_def)
  from step [OF this pstep.get_send [where k = 0]]
  have "reachable sha20 (agedConn 1) (?d\<lparr>db_caller := Sending 0, db_openCh := 1, db_freeConn := [c2]\<rparr>)" by (simp add: defs)
  from step [OF this pstep.op_take]
  have "reachable sha20 (agedConn 1) (?d\<lparr>db_caller := Sending 0, db_openCh := 0, db_opener := Dialing, db_freeConn := [c2]\<rparr>)"
    by (simp add: defs)
  from aged_again [OF this]
  have "reachable sha20 (agedConn 1) (?d\<lparr>db_caller := Sending 1, db_opener := Dialing, db_freeConn := [c2]\<rparr>)"
    by (simp add: defs)
  from step [OF this pstep.get_send [where k = 0]]
  have "reachable sha20 (agedConn 1) (?d\<lparr>db_caller := Sending 0, db_openCh := 1, db_opener := Dialing, db_freeConn := [c2]\<rparr>)"
    by (simp add: defs)
  from aged_again [OF this]
  have r: "reachable sha20 (agedConn 1) (?d\<lparr>db_caller := Sending 1, db_openCh := 1, db_opener := Dialing, db_freeConn := [c2]\<rparr>)"
    (is "reachable _ _ ?m") by (simp add: defs)
  obtain c3 where "pstep sha20 ?m (?m\<lparr>db_opener := Counting (db_numOpen ?m) c3\<rparr>)"
    using aged_dials [of ?m] by (auto simp: aged_simps)
  from step [OF r this]
  have "reachable sha20 (agedConn 1) (?d\<lparr>db_caller := Sending 1, db_openCh := 1, db_opener := Counting 0 c3, db_freeConn := [c2]\<rparr>)"
    by (simp add: defs)
  from step [OF this pstep.op_count]
  have "reachable sha20 (agedConn 1)
      (?d\<lparr>db_caller := Sending 1, db_openCh := 1, db_opener := Holding c3, db_freeConn := [c2], db_numOpen := 1\<rparr>)"
    by (simp add: defs)
  moreover have "\<not> pstep sha20
      (?d\<lparr>db_caller := Sending 1, db_openCh := 1, db_opener := Holding c3, db_freeConn := [c2], db_numOpen := 1\<rparr>) m'" for m'
    by (rule full_stuck) (simp_all add: defs)
  ultimately show ?thesis by (intro exI [of _ "?d\<lparr>db_caller := Sending 1, db_openCh := 1, db_opener := Holding c3,
      db_freeConn := [c2], db_numOpen := 1\<rparr>"] exI [of _ c3]) (simp add: defs)
qed

text \<open>C18: when the opener has dialled, and the database sends a greeting that can be read and then an OK packet,
  the opener comes to hold a connection and the pool counts it, in a load and a store of its own; what has been sent is the authentication
  packet with the user, the database and the token for the greeting's salt, and the connection stands
  behind the OK packet.\<close>

theorem opener_connects:
  assumes "db_opener m = Dialing" and "\<And>x. length (sha1 x) = 20"
    and "rx s = Rd (framesOf 0 ip) None # es" "clean es" "rxData es = framesOf 2 okp @ rest" "wr s = []" "dl_err s = None"
    and "goodInit v ver cid s1 caps mid s2" "ip = initPacket v ver cid s1 filler caps mid s2 tail"
    and "length ip + 4 \<le> defaultBufSize" "length (db_user m) + length (db_db m) \<le> 4000"
    and "framable okp" "hd okp = HeaderOK"
  shows "\<exists>mc token. pstep sha1 m (m\<lparr>db_opener := Counting (db_numOpen m) mc\<rparr>) \<and>
    pstep sha1 (m\<lparr>db_opener := Counting (db_numOpen m) mc\<rparr>) (m\<lparr>db_numOpen := db_numOpen m + 1, db_opener := Holding mc\<rparr>) \<and>
    newConn sha1 now m (Inl s) None = (Ok mc, m\<lparr>db_numOpen := db_numOpen m + 1\<rparr>) \<and>
    scramblePassword sha1 (s1 @ s2) (db_passwd m) = Ok token \<and> stream (mc_buf mc) = rest \<and>
    sentBytes (mc_buf mc) =
      tx s @ framesOf 1 (authPayload (authFlags (ucast caps) (db_db m)) 33 (db_user m) token (db_db m))"
proof -
  from newConn_ok [where ?sha1.0 = sha1 and now = now, OF assms(2-13)] obtain mc token where
    n: "newConn sha1 now m (Inl s) None = (Ok mc, m\<lparr>db_numOpen := db_numOpen m + 1\<rparr>)"
    and x: "scramblePassword sha1 (s1 @ s2) (db_passwd m) = Ok token" "stream (mc_buf mc) = rest"
      "sentBytes (mc_buf mc) =
        tx s @ framesOf 1 (authPayload (authFlags (ucast caps) (db_db m)) 33 (db_user m) token (db_db m))" by blast
  from n have d: "dialConn sha1 now m (Inl s) None = Ok mc" by (simp add: newConn_Ok_iff)
  have "pstep sha1 (m\<lparr>db_opener := Counting (db_numOpen m) mc\<rparr>) (m\<lparr>db_numOpen := db_numOpen m + 1, db_opener := Holding mc\<rparr>)"
    using pstep.op_count [of "m\<lparr>db_opener := Counting (db_numOpen m) mc\<rparr>" "db_numOpen m" mc] by simp
  with pstep.op_dial [OF assms(1) d] n x show ?thesis by blast
qed

theorem opener_connects_witness:
  "\<exists>mc token. pstep (\<lambda>x. replicate 20 7) ((the_db 3)\<lparr>db_opener := Dialing\<rparr>)
      ((the_db 3)\<lparr>db_opener := Dialing, db_opener := Counting (db_numOpen ((the_db 3)\<lparr>db_opener := Dialing\<rparr>)) mc\<rparr>) \<and>
    pstep (\<lambda>x. replicate 20 7) ((the_db 3)\<lparr>db_opener := Dialing, db_opener := Counting (db_numOpen ((the_db 3)\<lparr>db_opener := Dialing\<rparr>)) mc\<rparr>)
      ((the_db 3)\<lparr>db_opener := Dialing, db_numOpen := db_numOpen ((the_db 3)\<lparr>db_opener := Dialing\<rparr>) + 1, db_opener := Holding mc\<rparr>) \<and>
    newConn (\<lambda>x. replicate 20 7) 5 ((the_db 3)\<lparr>db_opener := Dialing\<rparr>) (Inl dialed) None =
      (Ok mc, (the_db 3)\<lparr>db_opener := Dialing, db_numOpen := db_numOpen ((the_db 3)\<lparr>db_opener := Dialing\<rparr>) + 1\<rparr>) \<and>
    scramblePassword (\<lambda>x. replicate 20 7) ([1, 2, 3, 4, 5, 6, 7, 8] @ replicate 12 9)
      (db_passwd ((the_db 3)\<lparr>db_opener := Dialing\<rparr>)) = Ok token \<and>
    stream (mc_buf mc) = [] \<and>
    sentBytes (mc_buf mc) = tx dialed @ framesOf 1
      (authPayload (authFlags (ucast (0x200 :: u16)) (db_db ((the_db 3)\<lparr>db_opener := Dialing\<rparr>))) 33
        (db_user ((the_db 3)\<lparr>db_opener := Dialing\<rparr>)) token (db_db ((the_db 3)\<lparr>db_opener := Dialing\<rparr>)))"
  by (rule opener_connects [where okp = "[0, 0, 0, 2, 0]" and es = "[Rd (framesOf 2 [0, 0, 0, 2, 0]) None]"
        and filler = 0 and tail = "[0]", OF _ _ _ _ _ _ _ dialed_goodInit refl])
    (simp_all add: dialed_def the_db_def initPacket_def putUint16_def framable_def MaxPacketSize_val
      defaultBufSize_def HeaderOK_def)

text \<open>C15: the pool can have more connections open than its maximum: with a maximum of one, a caller that asks
  while the first connection is still being made sends a second token, and the opener makes a second
  connection.\<close>

theorem pool_exceeds_maximum:
  "\<exists>m. reachable (\<lambda>x. replicate 20 7) oneConn m \<and> db_maxOpen m = 1 \<and> db_numOpen m = 2"
proof -
  obtain mc where
    "orderly sha20 oneConn ((the_db 1)\<lparr>db_caller := Sending 0, db_opener := Dialing, db_numOpen := 1, db_freeConn := [mc]\<rparr>)"
    (is "orderly _ _ ?m") using second_orderly [of 0] by auto
  then have r: "reachable sha20 oneConn ?m" by (rule orderly_reachable)
  obtain mc2 where "pstep sha20 ?m (?m\<lparr>db_opener := Counting (db_numOpen ?m) mc2\<rparr>)"
    using aged_dials [of ?m] by (auto simp: the_db_def)
  from reachable.next_step [OF reachable.next_step [OF r this] pstep.op_count]
  have "reachable sha20 oneConn (?m\<lparr>db_numOpen := 2, db_opener := Holding mc2\<rparr>)" by simp
  then show ?thesis by (intro exI [of _ "?m\<lparr>db_numOpen := 2, db_opener := Holding mc2\<rparr>"]) (simp add: the_db_def)
qed

end
