(* ===== verification/Server_Count.thy ===== *)
theory Server_Count
  imports Go_Prelude
begin

text \<open>
  \<^verbatim>\<open>server/count.go\<close> and the accept loop of \<^verbatim>\<open>server/server.go\<close>: the counter that limits the clients.
  The interface \<^verbatim>\<open>Counter\<close> is a locale with the laws the server relies on; the two counters of the
  program are its instances, with different limits.
\<close>

section \<open>The counters\<close>

definition defaultMax :: int where "defaultMax = 1024"

text \<open>A channel of empty structs: how many are in it, and its capacity.\<close>

record ChanCount =
  cc_max :: int
  cc_ch :: "(nat \<times> nat) option"

definition ChanCount_SetMax :: "int \<Rightarrow> ChanCount \<Rightarrow> ChanCount" where
  "ChanCount_SetMax m c =
     (let m = (if m \<le> 0 then defaultMax else m);
          c = c\<lparr>cc_max := m\<rparr>
      in if cc_ch c = None then c\<lparr>cc_ch := Some (0, nat (cc_max c))\<rparr> else c)"

text \<open>A send to a nil channel is never ready, so the \<^verbatim>\<open>select\<close> takes its default.\<close>

definition ChanCount_Incr :: "ChanCount \<Rightarrow> bool \<times> ChanCount" where
  "ChanCount_Incr c =
     (case cc_ch c of
        Some (n, cap) \<Rightarrow> if n < cap then (True, c\<lparr>cc_ch := Some (n + 1, cap)\<rparr>) else (False, c)
      | None \<Rightarrow> (False, c))"

text \<open>A receive from an empty or a nil channel blocks: \<open>None\<close>.\<close>

definition ChanCount_Decr :: "ChanCount \<Rightarrow> ChanCount option" where
  "ChanCount_Decr c =
     (case cc_ch c of
        Some (n, cap) \<Rightarrow> if 0 < n then Some (c\<lparr>cc_ch := Some (n - 1, cap)\<rparr>) else None
      | None \<Rightarrow> None)"

definition ChanCount_Size :: "ChanCount \<Rightarrow> int" where
  "ChanCount_Size c = (case cc_ch c of Some (n, cap) \<Rightarrow> int n | None \<Rightarrow> 0)"

record IntCount =
  ic_max :: int
  ic_cur :: int

definition IntCount_SetMax :: "int \<Rightarrow> IntCount \<Rightarrow> IntCount" where
  "IntCount_SetMax m c = c\<lparr>ic_max := m\<rparr>"

definition IntCount_Incr :: "IntCount \<Rightarrow> bool \<times> IntCount" where
  "IntCount_Incr c =
     (if ic_max c < ic_cur c then (False, c) else (True, c\<lparr>ic_cur := wrap64 (ic_cur c + 1)\<rparr>))"

definition IntCount_Decr :: "IntCount \<Rightarrow> IntCount option" where
  "IntCount_Decr c = Some (c\<lparr>ic_cur := wrap64 (ic_cur c - 1)\<rparr>)"

definition IntCount_Size :: "IntCount \<Rightarrow> int" where
  "IntCount_Size c = ic_cur c"

section \<open>The interface\<close>

text \<open>A client arrives or leaves.\<close>

datatype event = Arrive | Leave

locale counter =
  fixes incr :: "'s \<Rightarrow> bool \<times> 's"
    and decr :: "'s \<Rightarrow> 's option"
    and sz :: "'s \<Rightarrow> int"
    and limit :: "'s \<Rightarrow> int"
    and good :: "'s \<Rightarrow> bool"
  assumes size_range: "good s \<Longrightarrow> 0 \<le> sz s \<and> sz s \<le> limit s"
    and incr_full: "good s \<Longrightarrow> \<not> sz s < limit s \<Longrightarrow> incr s = (False, s)"
    and incr_room: "good s \<Longrightarrow> sz s < limit s \<Longrightarrow>
      \<exists>s'. incr s = (True, s') \<and> sz s' = sz s + 1 \<and> limit s' = limit s \<and> good s'"
    and decr_law: "good s \<Longrightarrow> 0 < sz s \<Longrightarrow>
      \<exists>s'. decr s = Some s' \<and> sz s' = sz s - 1 \<and> limit s' = limit s \<and> good s'"
begin

text \<open>
  The server's use of it: an arriving client is admitted when \<open>incr\<close> says so and turned away
  otherwise; an admitted client leaves once. \<open>live\<close> counts the admitted clients.
\<close>

fun serve :: "'s \<Rightarrow> nat \<Rightarrow> event list \<Rightarrow> ('s \<times> nat) option" where
  "serve s live [] = Some (s, live)"
| "serve s live (Arrive # es) =
     (case incr s of (ok, s) \<Rightarrow> serve s (if ok then live + 1 else live) es)"
| "serve s live (Leave # es) =
     (if live = 0 then serve s live es
      else (case decr s of Some s \<Rightarrow> serve s (live - 1) es | None \<Rightarrow> None))"

lemma serve_counts:
  assumes "good s" and "sz s = int live"
  shows "\<exists>s' live'. serve s live es = Some (s', live') \<and> good s' \<and> sz s' = int live' \<and>
    limit s' = limit s \<and> int live' \<le> limit s"
  using assms
proof (induction es arbitrary: s live)
  case Nil
  then show ?case using size_range [of s] by auto
next
  case (Cons e es)
  show ?case
  proof (cases e)
    case Arrive
    show ?thesis
    proof (cases "sz s < limit s")
      case True
      from incr_room [OF Cons.prems(1) this] obtain s1 where
        "incr s = (True, s1)" "sz s1 = sz s + 1" "limit s1 = limit s" "good s1" by blast
      with Cons.IH [of s1 "live + 1"] Cons.prems Arrive show ?thesis by auto
    next
      case False
      with incr_full [OF Cons.prems(1)] Cons.IH [OF Cons.prems] Arrive show ?thesis by simp
    qed
  next
    case Leave
    show ?thesis
    proof (cases "live = 0")
      case True
      with Cons.IH [OF Cons.prems] Leave show ?thesis by simp
    next
      case False
      with decr_law [OF Cons.prems(1)] Cons.prems(2) obtain s1 where
        "decr s = Some s1" "sz s1 = sz s - 1" "limit s1 = limit s" "good s1" by auto
      with Cons.IH [of s1 "live - 1"] Cons.prems False Leave show ?thesis by (auto simp: of_nat_diff)
    qed
  qed
qed

lemma serve_fill:
  "good s \<Longrightarrow> sz s + int k \<le> limit s \<Longrightarrow> \<exists>s'. serve s live (replicate k Arrive) = Some (s', live + k)"
proof (induction k arbitrary: s live)
  case (Suc k)
  then have "sz s < limit s" by simp
  from incr_room [OF Suc.prems(1) this] obtain s1 where
    "incr s = (True, s1)" "sz s1 = sz s + 1" "limit s1 = limit s" "good s1" by blast
  with Suc.IH [of s1 "live + 1"] Suc.prems show ?case by auto
qed simp

end

section \<open>The instances\<close>

definition cc_cap :: "ChanCount \<Rightarrow> int" where
  "cc_cap c = (case cc_ch c of Some (n, cap) \<Rightarrow> int cap | None \<Rightarrow> 0)"

definition cc_good :: "ChanCount \<Rightarrow> bool" where
  "cc_good c \<longleftrightarrow> (case cc_ch c of Some (n, cap) \<Rightarrow> n \<le> cap | None \<Rightarrow> True)"

interpretation chan_count: counter ChanCount_Incr ChanCount_Decr ChanCount_Size cc_cap cc_good
  by unfold_locales
    (auto simp: ChanCount_Incr_def ChanCount_Decr_def ChanCount_Size_def cc_cap_def cc_good_def of_nat_diff
      split: option.splits prod.splits)

definition ic_limit :: "IntCount \<Rightarrow> int" where
  "ic_limit c = ic_max c + 1"

definition ic_good :: "IntCount \<Rightarrow> bool" where
  "ic_good c \<longleftrightarrow> 0 \<le> ic_cur c \<and> ic_cur c \<le> ic_max c + 1 \<and> ic_max c < 2 ^ 63 - 2"

interpretation int_count: counter IntCount_Incr IntCount_Decr IntCount_Size ic_limit ic_good
  by unfold_locales
    (auto simp: IntCount_Incr_def IntCount_Decr_def IntCount_Size_def ic_limit_def ic_good_def wrap64_id)

text \<open>A new counter with a maximum: what \<open>NewServer\<close> makes.\<close>

definition newChanCount :: "int \<Rightarrow> ChanCount" where
  "newChanCount m = ChanCount_SetMax m \<lparr>cc_max = 0, cc_ch = None\<rparr>"

lemma newChanCount_good: "cc_good (newChanCount m)" "ChanCount_Size (newChanCount m) = 0"
  "cc_cap (newChanCount m) = (if m \<le> 0 then 1024 else m)"
  by (simp_all add: newChanCount_def ChanCount_SetMax_def cc_good_def ChanCount_Size_def cc_cap_def
      Let_def defaultMax_def)

section \<open>Properties\<close>

text \<open>C25: the counter built on a channel is exact: whatever comes and goes, its size is the number of those
  let in, never above the maximum (1024 when none is set), and the maximum can be reached.\<close>

theorem chan_count_exact:
  "(\<exists>c live. counter.serve ChanCount_Incr ChanCount_Decr (newChanCount m) 0 es = Some (c, live) \<and>
      ChanCount_Size c = int live \<and> int live \<le> (if m \<le> 0 then 1024 else m)) \<and>
   (\<exists>c. counter.serve ChanCount_Incr ChanCount_Decr (newChanCount m) 0
      (replicate (nat (if m \<le> 0 then 1024 else m)) Arrive) = Some (c, nat (if m \<le> 0 then 1024 else m)))"
  using chan_count.serve_counts [of "newChanCount m" 0 es]
    chan_count.serve_fill [of "newChanCount m" "nat (if m \<le> 0 then 1024 else m)" 0]
  by (auto simp: newChanCount_good)

text \<open>The counter built on an integer lets in one more than the maximum: it refuses only when the count is
  already above it.\<close>

lemma int_count_one_more:
  assumes "0 \<le> m" and "m < 2 ^ 63 - 2"
  shows "(\<exists>c live. counter.serve IntCount_Incr IntCount_Decr (IntCount_SetMax m \<lparr>ic_max = 0, ic_cur = 0\<rparr>) 0 es = Some (c, live) \<and>
      IntCount_Size c = int live \<and> int live \<le> m + 1) \<and>
    (\<exists>c. counter.serve IntCount_Incr IntCount_Decr (IntCount_SetMax m \<lparr>ic_max = 0, ic_cur = 0\<rparr>) 0
      (replicate (nat (m + 1)) Arrive) = Some (c, nat (m + 1)))"
proof -
  let ?c = "IntCount_SetMax m \<lparr>ic_max = 0, ic_cur = 0\<rparr>"
  have c: "ic_good ?c" "IntCount_Size ?c = 0" "ic_limit ?c = m + 1"
    using assms by (simp_all add: IntCount_SetMax_def ic_good_def IntCount_Size_def ic_limit_def)
  show ?thesis
    using int_count.serve_counts [OF c(1), of 0 es] int_count.serve_fill [OF c(1), of "nat (m + 1)" 0] c assms
    by auto
qed

lemma int_count_one_more_witness:
  "(\<exists>c live. counter.serve IntCount_Incr IntCount_Decr (IntCount_SetMax 1 \<lparr>ic_max = 0, ic_cur = 0\<rparr>) 0 [Arrive, Leave] = Some (c, live) \<and>
      IntCount_Size c = int live \<and> int live \<le> 1 + 1) \<and>
    (\<exists>c. counter.serve IntCount_Incr IntCount_Decr (IntCount_SetMax 1 \<lparr>ic_max = 0, ic_cur = 0\<rparr>) 0
      (replicate (nat (1 + 1)) Arrive) = Some (c, nat (1 + 1)))"
  by (rule int_count_one_more) simp_all

text \<open>setting the maximum of the channel counter again is reported by nothing and enforced by nothing: the
  channel keeps its first capacity and its members.\<close>

lemma chan_count_set_again:
  assumes "cc_ch c \<noteq> None"
  shows "cc_cap (ChanCount_SetMax m c) = cc_cap c \<and> ChanCount_Size (ChanCount_SetMax m c) = ChanCount_Size c \<and>
    fst (ChanCount_Incr (ChanCount_SetMax m c)) = fst (ChanCount_Incr c)"
  using assms
  by (auto simp: ChanCount_SetMax_def cc_cap_def ChanCount_Size_def ChanCount_Incr_def Let_def split: option.split)

lemma chan_count_set_again_witness:
  "cc_cap (ChanCount_SetMax 9 (newChanCount 1)) = cc_cap (newChanCount 1) \<and>
    ChanCount_Size (ChanCount_SetMax 9 (newChanCount 1)) = ChanCount_Size (newChanCount 1) \<and>
    fst (ChanCount_Incr (ChanCount_SetMax 9 (newChanCount 1))) = fst (ChanCount_Incr (newChanCount 1))"
  by (rule chan_count_set_again) (simp add: newChanCount_def ChanCount_SetMax_def Let_def)

end
