(* ===== verification/Server_Session.thy ===== *)
theory Server_Session
  imports Server_Client Server_Pool Server_Count
begin

text \<open>
  \<^verbatim>\<open>server/server.go\<close>: what one client's goroutine does from the handshake to the end
  (\<open>handleClient\<close>), and how the commands behave on the paths that are not a successful query: what
  is refused, what panics, what a broken database connection does to the session and to the pool.
\<close>

section \<open>The session\<close>

text \<open>\<open>Running\<close>: the list of connections the pool hands out ended before the session did.\<close>

datatype session_end = Closed | Failed gerror | Panicked | Spinning | Running

text \<open>The loop of \<open>handleClient\<close>; \<open>dbs\<close> gives what \<open>GetDB\<close> and \<open>getConn\<close> return, one entry for each
  command, and the last component collects what the handlers put back.\<close>

fun acceptLoop :: "Client \<Rightarrow> db_result list \<Rightarrow> session_end \<times> Client \<times> mysqlConn list" where
  "acceptLoop c [] = (Running, c, [])"
| "acceptLoop c (db # dbs) =
     (case client_Accept c db of
        (r, c, back) \<Rightarrow>
          (let backs = (case back of Some mc \<Rightarrow> [mc] | None \<Rightarrow> []) in
           case r of
             Ok _ \<Rightarrow>
               if c_die c then (Closed, c, backs)
               else (case acceptLoop c dbs of (e, c, later) \<Rightarrow> (e, c, backs @ later))
           | Err e \<Rightarrow> (Failed e, c, backs)
           | Panic \<Rightarrow> (Panicked, c, backs)
           | Spin \<Rightarrow> (Spinning, c, backs)))"

definition handleClient ::
  "(gerror \<Rightarrow> byte list) \<Rightarrow> Client \<Rightarrow> db_result list \<Rightarrow> session_end \<times> Client \<times> mysqlConn list" where
  "handleClient osText c dbs =
     (case Handshake osText c of
        (Ok _, c) \<Rightarrow> acceptLoop c dbs
      | (Err e, c) \<Rightarrow> (Failed e, c, [])
      | (Panic, c) \<Rightarrow> (Panicked, c, [])
      | (Spin, c) \<Rightarrow> (Spinning, c, []))"

section \<open>Commands\<close>

text \<open>The commands that are dispatched.\<close>

definition supported :: "com list" where
  "supported = [ComQuit, ComQuery, ComInitDB, ComFieldList, ComStmtPrepare, ComStmtExecute, ComStmtClose]"

lemma com_byte_inj: "com_byte a = com_byte b \<longleftrightarrow> a = b"
  by (cases a; cases b) simp_all

text \<open>A command that is none of the seven handled ones, \<^verbatim>\<open>COM_PING\<close> among them, is an error that ends the
  session; nothing is written to the client, whose state is as before.\<close>

lemma dispatch_unsupported:
  assumes "vis data = cmd # arg" and "cmd \<notin> com_byte ` set supported"
  shows "dispatch c db data = (Err (UnsupportedCmd cmd (cmd # arg)), c, None)"
  using assms idxAt_hd [OF assms(1)] by (simp add: dispatch_def supported_def)

lemma dispatch_unsupported_witness:
  "dispatch (idleClient []) None (slice (com_byte ComPing # [])) =
    (Err (UnsupportedCmd (com_byte ComPing) (com_byte ComPing # [])), idleClient [], None)"
  by (rule dispatch_unsupported) (simp_all add: supported_def)

lemma dispatch_empty: "vis data = [] \<Longrightarrow> dispatch c db data = (Panic, c, None)"
  by (simp add: dispatch_def idxAt_def len_def)

text \<open>A packet without payload is no error for \<open>readPacket\<close>, and \<open>dispatch\<close> indexes into it.\<close>

lemma client_readPacket_empty:
  assumes "conn_good (c_buf c)" and "stream (c_buf c) = framesOf (c_sequence c) [] @ rest" and "\<not> c_die c"
  shows "\<exists>c'. client_readPacket c = (Ok (slice []), c') \<and> c_die c'"
proof -
  have "readable (c_buf c)" using assms(1) by (simp add: conn_good_def)
  from readPacketLoop_empty [OF this assms(2), of None] obtain b where
    "readPacketLoop (c_buf c) (c_sequence c) None = (Inl EmptyPacket, b, c_sequence c)" by blast
  then show ?thesis using assms(3) by (simp add: client_readPacket_def client_close_def Let_def)
qed

text \<open>C22: an empty packet from the client makes \<^verbatim>\<open>Accept\<close> panic, with or without a database: the reader returns no
  bytes and no error, and \<^verbatim>\<open>dispatch\<close> takes the first byte.\<close>

theorem client_Accept_empty:
  assumes "conn_good (c_buf c)" and "stream (c_buf c) = framesOf (c_sequence c) [] @ rest" and "\<not> c_die c"
  shows "fst (client_Accept c db) = Panic"
  using client_readPacket_empty [OF assms] dispatch_empty [of "slice []"] by (auto simp: client_Accept_def)

theorem client_Accept_empty_witness:
  "fst (client_Accept (idleClient [Rd [0, 0] None, Rd [0, 0] None]) None) = Panic"
  by (rule client_Accept_empty [where rest = "[]"]) (simp_all add: framesOf.simps [of _ "[]"] MaxPacketSize_val byteAt_def)

lemma client_Accept_quit:
  assumes "conn_good (c_buf c)" and "stream (c_buf c) = framesOf (c_sequence c) [com_byte ComQuit] @ rest"
    and "\<not> c_die c"
  shows "\<exists>c'. client_Accept c db = (Ok (), c', None) \<and> c_die c' \<and> sentBytes (c_buf c') = sentBytes (c_buf c)"
proof -
  have "framable [com_byte ComQuit]" by (intro framable_short) (simp_all add: MaxPacketSize_def)
  from client_readPacket_frames [OF assms(1,2) this] obtain d c1 where
    r: "client_readPacket c = (Ok d, c1)" "vis d = [com_byte ComQuit]" "sentBytes (c_buf c1) = sentBytes (c_buf c)"
    "c1 = c\<lparr>c_buf := c_buf c1, c_sequence := c_sequence c1\<rparr>" .
  have "\<not> c_die c1" using assms(3) by (subst r(4)) simp
  moreover have "idxAt d 0 = Ok (com_byte ComQuit)" using idxAt_hd [OF r(2)] by simp
  ultimately have "dispatch c1 db d = (Ok (), c1\<lparr>c_die := True\<rparr>, None)"
    by (simp add: dispatch_def handleQuit_def client_close_def)
  with r(1,3) show ?thesis by (simp add: client_Accept_def)
qed

text \<open>Selecting a database: the first three bytes of the name are dropped, and the command goes out
  with the letter \<open>u\<close> (117) where the command byte belongs.\<close>

lemma handleUseDB_name:
  assumes "vis data = com_byte ComInitDB # name" and "3 \<le> length name"
  shows "handleUseDB c db data = useDB c db (drop 3 name)"
proof -
  obtain x y z r where "name = x # y # z # r" using assms(2)
    by (metis (no_types, opaque_lifting) Suc_le_length_iff numeral_3_eq_3)
  with assms gfrom_in [of 4 data] show ?thesis by (simp add: handleUseDB_def)
qed

lemma handleUseDB_short:
  assumes "vis data = com_byte ComInitDB # name" and "length name < 3"
  shows "handleUseDB c db data = (Panic, c, None)"
  using assms by (simp add: handleUseDB_def gfrom_def len_def)

lemma useDB_answered:
  assumes c: "client_ready c" and ready: "mc_ready mc" and m: "int (length name) + 4 \<le> mc_maxPacketAllowed mc"
    and strict: "\<not> mc_strict mc" and p: "p = okPacket rows ins st extra" "length p < MaxPacketSize"
    and small: "int (length p) \<le> c_maxPacketAllowed c"
    and br: "brings (mc_buf mc) (framesOf (seqAfter 0 (str ''use '' @ name)) p) es"
  shows "\<exists>c' mc'. useDB c (Some (Some mc)) name = (Ok (), c', Some mc') \<and>
    c_dbname c' = str ''use '' @ name \<and>
    sentBytes (mc_buf mc') = sentBytes (mc_buf mc) @ framesOf 0 (0x75 # str ''se '' @ name) \<and>
    sentBytes (c_buf c') = sentBytes (c_buf c) @ framesOf (c_sequence c) p"
proof -
  let ?d = "slice (str ''use '' @ name)"
  have v: "vis ?d = 0x75 # str ''se '' @ name" by (simp add: str_def)
  have l: "int (length (str ''se '' @ name)) + 1 \<le> mc_maxPacketAllowed mc" using m by simp
  have u: "0x75 # str ''se '' @ name = str ''use '' @ name" by (simp add: str_def)
  have br': "brings (mc_buf mc) (framesOf (seqAfter 0 (0x75 # str ''se '' @ name)) p) es"
    using br by (simp only: u)
  from mc_Exec_ok_whole [OF ready v l p(1) [unfolded okPacket_def] p(2) strict br'] obtain d mc' where
    q: "mc_Query mc ?d = (Ok [d], mc')" "deref (mc_buf mc') d = p"
    "sentBytes (mc_buf mc') = sentBytes (mc_buf mc) @ framesOf 0 (0x75 # str ''se '' @ name)" by blast
  from forward_sends [OF c, of "[p]" mc' "[d]"] small q(2) obtain c' where
    "forward [d] (c, mc') = (Ok (), c', mc')"
    "sentBytes (c_buf c') = sentBytes (c_buf c) @ framesOf (c_sequence c) p" by auto
  with q show ?thesis by (simp add: useDB_def withDB_def onConn_def Let_def)
qed

lemma handlestmtExec_error:
  assumes "c_stmt c = Some stmt" and "st_mc stmt = Some mc" and "stmt_Query stmt data = (Err e, stmt')"
  shows "handlestmtExec c data = (Ok (), c\<lparr>c_stmt := Some stmt', c_sequence := 0\<rparr>, None)"
  using assms by (simp add: handlestmtExec_def writeResultPackets_def Let_def)

text \<open>Closing a statement: without one it panics, with another one's id it is refused, else the
  database is told and the statement is gone.\<close>

lemma stmt_id_read:
  assumes "vis data = com_byte ComStmtClose # putUint32 n @ extra"
  shows "bindR (gfrom data 1) (\<lambda>d. leUint32 (vis d)) = Ok n"
  using gfrom_in [of 1 data] assms by (simp add: leUint32_put)

lemma handleStmtClose_none:
  assumes "vis data = com_byte ComStmtClose # putUint32 n @ extra" and "c_stmt c = None"
  shows "handleStmtClose c data = (Panic, c, None)"
  using stmt_id_read [OF assms(1)] assms(2) by (simp add: handleStmtClose_def)

lemma handleStmtClose_other:
  assumes "vis data = com_byte ComStmtClose # putUint32 n @ extra" and "c_stmt c = Some stmt" and "n \<noteq> st_id stmt"
  shows "handleStmtClose c data =
    (Err (SqlErr (NewErr ErrUnknownStmtHandler [IntArg ''uint32'' (uint n)])), c, None)"
  using stmt_id_read [OF assms(1)] assms(2,3) by (simp add: handleStmtClose_def)

lemma stmt_Close_sends:
  assumes "st_mc stmt = Some mc" and "mc_ready mc" and "5 \<le> mc_maxPacketAllowed mc"
  shows "\<exists>mc'. stmt_Close stmt = (Ok (), stmt\<lparr>st_mc := None\<rparr>, Some mc') \<and>
    sentBytes (mc_buf mc') = sentBytes (mc_buf mc) @ framesOf 0 (com_byte ComStmtClose # putUint32 (st_id stmt))"
proof -
  from assms(2) have "b_nc (mc_buf mc) \<noteq> None" by (auto simp: mc_ready_def conn_good_def)
  with writeCommandPacketUint32_sends [OF assms(2,3), of "com_byte ComStmtClose" "st_id stmt"] assms(1)
  show ?thesis by (auto simp: stmt_Close_def)
qed

lemma handleStmtClose_own:
  assumes "vis data = com_byte ComStmtClose # putUint32 n @ extra" and "c_stmt c = Some stmt" and "n = st_id stmt"
    and "st_mc stmt = Some mc" and "mc_ready mc" and "5 \<le> mc_maxPacketAllowed mc"
  shows "handleStmtClose c data = (Ok (), c\<lparr>c_stmt := None\<rparr>, None)"
  using stmt_id_read [OF assms(1)] assms(2,3) stmt_Close_sends [OF assms(4-6)]
  by (auto simp: handleStmtClose_def)

section \<open>A connection that broke\<close>

definition broken :: "mysqlConn \<Rightarrow> bool" where
  "broken mc \<longleftrightarrow> b_nc (mc_buf mc) = None \<and> b_len (mc_buf mc) = 0 \<and> wf_buffer (mc_buf mc)"

text \<open>When the database has closed its end, the command fails and leaves a connection without socket.\<close>

lemma mc_readPacket_eof:
  assumes g: "conn_good (mc_buf mc)" and z: "b_len (mc_buf mc) = 0" and st: "stream (mc_buf mc) = []"
  shows "\<exists>mc'. mc_readPacket mc = (Err DriverBadConn, mc') \<and> broken mc' \<and>
    mc_maxPacketAllowed mc' = mc_maxPacketAllowed mc"
proof -
  from g have r: "readable (mc_buf mc)" by (simp add: conn_good_def)
  then obtain b where f: "fill (mc_buf mc) 4 = (Err UnexpectedEOF, b)" "wf_buffer b"
    using fill_short [OF r, of 4] st z by auto
  have "b_len b = b_len (mc_buf mc)"
    using f(1) by (auto simp: fill_def Let_def split: option.splits prod.splits res.splits)
  then have b: "b_len b = 0" using z by simp
  have "readNext (mc_buf mc) 4 = (Err UnexpectedEOF, b)" using f(1) z by (simp add: readNext_def)
  then have "readPacketLoop (mc_buf mc) (mc_sequence mc) None = (Inl (HeaderErr UnexpectedEOF), b, mc_sequence mc)"
    by (subst readPacketLoop.simps) simp
  then have "mc_readPacket mc = (Err DriverBadConn, mc_Close (mc\<lparr>mc_buf := b, mc_sequence := mc_sequence mc\<rparr>))"
    by (simp add: mc_readPacket_def Let_def)
  moreover have "broken (mc_Close (mc\<lparr>mc_buf := b, mc_sequence := mc_sequence mc\<rparr>))"
    using b f(2) by (simp add: broken_def mc_Close_def wf_nc)
  ultimately show ?thesis by (simp add: mc_Close_def)
qed

lemma mc_Exec_eof:
  assumes ready: "mc_ready mc" and st: "stream (mc_buf mc) = []"
    and arg: "vis data = c # arg" "int (length arg) + 1 \<le> mc_maxPacketAllowed mc"
  shows "\<exists>mc'. mc_Exec mc data = (Err DriverBadConn, mc') \<and> broken mc' \<and>
    mc_maxPacketAllowed mc' = mc_maxPacketAllowed mc"
proof -
  from writeCommandPacketStr_sends [OF ready arg(2), of c] obtain m1 where
    w: "writeCommandPacketStr mc c arg = (Ok (), m1)" "stream (mc_buf m1) = stream (mc_buf mc)" "mc_ready m1"
    "m1 = mc\<lparr>mc_buf := mc_buf m1, mc_sequence := mc_sequence m1\<rparr>" by blast
  then have "conn_good (mc_buf m1)" "b_len (mc_buf m1) = 0" "stream (mc_buf m1) = []"
    using st by (simp_all add: mc_ready_def)
  from mc_readPacket_eof [OF this] obtain mc' where
    r: "mc_readPacket m1 = (Err DriverBadConn, mc')" "broken mc'" "mc_maxPacketAllowed mc' = mc_maxPacketAllowed m1"
    by blast
  have "mc_maxPacketAllowed m1 = mc_maxPacketAllowed mc" by (subst w(4)) simp
  moreover obtain a where "gfrom data 1 = Ok a" "vis a = arg" using gfrom_in [of 1 data] arg(1) by simp
  ultimately show ?thesis using w(1) r idxAt_hd [OF arg(1)]
    by (simp add: mc_Exec_def readResultSetHeaderPacket_def)
qed

text \<open>A command on a connection without socket panics, and the connection stays as it is.\<close>

lemma mc_Exec_broken:
  assumes b: "broken mc" and arg: "vis data = c # arg" "int (length arg) + 1 \<le> mc_maxPacketAllowed mc"
  shows "\<exists>mc'. mc_Exec mc data = (Panic, mc') \<and> broken mc' \<and> mc_maxPacketAllowed mc' = mc_maxPacketAllowed mc"
proof -
  from b have wf: "wf_buffer (mc_buf mc)" "b_len (mc_buf mc) = 0" "b_nc (mc_buf mc) = None"
    by (simp_all add: broken_def)
  from takeBuffer_fits [OF wf(1,2), of "1 + length arg + 4"] obtain dt own b1 where
    t: "takeBuffer (mc_buf mc) (1 + length arg + 4) = (Ok (Some (dt, own)), b1)" "length dt = 1 + length arg + 4"
    "wf_buffer b1" "b_len b1 = 0" "b_nc b1 = b_nc (mc_buf mc)" by blast
  let ?dt = "copyAt (dt[4 := c]) 5 arg"
  let ?m = "mc\<lparr>mc_sequence := 0, mc_buf := writeBack own ?dt b1\<rparr>"
  have "writeCommandPacketStr mc c arg = mc_writePacket ?m (?dt, own)"
    using t(1) by (simp add: writeCommandPacketStr_def sendTaken_def Let_def)
  also have "\<dots> = (Panic, ?m)"
    using t(2,5) wf(3) arg(2) by (simp add: mc_writePacket_def sendPacket_def)
  finally have "writeCommandPacketStr mc c arg = (Panic, ?m)" .
  moreover obtain a where "gfrom data 1 = Ok a" "vis a = arg" using gfrom_in [of 1 data] arg(1) by simp
  moreover have "broken ?m" using t(3-5) wf(3) by (simp add: broken_def)
  ultimately show ?thesis using idxAt_hd [OF arg(1)] by (simp add: mc_Exec_def)
qed

lemma handleQuery_eof:
  assumes "mc_ready mc" and "stream (mc_buf mc) = []" and "int (length (c_dbname c)) + 1 \<le> mc_maxPacketAllowed mc"
  shows "\<exists>mc'. handleQuery c (Some (Some mc)) data = (Err DriverBadConn, c, Some mc') \<and> broken mc' \<and>
    mc_maxPacketAllowed mc' = mc_maxPacketAllowed mc"
proof -
  have "vis (useCmd c) = com_byte ComInitDB # c_dbname c" by (simp add: useCmd_def)
  from mc_Exec_eof [OF assms(1,2) this assms(3)] show ?thesis
    by (auto simp: handleQuery_def withDB_def onConn_def)
qed

lemma handleQuery_broken:
  assumes "broken mc" and "int (length (c_dbname c)) + 1 \<le> mc_maxPacketAllowed mc"
  shows "\<exists>mc'. handleQuery c (Some (Some mc)) data = (Panic, c, Some mc') \<and> broken mc' \<and>
    mc_maxPacketAllowed mc' = mc_maxPacketAllowed mc"
proof -
  have "vis (useCmd c) = com_byte ComInitDB # c_dbname c" by (simp add: useCmd_def)
  from mc_Exec_broken [OF assms(1) this assms(2)] show ?thesis
    by (auto simp: handleQuery_def withDB_def onConn_def)
qed

section \<open>Properties\<close>

text \<open>C23: a client that selects a database gets the database's OK, but not its database: three bytes of the
  name are lost, the command goes out with the letter \<open>u\<close> in the place of the command byte, and the name
  that is remembered begins with \<open>use\<close>.\<close>

theorem initDB_wrong_command:
  assumes "vis data = com_byte ComInitDB # name" and "3 \<le> length name"
    and "client_ready c" and "mc_ready mc" and "int (length name) + 1 \<le> mc_maxPacketAllowed mc"
    and "\<not> mc_strict mc" and "p = okPacket rows ins st extra" and "length p < MaxPacketSize"
    and "int (length p) \<le> c_maxPacketAllowed c"
    and "brings (mc_buf mc) (framesOf (seqAfter 0 (str ''use '' @ drop 3 name)) p) es"
  shows "\<exists>c' mc'. dispatch c (Some (Some mc)) data = (Ok (), c', Some mc') \<and>
    c_dbname c' = str ''use '' @ drop 3 name \<and>
    sentBytes (mc_buf mc') = sentBytes (mc_buf mc) @ framesOf 0 (0x75 # str ''se '' @ drop 3 name) \<and>
    sentBytes (c_buf c') = sentBytes (c_buf c) @ framesOf (c_sequence c) p"
proof -
  have "dispatch c (Some (Some mc)) data = useDB c (Some (Some mc)) (drop 3 name)"
    using handleUseDB_name [OF assms(1,2)] idxAt_hd [OF assms(1)] by (simp add: dispatch_def)
  with useDB_answered [OF assms(3,4) _ assms(6-10)] assms(2,5) show ?thesis by simp
qed

theorem initDB_wrong_command_witness:
  "\<exists>c' mc'. dispatch (idleClient []) (Some (Some (idleConn [Rd (framesOf 1 (okPacket 0 0 2 [])) None])))
      (slice (com_byte ComInitDB # str ''test'')) = (Ok (), c', Some mc') \<and>
    c_dbname c' = str ''use '' @ drop 3 (str ''test'') \<and>
    sentBytes (mc_buf mc') = sentBytes (mc_buf (idleConn [Rd (framesOf 1 (okPacket 0 0 2 [])) None])) @
      framesOf 0 (0x75 # str ''se '' @ drop 3 (str ''test'')) \<and>
    sentBytes (c_buf c') = sentBytes (c_buf (idleClient [])) @ framesOf (c_sequence (idleClient [])) (okPacket 0 0 2 [])"
  by (rule initDB_wrong_command)
    (simp_all add: client_ready_def okPacket_def lenEncSize_def putUint16_def MaxPacketSize_val defaultBufSize_def
      seqAfter_def)

text \<open>Closing a statement that the client does not have: a panic when it has none at all, and an error when
  it has another one; nothing is sent to the database, and the client keeps its statement.\<close>

lemma stmtClose_unknown:
  assumes "vis data = com_byte ComStmtClose # putUint32 n @ extra" and "\<forall>stmt. c_stmt c = Some stmt \<longrightarrow> n \<noteq> st_id stmt"
  shows "dispatch c db data =
    (case c_stmt c of
       None \<Rightarrow> (Panic, c, None)
     | Some stmt \<Rightarrow> (Err (SqlErr (NewErr ErrUnknownStmtHandler [IntArg ''uint32'' (uint n)])), c, None))"
proof -
  have "dispatch c db data = handleStmtClose c data"
    using idxAt_hd [OF assms(1)] by (simp add: dispatch_def)
  then show ?thesis
    using handleStmtClose_none [OF assms(1)] handleStmtClose_other [OF assms(1)] assms(2)
    by (simp split: option.split)
qed

lemma stmtClose_unknown_witness:
  "dispatch ((idleClient [])\<lparr>c_stmt := Some \<lparr>st_id = 4, st_mc = None, st_paramCount = 0\<rparr>\<rparr>) None
      (slice (com_byte ComStmtClose # putUint32 5 @ [])) =
    (case c_stmt ((idleClient [])\<lparr>c_stmt := Some \<lparr>st_id = 4, st_mc = None, st_paramCount = 0\<rparr>\<rparr>) of
       None \<Rightarrow> (Panic, (idleClient [])\<lparr>c_stmt := Some \<lparr>st_id = 4, st_mc = None, st_paramCount = 0\<rparr>\<rparr>, None)
     | Some stmt \<Rightarrow> (Err (SqlErr (NewErr ErrUnknownStmtHandler [IntArg ''uint32'' (uint (5 :: u32))])),
         (idleClient [])\<lparr>c_stmt := Some \<lparr>st_id = 4, st_mc = None, st_paramCount = 0\<rparr>\<rparr>, None))"
  by (rule stmtClose_unknown) simp_all

text \<open>Closing the client's own statement tells the database so, under the statement's number, and forgets
  the statement.\<close>

lemma stmtClose_own:
  assumes "vis data = com_byte ComStmtClose # putUint32 (st_id stmt) @ extra" and "c_stmt c = Some stmt"
    and "st_mc stmt = Some mc" and "mc_ready mc" and "5 \<le> mc_maxPacketAllowed mc"
  shows "dispatch c db data = (Ok (), c\<lparr>c_stmt := None\<rparr>, None) \<and>
    (\<exists>mc'. stmt_Close stmt = (Ok (), stmt\<lparr>st_mc := None\<rparr>, Some mc') \<and>
      sentBytes (mc_buf mc') = sentBytes (mc_buf mc) @ framesOf 0 (com_byte ComStmtClose # putUint32 (st_id stmt)))"
proof -
  have "dispatch c db data = handleStmtClose c data"
    using idxAt_hd [OF assms(1)] by (simp add: dispatch_def)
  then show ?thesis
    using handleStmtClose_own [OF assms(1,2) refl assms(3-5)] stmt_Close_sends [OF assms(3-5)] by simp
qed

definition oneStmt :: mysqlStmt where
  "oneStmt = \<lparr>st_id = 4, st_mc = Some (idleConn []), st_paramCount = 1\<rparr>"

lemma stmtClose_own_witness:
  "dispatch ((idleClient [])\<lparr>c_stmt := Some oneStmt\<rparr>) None (slice (com_byte ComStmtClose # putUint32 (st_id oneStmt) @ [])) =
      (Ok (), (idleClient [])\<lparr>c_stmt := Some oneStmt, c_stmt := None\<rparr>, None) \<and>
    (\<exists>mc'. stmt_Close oneStmt = (Ok (), oneStmt\<lparr>st_mc := None\<rparr>, Some mc') \<and>
      sentBytes (mc_buf mc') =
        sentBytes (mc_buf (idleConn [])) @ framesOf 0 (com_byte ComStmtClose # putUint32 (st_id oneStmt)))"
  by (rule stmtClose_own) (simp_all add: oneStmt_def)

text \<open>C21: an error of the database during a prepared statement is lost: the handler reports success, and has sent
  the client nothing at all, while the client waits for an answer.\<close>

theorem stmtExec_error_lost:
  assumes "vis data = com_byte ComStmtExecute # arg" and "c_stmt c = Some stmt" and "st_mc stmt = Some mc"
    and "mc_ready mc" and "int (length arg) + 1 \<le> mc_maxPacketAllowed mc"
    and "p = errPacket n state msg" and "length state = 5" and "framable p"
    and "stream (mc_buf mc) = framesOf (seqAfter 0 (com_byte ComStmtExecute # arg)) p @ rest"
  shows "\<exists>stmt'. dispatch c db data = (Ok (), c\<lparr>c_stmt := Some stmt', c_sequence := 0\<rparr>, None)"
proof -
  from mc_Query_error [OF assms(4,1,5) assms(6) [unfolded errPacket_def] assms(7-9)] obtain mc' where
    "mc_Query mc data = (Err (MySqlErr \<lparr>Number = n, MyMessage = msg\<rparr>), mc')" by blast
  moreover have "b_nc (mc_buf mc) \<noteq> None" using assms(4) by (auto simp: mc_ready_def conn_good_def)
  ultimately have "stmt_Query stmt data =
      (Err (MySqlErr \<lparr>Number = n, MyMessage = msg\<rparr>), stmt\<lparr>st_mc := Some mc'\<rparr>)"
    using assms(3) by (simp add: stmt_Query_def withMc_def)
  from handlestmtExec_error [OF assms(2,3) this] show ?thesis
    using idxAt_hd [OF assms(1)] by (intro exI [of _ "stmt\<lparr>st_mc := Some mc'\<rparr>"]) (simp add: dispatch_def)
qed

definition failingStmt :: mysqlStmt where
  "failingStmt = \<lparr>st_id = 4, st_mc = Some (idleConn [Rd (framesOf 1 (errPacket 1064 (replicate 5 0x30) [0x78])) None]),
     st_paramCount = 1\<rparr>"

theorem stmtExec_error_lost_witness:
  "\<exists>stmt'. dispatch ((idleClient [])\<lparr>c_stmt := Some failingStmt\<rparr>) None (slice (com_byte ComStmtExecute # [4, 0, 0, 0])) =
    (Ok (), (idleClient [])\<lparr>c_stmt := Some failingStmt, c_stmt := Some stmt', c_sequence := 0\<rparr>, None)"
  by (rule stmtExec_error_lost [where stmt = failingStmt and arg = "[4, 0, 0, 0]" and n = 1064 and rest = "[]"
        and state = "replicate 5 0x30" and msg = "[0x78]" and p = "errPacket 1064 (replicate 5 0x30) [0x78]"
        and mc = "idleConn [Rd (framesOf 1 (errPacket 1064 (replicate 5 0x30) [0x78])) None]"])
    (simp_all add: failingStmt_def errPacket_def putUint16_def framable_def MaxPacketSize_val seqAfter_def)

text \<open>C19: when the database has hung up, the query fails, and the broken connection is handed back to the pool
  as if it were good; the next client that is given it makes the program panic.\<close>

theorem broken_connection_reused:
  assumes "mc_ready mc" and "stream (mc_buf mc) = []"
    and "int (length (c_dbname c1)) + 1 \<le> mc_maxPacketAllowed mc" and "int (length (c_dbname c2)) + 1 \<le> mc_maxPacketAllowed mc"
  shows "\<exists>mc'. handleQuery c1 (Some (Some mc)) data1 = (Err DriverBadConn, c1, Some mc') \<and>
    fst (handleQuery c2 (Some (Some mc')) data2) = Panic"
proof -
  from handleQuery_eof [OF assms(1-3), of data1] obtain mc' where
    "handleQuery c1 (Some (Some mc)) data1 = (Err DriverBadConn, c1, Some mc')" "broken mc'"
    "mc_maxPacketAllowed mc' = mc_maxPacketAllowed mc" by blast
  with handleQuery_broken [of mc' c2 data2] assms(4) show ?thesis by auto
qed

theorem broken_connection_reused_witness:
  "\<exists>mc'. handleQuery (idleClient []) (Some (Some (idleConn []))) (slice [3, 0x61]) =
      (Err DriverBadConn, idleClient [], Some mc') \<and>
    fst (handleQuery (idleClient []) (Some (Some mc')) (slice [3, 0x62])) = Panic"
  by (rule broken_connection_reused) simp_all

text \<open>The answer to \<^verbatim>\<open>COM_FIELD_LIST\<close>, which begins with a column definition and has no header, is always
  refused as malformed; the rest of the answer stays unread in a connection that goes back to the
  pool.\<close>

lemma fieldList_refused:
  assumes "vis data = com_byte ComFieldList # arg" and "mc_ready mc" and "int (length arg) + 1 \<le> mc_maxPacketAllowed mc"
    and "p = lenEncString (str ''def'') @ extra" and "framable p"
    and "stream (mc_buf mc) = framesOf (seqAfter 0 (com_byte ComFieldList # arg)) p @ rest"
  shows "\<exists>mc'. dispatch c (Some (Some mc)) data = (Err ErrMalformPkt, c, Some mc') \<and> stream (mc_buf mc') = rest"
proof -
  from mc_Query_field_list [OF assms(2,1,3-6)] obtain mc' where
    "mc_Query mc data = (Err ErrMalformPkt, mc')" "stream (mc_buf mc') = rest" by blast
  then show ?thesis
    using idxAt_hd [OF assms(1)] by (simp add: dispatch_def handleFieldList_def withDB_def onConn_def)
qed

lemma fieldList_refused_witness:
  "\<exists>mc'. dispatch (idleClient []) (Some (Some (idleConn [Rd (framesOf 1 (lenEncString (str ''def'') @ [7])) None, Rd [1, 2] None])))
      (slice (com_byte ComFieldList # [0x61])) = (Err ErrMalformPkt, idleClient [], Some mc') \<and>
    stream (mc_buf mc') = [1, 2]"
  by (rule fieldList_refused [where arg = "[0x61]" and extra = "[7]"])
    (simp_all add: framable_def lenEncString_def lenEncSize_def MaxPacketSize_val seqAfter_def)

end
