(* ===== verification/Server_Transcript.thy ===== *)
theory Server_Transcript
  imports Server_Session
begin

text \<open>
  A whole session of \<^verbatim>\<open>handleClient\<close>: the handshake, any number of queries, and the command that ends
  it. The client sends each of its packets when the answer to the one before has come, and the database
  answers each command in one piece, so that no refill writes over packets that are still needed.
\<close>

section \<open>The client's side of the buffer\<close>

definition sameRead :: "buffer \<Rightarrow> buffer \<Rightarrow> bool" where
  "sameRead b b' \<longleftrightarrow> rxSide b' = rxSide b \<and> b_len b' = b_len b \<and> length (b_buf b) \<le> length (b_buf b')"

lemma sameRead_refl [simp]: "sameRead b b"
  by (simp add: sameRead_def)

lemma sameRead_trans: "sameRead a b \<Longrightarrow> sameRead b c \<Longrightarrow> sameRead a c"
  by (auto simp: sameRead_def)

lemma client_writePacket_sameRead: "client_writePacket c d = (r, c') \<Longrightarrow> sameRead (c_buf c) (c_buf c')"
  by (auto simp: client_writePacket_def sameRead_def dest!: sendPacket_rx split: prod.splits)

lemma writeBack_sameRead: "sameRead b (writeBack own d b)"
  by (auto simp: writeBack_def sameRead_def rxSide_def)

lemma takeBuffer_sameRead: "takeBuffer b n = (r, b') \<Longrightarrow> sameRead b b'"
  using takeBuffer_rx [of b n r b'] by (simp add: sameRead_def)

lemma resultLoop_sameRead: "resultLoop c err ps = (r, c') \<Longrightarrow> sameRead (c_buf c) (c_buf c')"
proof (induction c err ps arbitrary: r c' rule: resultLoop.induct)
  case (2 c err p ps)
  obtain t b where t: "takeBuffer (c_buf c) (length p + 4) = (t, b)" by fastforce
  note b = takeBuffer_sameRead [OF t]
  show ?case
  proof (cases "\<exists>data own. t = Ok (Some (data, own))")
    case False
    with 2(3) t b show ?thesis by (auto split: res.splits option.splits)
  next
    case True
    then obtain data own where o: "t = Ok (Some (data, own))" by blast
    let ?d = "copyAt data 4 p"
    obtain w c1 where w: "client_writePacket (c\<lparr>c_buf := writeBack own ?d b\<rparr>) (?d, own) = (w, c1)" by fastforce
    have s1: "sameRead (c_buf c) (c_buf c1)"
      using sameRead_trans [OF b sameRead_trans [OF writeBack_sameRead client_writePacket_sameRead [OF w, simplified]]] .
    have "(w = Panic \<or> w = Spin) \<and> c' = c1 \<or> w \<noteq> Panic \<and> w \<noteq> Spin \<and> resultLoop c1 w ps = (r, c')"
      using 2(3) t o w by (auto simp: Let_def split: res.splits)
    then show ?thesis
    proof
      assume a: "w \<noteq> Panic \<and> w \<noteq> Spin \<and> resultLoop c1 w ps = (r, c')"
      then have "sameRead (c_buf c1) (c_buf c')"
        using 2(1,2) t o w by (cases w) (auto simp: Let_def)
      with s1 show ?thesis by (rule sameRead_trans)
    qed (use s1 in simp)
  qed
qed auto

section \<open>Waiting for the client\<close>

text \<open>Everything read so far has been used, and the client's next bytes come as \<open>es\<close>.\<close>

definition awaits :: "Client \<Rightarrow> rd_event list \<Rightarrow> bool" where
  "awaits c es \<longleftrightarrow> client_ready c \<and> \<not> c_die c \<and> (\<exists>s. b_nc (c_buf c) = Some s \<and> rx s = es)"

lemma awaits_same:
  assumes "awaits c es" and "sameRead (c_buf c) (c_buf c')" and "conn_good (c_buf c')" and "c_die c' = c_die c"
  shows "awaits c' es"
  using assms by (auto simp: awaits_def client_ready_def sameRead_def rxSide_def)

lemma client_readPacket_next:
  assumes a: "awaits c (Rd (framesOf (c_sequence c) p) None # es)" and p: "p \<noteq> []" "4 + length p \<le> defaultBufSize"
  obtains d c' where "client_readPacket c = (Ok d, c')" and "vis d = p" and "awaits c' es"
    and "c' = c\<lparr>c_buf := c_buf c', c_sequence := c_sequence c + 1\<rparr>" and "sentBytes (c_buf c') = sentBytes (c_buf c)"
proof -
  have sm: "length p < MaxPacketSize" using p(2) by (simp add: defaultBufSize_def MaxPacketSize_val)
  then have fr: "framable p" using p(1) by (intro framable_short)
  from a obtain s where s: "b_nc (c_buf c) = Some s" "rx s = Rd (framesOf (c_sequence c) p) None # es"
    and r: "client_ready c" "\<not> c_die c" by (auto simp: awaits_def)
  from r have g: "conn_good (c_buf c)" "b_len (c_buf c) = 0" by (simp_all add: client_ready_def)
  have wf: "wf_buffer (c_buf c)" and dl: "0 < b_timeout (c_buf c) \<longrightarrow> dl_err s = None"
    using g(1) s(1) by (simp_all add: conn_good_def readable_def)
  have br: "brings (c_buf c) (framesOf (c_sequence c) p) es"
    using s g wf dl p(2) sm by (simp add: brings_def wf_buffer_def)
  have st: "stream (c_buf c) = framesOf (c_sequence c) p @ rxData es"
    using s g by (simp add: stream_def unread_def)
  from client_readPacket_frames [OF g(1) st fr] obtain d c' where
    c': "client_readPacket c = (Ok d, c')" "vis d = p" "sentBytes (c_buf c') = sentBytes (c_buf c)"
      "c_sequence c' = seqAfter (c_sequence c) p" "conn_good (c_buf c')"
      "c' = c\<lparr>c_buf := c_buf c', c_sequence := c_sequence c'\<rparr>" by metis
  let ?b = "refilled (c_buf c) s (framesOf (c_sequence c) p) es"
  have "b_buf ?b = framesOf (c_sequence c) p @ drop (length (framesOf (c_sequence c) p)) (b_buf (c_buf c))"
    using br by (simp add: refilled_def brings_def copyAt_fits)
  moreover have "b_idx ?b = 0" "b_len ?b = length (framesOf (c_sequence c) p)" by (simp_all add: refilled_def)
  ultimately obtain e where "readPacketLoop ?b (c_sequence c) None =
      (Inr \<lparr>vis = p, ext = e, org = Some (length (b_old ?b), 4)\<rparr>,
       ?b\<lparr>b_idx := 4 + length p, b_len := 0\<rparr>, c_sequence c + 1)"
    using readPacketLoop_one [OF p(1) sm] by metis
  then have "c_buf c' = ?b\<lparr>b_idx := 4 + length p, b_len := 0\<rparr>"
    using c'(1) readPacketLoop_refilled [OF br s(1)] by (auto simp: client_readPacket_def Let_def)
  then have "b_len (c_buf c') = 0" "b_nc (c_buf c') = Some (s\<lparr>rx := es\<rparr>)" by (simp_all add: refilled_def)
  moreover have "\<not> c_die c'" using r(2) by (subst c'(6)) simp
  ultimately have "awaits c' es" using c'(5) by (simp add: awaits_def client_ready_def)
  moreover have "c' = c\<lparr>c_buf := c_buf c', c_sequence := c_sequence c + 1\<rparr>"
    using c'(4,6) seqAfter_small [OF sm] by simp
  ultimately show ?thesis using that c'(1-3) by blast
qed

section \<open>One query\<close>

record exchange =
  x_arg :: "byte list"
  x_conn :: mysqlConn
  x_cols :: "byte list list"
  x_eof1 :: "byte list"
  x_rows :: "byte list list"
  x_eof2 :: "byte list"

definition x_query :: "exchange \<Rightarrow> byte list" where
  "x_query x = com_byte ComQuery # x_arg x"

definition x_answer :: "exchange \<Rightarrow> byte list list" where
  "x_answer x = resultSet (x_cols x) (x_eof1 x) (x_rows x) (x_eof2 x)"

text \<open>The database answers the command that selects the database with an OK packet and the query with a
  result set that the client may be sent.\<close>

definition goodExchange :: "Client \<Rightarrow> exchange \<Rightarrow> bool" where
  "goodExchange c x \<longleftrightarrow> goodResultSet (x_cols x) (x_eof1 x) (x_rows x) (x_eof2 x) \<and>
     4 + length (x_query x) \<le> defaultBufSize \<and> int (length (x_query x)) \<le> mc_maxPacketAllowed (x_conn x) \<and>
     (\<forall>p \<in> set (x_answer x). int (length p) \<le> c_maxPacketAllowed c) \<and>
     (\<exists>es. useAnswered c (x_conn x) (framesOfAll 1 (x_answer x)) es)"

lemma useAnswered_cong: "c_dbname c' = c_dbname c \<Longrightarrow> useAnswered c' = useAnswered c"
  by (intro ext) (simp add: useAnswered_def)

lemma goodExchange_cong:
  "c_dbname c' = c_dbname c \<Longrightarrow> c_maxPacketAllowed c' = c_maxPacketAllowed c \<Longrightarrow> goodExchange c' x = goodExchange c x"
  by (simp add: goodExchange_def useAnswered_cong [of c' c])

text \<open>What the connection has been sent for an exchange when it is handed back: the command that selects the
  client's database, then the client's query.\<close>

definition served :: "byte list \<Rightarrow> exchange \<Rightarrow> mysqlConn \<Rightarrow> bool" where
  "served db x mc \<longleftrightarrow> sentBytes (mc_buf mc) =
     sentBytes (mc_buf (x_conn x)) @ framesOf 0 (com_byte ComInitDB # db) @ framesOf 0 (x_query x)"

lemma Accept_query:
  assumes a: "awaits c (Rd (framesOf 0 (x_query x)) None # es)" and q: "c_sequence c = 0" and x: "goodExchange c x"
  obtains c' mc' where "client_Accept c (Some (Some (x_conn x))) = (Ok (), c', Some mc')" and "awaits c' es"
    and "sentBytes (c_buf c') = sentBytes (c_buf c) @ framesOfAll 1 (x_answer x)" and "c' = c\<lparr>c_buf := c_buf c'\<rparr>"
    and "served (c_dbname c) x mc'"
proof -
  let ?mc = "x_conn x" and ?ps = "x_answer x"
  have p: "x_query x \<noteq> []" "4 + length (x_query x) \<le> defaultBufSize" using x by (simp_all add: x_query_def goodExchange_def)
  obtain d c1 where r: "client_readPacket c = (Ok d, c1)" "vis d = x_query x" "awaits c1 es"
    and f1: "c1 = c\<lparr>c_buf := c_buf c1, c_sequence := c_sequence c + 1\<rparr>"
    and t1: "sentBytes (c_buf c1) = sentBytes (c_buf c)"
    using client_readPacket_next [OF a [folded q] p] by metis
  have k: "c_dbname c1 = c_dbname c" "c_maxPacketAllowed c1 = c_maxPacketAllowed c" "c_die c1 = c_die c" "c_sequence c1 = 1"
    by (subst f1, simp add: q)+
  from x have x1: "goodExchange c1 x" using goodExchange_cong [OF k(1,2)] by simp
  then obtain es' where u: "useAnswered c1 ?mc (framesOfAll 1 ?ps) es'" by (auto simp: goodExchange_def)
  have s1: "seqAfter 0 (x_query x) = 1" using p(2) by (simp add: seqAfter_small defaultBufSize_def MaxPacketSize_val)
  have "client_ready c1" using r(3) by (simp add: awaits_def)
  then have "\<exists>c2 mc2. handleQuery c1 (Some (Some ?mc)) d = (Ok (), c2, Some mc2) \<and>
      sentBytes (c_buf c2) = sentBytes (c_buf c1) @ framesOfAll (c_sequence c1) ?ps \<and>
      sentBytes (mc_buf mc2) = sentBytes (mc_buf ?mc) @ framesOf 0 (com_byte ComInitDB # c_dbname c1) @
        framesOf 0 (com_byte ComQuery # x_arg x) \<and>
      client_ready c2 \<and> c2 = c1\<lparr>c_buf := c_buf c2, c_sequence := 0\<rparr> \<and> (\<exists>ps. writeResultPackets c1 ps = (Ok (), c2))"
    using x1 u s1 r(2) unfolding x_answer_def
    by (intro handleQuery_forwards [where es = es']) (auto simp: goodExchange_def x_answer_def x_query_def)
  then obtain c2 mc2 ps where h: "handleQuery c1 (Some (Some ?mc)) d = (Ok (), c2, Some mc2)"
    "sentBytes (c_buf c2) = sentBytes (c_buf c1) @ framesOfAll (c_sequence c1) ?ps" "client_ready c2"
    "c2 = c1\<lparr>c_buf := c_buf c2, c_sequence := 0\<rparr>" "writeResultPackets c1 ps = (Ok (), c2)"
    and sv: "served (c_dbname c) x mc2" by (auto simp: served_def x_query_def k(1))
  have "dispatch c1 (Some (Some ?mc)) d = (Ok (), c2, Some mc2)"
    using h(1) idxAt_hd [OF r(2) p(1)] by (simp add: dispatch_def x_query_def)
  then have "client_Accept c (Some (Some ?mc)) = (Ok (), c2\<lparr>c_sequence := 0\<rparr>, Some mc2)"
    using r(1) by (simp add: client_Accept_def)
  moreover have c2: "c2\<lparr>c_sequence := 0\<rparr> = c2" by (subst (1 2) h(4)) simp
  moreover have "c_die c2 = c_die c1" by (subst h(4)) simp
  then have "awaits c2 es"
    using awaits_same [OF r(3) resultLoop_sameRead [OF h(5) [unfolded writeResultPackets_def]]] h(3)
    by (simp add: client_ready_def)
  moreover have "c2 = c\<lparr>c_buf := c_buf c2\<rparr>"
    using h(4) f1 q by (cases c; cases c1; cases c2) simp
  ultimately show ?thesis using that h(2) t1 k(4) sv by simp
qed

section \<open>Queries until the client quits\<close>

definition quitPacket :: "byte list" where
  "quitPacket = [com_byte ComQuit]"

definition sentBy :: "exchange list \<Rightarrow> byte list" where
  "sentBy xs = concat (map (\<lambda>x. framesOfAll 1 (x_answer x)) xs)"

definition requests :: "exchange list \<Rightarrow> rd_event list" where
  "requests xs = map (\<lambda>x. Rd (framesOf 0 (x_query x)) None) xs @ [Rd (framesOf 0 quitPacket) None]"

definition lent :: "exchange list \<Rightarrow> db_result list" where
  "lent xs = map (\<lambda>x. Some (Some (x_conn x))) xs @ [None]"

lemma acceptLoop_quit:
  assumes a: "awaits c [Rd (framesOf 0 quitPacket) None]" and q: "c_sequence c = 0"
  shows "\<exists>c'. acceptLoop c [None] = (Closed, c', []) \<and> c_die c' \<and> sentBytes (c_buf c') = sentBytes (c_buf c)"
proof -
  have "conn_good (c_buf c)" "stream (c_buf c) = framesOf (c_sequence c) [com_byte ComQuit] @ []" "\<not> c_die c"
    using a q by (auto simp: awaits_def client_ready_def stream_def unread_def quitPacket_def)
  from client_Accept_quit [OF this, of None] show ?thesis by auto
qed

lemma acceptLoop_queries:
  assumes "awaits c (requests xs)" and "c_sequence c = 0" and "\<forall>x \<in> set xs. goodExchange c x"
  shows "\<exists>c' mcs. acceptLoop c (lent xs) = (Closed, c', mcs) \<and> list_all2 (served (c_dbname c)) xs mcs \<and> c_die c' \<and>
    sentBytes (c_buf c') = sentBytes (c_buf c) @ sentBy xs"
  using assms
proof (induction xs arbitrary: c)
  case Nil
  then show ?case using acceptLoop_quit [of c] by (simp add: requests_def lent_def sentBy_def)
next
  case (Cons x xs)
  obtain c1 mc1 where r: "client_Accept c (Some (Some (x_conn x))) = (Ok (), c1, Some mc1)" "awaits c1 (requests xs)"
    "sentBytes (c_buf c1) = sentBytes (c_buf c) @ framesOfAll 1 (x_answer x)" "c1 = c\<lparr>c_buf := c_buf c1\<rparr>"
    "served (c_dbname c) x mc1"
    using Accept_query [of c x "requests xs"] Cons.prems by (auto simp: requests_def)
  have k: "c_dbname c1 = c_dbname c" "c_maxPacketAllowed c1 = c_maxPacketAllowed c" "c_sequence c1 = 0"
    by (subst r(4), simp add: Cons.prems(2))+
  have "\<not> c_die c1" using r(2) by (simp add: awaits_def)
  moreover obtain c2 mcs where "acceptLoop c1 (lent xs) = (Closed, c2, mcs)" "list_all2 (served (c_dbname c1)) xs mcs" "c_die c2"
    "sentBytes (c_buf c2) = sentBytes (c_buf c1) @ sentBy xs"
    using Cons.IH [OF r(2) k(3)] Cons.prems(3) goodExchange_cong [OF k(1,2)] by auto
  ultimately show ?case using r(1,3,5) k(1) by (auto simp: lent_def sentBy_def)
qed

section \<open>The handshake\<close>

definition okAnswer :: "u16 \<Rightarrow> byte list" where
  "okAnswer status = [HeaderOK, 0, 0, byteAt 0 status, byteAt 8 status, 0, 0]"

lemma writeOK_sends:
  assumes g: "conn_good (c_buf c)" and cap: "hasFlag (c_capability c) ClientProtocol41" and m: "7 \<le> c_maxPacketAllowed c"
  obtains c' where "writeOK c = (Ok (), c')" and "conn_good (c_buf c')"
    and "sentBytes (c_buf c') = sentBytes (c_buf c) @ framesOf (c_sequence c) (okAnswer (c_status c))"
    and "c' = c\<lparr>c_buf := c_buf c', c_sequence := c_sequence c'\<rparr>" and "sameRead (c_buf c) (c_buf c')"
proof -
  let ?p = "okAnswer (c_status c)"
  have w: "writeOK c = client_writePacket c ([0, 0, 0, 0] @ ?p, False)"
    using cap
    by (simp add: writeOK_def okAnswer_def hasFlag_def word_gt_0 AppendLengthEncodedInteger_def
        appendLengthEncodedInteger_def byteAt_def)
  have "int (length ?p) \<le> c_maxPacketAllowed c" using m by (simp add: okAnswer_def)
  from client_packets.write_packet [OF g _ _ this, of "[0, 0, 0, 0] @ ?p" False] obtain c' where
    c': "client_writePacket c ([0, 0, 0, 0] @ ?p, False) = (Ok (), c')" "conn_good (c_buf c')"
    "sentBytes (c_buf c') = sentBytes (c_buf c) @ framesOf (c_sequence c) ?p" by auto
  moreover have "c' = c\<lparr>c_buf := c_buf c', c_sequence := c_sequence c'\<rparr>"
    using client_writePacket_frame [of c "([0, 0, 0, 0] @ ?p, False)"] c'(1) by simp
  ultimately show ?thesis using that w client_writePacket_sameRead by metis
qed

lemma readHandshakeRespone_frame:
  assumes "readHandshakeRespone c = (Ok (), c')" and "client_readPacket c = (Ok d, c1)"
  shows "c' = c1\<lparr>c_capability := c_capability c', c_user := c_user c', c_dbname := c_dbname c'\<rparr>"
  using assms by (auto simp: readHandshakeRespone_def bindS_Ok_iff Let_def split: if_splits)

lemma writeInitHandshake_sameRead: "writeInitHandshake c = (r, c') \<Longrightarrow> sameRead (c_buf c) (c_buf c')"
  by (auto simp: writeInitHandshake_def Let_def dest: client_writePacket_sameRead split: if_splits)

definition login :: "u32 \<Rightarrow> byte \<Rightarrow> byte list \<Rightarrow> byte list \<Rightarrow> byte list \<Rightarrow> byte list" where
  "login fl charset user token db = authPayload (authFlags fl db) charset user token db"

definition goodLogin :: "byte list \<Rightarrow> byte list \<Rightarrow> byte list \<Rightarrow> bool" where
  "goodLogin user token db \<longleftrightarrow> 0x00 \<notin> set user \<and> 0x00 \<notin> set db \<and> length token < 256 \<and>
     length user + length db \<le> 3000"

lemma login_size:
  assumes "goodLogin user token db"
  shows "login fl charset user token db \<noteq> []" and "4 + length (login fl charset user token db) \<le> defaultBufSize"
  using assms length_authPayload [of "authFlags fl db" charset user token db]
  by (auto simp: login_def goodLogin_def defaultBufSize_def)

lemma Handshake_any:
  assumes a: "awaits c (Rd (framesOf 1 (login fl charset user token db)) None # es)" and l: "goodLogin user token db"
    and c: "c_sequence c = 0" "length (c_salt c) = 20" "65 \<le> c_maxPacketAllowed c" "c_status c = 0"
  obtains c' where "Handshake osText c = (Ok (), c')" and "awaits c' es" and "c_sequence c' = 0"
    and "c_user c' = user" and "c_dbname c' = (if db = [] then cfg_DBName (c_cfg c) else db)"
    and "c_maxPacketAllowed c' = c_maxPacketAllowed c"
    and "sentBytes (c_buf c') = sentBytes (c_buf c) @ framesOf 0 (greeting (c_connectID c) (c_salt c)) @ framesOf 2 (okAnswer 0)"
proof -
  let ?p = "login fl charset user token db"
  note p = login_size [OF l, of fl charset]
  have "conn_good (c_buf c)" using a by (simp add: awaits_def client_ready_def)
  from writeInitHandshake_sends [OF c(2) this c(3)] obtain c1 where
    w: "writeInitHandshake c = (Ok (), c1)"
    "sentBytes (c_buf c1) = sentBytes (c_buf c) @ framesOf 0 (greeting (c_connectID c) (c_salt c))"
    "c_sequence c1 = 1" "conn_good (c_buf c1)" "c1 = c\<lparr>c_buf := c_buf c1, c_sequence := c_sequence c1\<rparr>"
    using c(1) by auto
  have k1: "c_die c1 = c_die c" "c_cfg c1 = c_cfg c" "c_maxPacketAllowed c1 = c_maxPacketAllowed c" "c_status c1 = 0"
    by (subst w(5), simp add: c(4))+
  have a1: "awaits c1 (Rd (framesOf (c_sequence c1) ?p) None # es)"
    using awaits_same [OF a writeInitHandshake_sameRead [OF w(1)] w(4) k1(1)] w(3) by simp
  obtain d c2 where r: "client_readPacket c1 = (Ok d, c2)" "awaits c2 es" and
    f2: "c2 = c1\<lparr>c_buf := c_buf c2, c_sequence := c_sequence c1 + 1\<rparr>"
    using client_readPacket_next [OF a1 p] by metis
  have g1: "conn_good (c_buf c1)" "stream (c_buf c1) = framesOf (c_sequence c1) ?p @ rxData es"
    using a1 by (auto simp: awaits_def client_ready_def stream_def unread_def)
  have fr: "framable ?p" using p by (intro framable_short) (simp_all add: defaultBufSize_def MaxPacketSize_val)
  from l have lg: "0x00 \<notin> set user" "0x00 \<notin> set db" "length token < 256" by (simp_all add: goodLogin_def)
  from readHandshakeRespone_auth [OF g1(1) lg fr [unfolded login_def] g1(2) [unfolded login_def]] obtain c3 where
    h: "readHandshakeRespone c1 = (Ok (), c3)" "c_user c3 = user"
    "c_dbname c3 = (if db = [] then cfg_DBName (c_cfg c1) else db)" "c_capability c3 = authFlags fl db"
    "sentBytes (c_buf c3) = sentBytes (c_buf c1)" by blast
  note f3 = readHandshakeRespone_frame [OF h(1) r(1)]
  have k3: "c_buf c3 = c_buf c2" "c_die c3 = c_die c2" "c_sequence c3 = 2"
    "c_maxPacketAllowed c3 = c_maxPacketAllowed c" "c_status c3 = 0"
    by (subst f3, simp, subst f2, simp add: w(3) k1)+
  have a3: "awaits c3 es" using awaits_same [OF r(2), of c3] r(2) k3 by (simp add: awaits_def client_ready_def)
  have g3: "conn_good (c_buf c3)" using a3 by (simp add: awaits_def client_ready_def)
  have m3: "7 \<le> c_maxPacketAllowed c3" using k3(4) c(3) by simp
  have cap: "hasFlag (c_capability c3) ClientProtocol41" unfolding h(4) by (rule hasFlag_authFlags(2))
  obtain c4 where o: "writeOK c3 = (Ok (), c4)" "conn_good (c_buf c4)"
    "sentBytes (c_buf c4) = sentBytes (c_buf c3) @ framesOf (c_sequence c3) (okAnswer (c_status c3))"
    "c4 = c3\<lparr>c_buf := c_buf c4, c_sequence := c_sequence c4\<rparr>" "sameRead (c_buf c3) (c_buf c4)"
    by (rule writeOK_sends [OF g3 cap m3])
  let ?c = "c4\<lparr>c_sequence := 0\<rparr>"
  have k4: "c_die c4 = c_die c3" "c_user c4 = c_user c3" "c_dbname c4 = c_dbname c3"
    "c_maxPacketAllowed c4 = c_maxPacketAllowed c3"
    by (subst o(4), simp)+
  have "awaits ?c es" using awaits_same [OF a3, of ?c] o(2,5) k4(1) by simp
  moreover have "Handshake osText c = (Ok (), ?c)"
    using w(1) h(1) o(1) by (simp add: Handshake_def dropErr_def)
  ultimately show ?thesis using that [of ?c] h(2,3,5) w(2) o(3) k1(2) k3(3-5) k4 by simp
qed

section \<open>Properties\<close>

lemma newClient_awaits:
  fixes n :: u32 and intn :: "nat \<Rightarrow> nat" and conf :: ServerConfig
  assumes "clean es"
  defines "c \<equiv> fst (newClient n intn (idleSock es) conf)"
  shows "awaits c es" and "c_sequence c = 0" and "length (c_salt c) = 20" and "c_maxPacketAllowed c = 16777215"
    and "c_status c = 0" and "sentBytes (c_buf c) = []" and "c_connectID c = n + 1" and "c_salt c = RandomBuf intn 20"
    and "c_cfg c = conf"
  using assms
  by (simp_all add: newClient_def Let_def awaits_def client_ready_def RandomBuf_def MaxPacketSize_val)
    (simp add: newBuffer_def)

lemma clean_requests [simp]: "clean (requests xs)"
  by (induction xs) (simp_all add: requests_def)

text \<open>C1: a session from the first byte to the last. A client connects, logs in with any user, any token and any
  database, sends any number of queries and quits. Each query is answered by its own connection of the
  pool; each packet of the client, each answer to the command that selects the database and each whole
  result set comes in one \<^verbatim>\<open>Read\<close> of at most 4096 bytes. Then the client is sent the greeting, an OK packet
  and the result set of each query, in order and with the right sequence numbers; the connections are
  handed back in the same order, each having been sent the client's database and that query and nothing
  else. The token is never looked at. C2 shows what becomes of a result set that comes in two pieces.\<close>

theorem session_transcript:
  assumes "goodLogin user token db"
    and "\<forall>x \<in> set xs. goodExchange
      ((idleClient [])\<lparr>c_dbname := (if db = [] then cfg_DBName conf else db)\<rparr>) x"
  shows "\<exists>c mcs. handleClient osText
      (fst (newClient n intn (idleSock (Rd (framesOf 1 (login fl charset user token db)) None # requests xs)) conf))
      (lent xs) = (Closed, c, mcs) \<and>
    list_all2 (served (if db = [] then cfg_DBName conf else db)) xs mcs \<and>
    sentBytes (c_buf c) = framesOf 0 (greeting (n + 1) (RandomBuf intn 20)) @ framesOf 2 (okAnswer 0) @ sentBy xs"
proof -
  let ?es = "Rd (framesOf 1 (login fl charset user token db)) None # requests xs"
  let ?c = "fst (newClient n intn (idleSock ?es) conf)"
  have "clean ?es" by simp
  note c = newClient_awaits [OF this, of n intn conf]
  have m: "65 \<le> c_maxPacketAllowed ?c" using c(4) by simp
  obtain c1 where h: "Handshake osText ?c = (Ok (), c1)" "awaits c1 (requests xs)" "c_sequence c1 = 0"
    "c_dbname c1 = (if db = [] then cfg_DBName (c_cfg ?c) else db)" "c_maxPacketAllowed c1 = c_maxPacketAllowed ?c"
    "sentBytes (c_buf c1) = sentBytes (c_buf ?c) @ framesOf 0 (greeting (c_connectID ?c) (c_salt ?c)) @ framesOf 2 (okAnswer 0)"
    by (rule Handshake_any [OF c(1) assms(1) c(2,3) m c(5)])
  let ?d = "(idleClient [])\<lparr>c_dbname := (if db = [] then cfg_DBName conf else db)\<rparr>"
  have "c_dbname c1 = c_dbname ?d" using h(4) c(9) by (cases "db = []") simp_all
  moreover have "c_maxPacketAllowed c1 = c_maxPacketAllowed ?d" using h(5) c(4) by simp
  ultimately have "goodExchange c1 x = goodExchange ?d x" for x by (rule goodExchange_cong)
  with assms(2) have "\<forall>x \<in> set xs. goodExchange c1 x" by simp
  from acceptLoop_queries [OF h(2,3) this] obtain c2 mcs where
    "acceptLoop c1 (lent xs) = (Closed, c2, mcs)" "list_all2 (served (c_dbname c1)) xs mcs"
    "sentBytes (c_buf c2) = sentBytes (c_buf c1) @ sentBy xs" by blast
  then show ?thesis using h(1,4,6) c(6-9) by (auto simp: handleClient_def)
qed

definition oneExchange :: exchange where
  "oneExchange = \<lparr>x_arg = [0x61],
     x_conn = idleConn (Rd (framesOf 1 (okPacket 0 0 2 [])) None #
       [Rd (framesOfAll 1 (resultSet [[1, 2]] [0xfe] [[7]] [0xfe])) None]),
     x_cols = [[1, 2]], x_eof1 = [0xfe], x_rows = [[7]], x_eof2 = [0xfe]\<rparr>"

lemma oneExchange_good: "c_dbname c = [] \<Longrightarrow> c_maxPacketAllowed c = 16777215 \<Longrightarrow> goodExchange c oneExchange"
proof -
  assume c: "c_dbname c = []" "c_maxPacketAllowed c = 16777215"
  let ?ps = "resultSet [[1, 2]] [0xfe] [[7]] [0xfe]"
  have "length (framesOfAll 1 ?ps) \<le> defaultBufSize"
    by (simp add: resultSet_def MaxPacketSize_val defaultBufSize_def lenEncSize_def)
  then have "useAnswered c (x_conn oneExchange) (framesOfAll 1 ?ps) []"
    using idle_useAnswered [of "framesOfAll 1 ?ps" "[]" "[]"] useAnswered_cong [of c "idleClient []"] c(1)
    by (simp add: oneExchange_def)
  moreover have "goodResultSet [[1, 2]] [0xfe] [[7]] [0xfe]"
    by (simp add: goodResultSet_def framable_def isEOF_def header_defs MaxPacketSize_val)
  ultimately show ?thesis
    unfolding goodExchange_def x_answer_def x_query_def using c(2)
    by (intro conjI exI [of _ "[]"]) (simp_all add: oneExchange_def defaultBufSize_def resultSet_def lenEncSize_def)
qed

theorem session_transcript_witness:
  "\<exists>c mcs. handleClient (\<lambda>e. []) (fst (newClient 10000 (\<lambda>i. i + 40)
      (idleSock (Rd (framesOf 1 (login 0 33 [0x72] [1, 2] [])) None # requests [oneExchange])) zeroConfig))
      (lent [oneExchange]) = (Closed, c, mcs) \<and>
    list_all2 (served (if [] = ([] :: byte list) then cfg_DBName zeroConfig else [])) [oneExchange] mcs \<and>
    sentBytes (c_buf c) = framesOf 0 (greeting (10000 + 1) (RandomBuf (\<lambda>i. i + 40) 20)) @ framesOf 2 (okAnswer 0) @
      sentBy [oneExchange]"
  by (rule session_transcript) (simp_all add: goodLogin_def oneExchange_good zeroConfig_def)

end
