(* ===== verification/Server_Run.thy ===== *)
theory Server_Run
  imports Server_Transcript "HOL-Library.Multiset"
begin

text \<open>
  \<^verbatim>\<open>server/server.go\<close> as a whole: \<open>Run\<close> accepts clients, the counter limits them, each runs
  \<open>handleClient\<close> in its own goroutine, and all of them share the pool that \<^verbatim>\<open>mysql_balance.go\<close> keeps. The
  step relation interleaves the accept loop, the sessions and the pool's opener.
\<close>

section \<open>The server\<close>

text \<open>Where a session is: before its handshake, waiting for a command, in \<open>getConn\<close> for the command in the
  packet it has read, with the connection it got, or, the command over with some result, in the
  deferred \<open>putConn\<close> that does not keep the connection.\<close>

datatype phase = Connecting | Serving | Asking gslice | Using gslice mysqlConn | Returning "unit res"

record session =
  se_client :: Client
  se_phase :: phase

text \<open>\<open>sv_db\<close> is the entry of the map \<^verbatim>\<open>_defaultDB\<close> under the only node that is ever used, \<open>sv_base\<close> the
  counter of connection ids.\<close>

record Server =
  sv_cfg :: ServerConfig
  sv_count :: ChanCount
  sv_db :: "MysqlDB option"
  sv_base :: u32
  sv_live :: "session list"

definition NewServer :: "ServerConfig \<Rightarrow> Server" where
  "NewServer conf = \<lparr>sv_cfg = conf, sv_count = newChanCount (cfg_MaxClient conf), sv_db = None, sv_base = 1000, sv_live = []\<rparr>"

definition InitDB :: "Server \<Rightarrow> Server res" where
  "InitDB s =
     (case Open (sv_cfg s) of
        Ok db \<Rightarrow> Ok (s\<lparr>sv_db := Some db\<rparr>)
      | Err e \<Rightarrow> Ok s
      | Panic \<Rightarrow> Panic
      | Spin \<Rightarrow> Spin)"

text \<open>The name of the database is not looked at.\<close>

definition GetDB :: "Server \<Rightarrow> byte list \<Rightarrow> MysqlDB option" where
  "GetDB s name = sv_db s"

text \<open>\<open>Run\<close> up to its loop; \<open>resolve\<close> and \<open>listen\<close> are the errors of \<^verbatim>\<open>ResolveTCPAddr\<close> and \<^verbatim>\<open>ListenTCP\<close>.\<close>

definition Run_start :: "Server \<Rightarrow> sock_err option \<Rightarrow> sock_err option \<Rightarrow> Server res" where
  "Run_start s resolve listen =
     bindR (InitDB s) (\<lambda>s.
       if cfg_Listen (sv_cfg s) = [] then Err AddrNotSet
       else
         (case resolve of
            Some e \<Rightarrow> Err (SockErr e)
          | None \<Rightarrow> (case listen of Some e \<Rightarrow> Err (SockErr e) | None \<Rightarrow> Ok s)))"

text \<open>\<open>Run\<close> comes to its loop when \<open>Open\<close> has sent its tokens; a panic of the opener ends the process.\<close>

definition booted :: "Server \<Rightarrow> bool" where
  "booted s \<longleftrightarrow> (case sv_db s of Some m \<Rightarrow> (case db_caller m of Booting _ \<Rightarrow> False | _ \<Rightarrow> True) | None \<Rightarrow> True)"

definition alive :: "Server \<Rightarrow> bool" where
  "alive s \<longleftrightarrow> (case sv_db s of Some m \<Rightarrow> (case db_opener m of Crashed \<Rightarrow> False | _ \<Rightarrow> True) | None \<Rightarrow> True)"

section \<open>Steps\<close>

text \<open>The end of a session: the deferred \<open>Decr\<close>, which would block on an empty counter.\<close>

definition leave :: "Server \<Rightarrow> session list \<Rightarrow> Server option" where
  "leave s live = map_option (\<lambda>cnt. s\<lparr>sv_count := cnt, sv_live := live\<rparr>) (ChanCount_Decr (sv_count s))"

text \<open>What follows a command in \<^verbatim>\<open>Accept\<close> and \<^verbatim>\<open>handleClient\<close>, for a session between \<open>us\<close> and \<open>vs\<close>.\<close>

definition settle :: "Server \<Rightarrow> session list \<Rightarrow> session list \<Rightarrow> unit res \<Rightarrow> Client \<Rightarrow> Server option" where
  "settle s us vs r c =
     (case r of
        Ok _ \<Rightarrow>
          if c_die c then leave s (us @ vs)
          else Some (s\<lparr>sv_live := us @ \<lparr>se_client = c\<lparr>c_sequence := 0\<rparr>, se_phase = Serving\<rparr> # vs\<rparr>)
      | Err e \<Rightarrow> leave s (us @ vs)
      | Panic \<Rightarrow> leave s (us @ vs)
      | Spin \<Rightarrow> None)"

text \<open>The commands whose handlers ask for a connection.\<close>

definition needsDB :: "gslice \<Rightarrow> bool" where
  "needsDB data \<longleftrightarrow>
     (case idxAt data 0 of
        Ok cmd \<Rightarrow> cmd = com_byte ComQuery \<or> cmd = com_byte ComInitDB \<and> 4 \<le> len data \<or> cmd = com_byte ComFieldList \<or>
          cmd = com_byte ComStmtPrepare
      | _ \<Rightarrow> False)"

definition asking :: "Server \<Rightarrow> bool" where
  "asking s \<longleftrightarrow> (\<exists>se \<in> set (sv_live s). \<exists>data. se_phase se = Asking data)"

definition selecting :: "MysqlDB \<Rightarrow> bool" where
  "selecting m \<longleftrightarrow> (case db_caller m of Selecting _ \<Rightarrow> True | _ \<Rightarrow> False)"

definition dropping :: "MysqlDB \<Rightarrow> bool" where
  "dropping m \<longleftrightarrow> (case db_caller m of Dropping _ \<Rightarrow> True | _ \<Rightarrow> False)"

text \<open>
  One step of the whole. A client comes: it is refused, or admitted and numbered. A session greets
  its client, reads a command, runs it when it needs no connection, and otherwise asks for one. The
  pool goes on by itself (\<open>pool\<close>: the opener, and the tokens and ticks of the caller that holds the
  mutex) until it hands a connection to a session that asks (\<open>got\<close>) or gives up (\<open>none\<close>). A command
  with its connection runs, and the deferred \<open>putConn\<close> gives the connection back (\<open>finished\<close>), or closes it
  (\<open>finished_full\<close>, the steps of the pool that take it from its count, the last being \<open>dropped\<close>), or there is
  none (\<open>kept\<close>). A panic in a session is recovered and ends that session.
\<close>

inductive sstep :: "(byte list \<Rightarrow> byte list) \<Rightarrow> (gerror \<Rightarrow> byte list) \<Rightarrow> Server \<Rightarrow> Server \<Rightarrow> bool" for sha1 osText where
  accept_error: "alive s \<Longrightarrow> booted s \<Longrightarrow> sstep sha1 osText s s"
| refuse: "alive s \<Longrightarrow> booted s \<Longrightarrow> ChanCount_Incr (sv_count s) = (False, cnt) \<Longrightarrow> sstep sha1 osText s (s\<lparr>sv_count := cnt\<rparr>)"
| accept: "alive s \<Longrightarrow> booted s \<Longrightarrow> ChanCount_Incr (sv_count s) = (True, cnt) \<Longrightarrow>
     newClient (sv_base s) intn sk (sv_cfg s) = (c, n) \<Longrightarrow>
     sstep sha1 osText s (s\<lparr>sv_count := cnt, sv_base := n, sv_live := sv_live s @ [\<lparr>se_client = c, se_phase = Connecting\<rparr>]\<rparr>)"
| greet: "alive s \<Longrightarrow> sv_live s = us @ \<lparr>se_client = c, se_phase = Connecting\<rparr> # vs \<Longrightarrow> Handshake osText c = (Ok (), c') \<Longrightarrow>
     sstep sha1 osText s (s\<lparr>sv_live := us @ \<lparr>se_client = c', se_phase = Serving\<rparr> # vs\<rparr>)"
| greet_fail: "alive s \<Longrightarrow> sv_live s = us @ \<lparr>se_client = c, se_phase = Connecting\<rparr> # vs \<Longrightarrow> Handshake osText c = (r, c') \<Longrightarrow>
     r = Err e \<or> r = Panic \<Longrightarrow> leave s (us @ vs) = Some s' \<Longrightarrow> sstep sha1 osText s s'"
| read: "alive s \<Longrightarrow> sv_live s = us @ \<lparr>se_client = c, se_phase = Serving\<rparr> # vs \<Longrightarrow> client_readPacket c = (Ok data, c') \<Longrightarrow>
     needsDB data \<Longrightarrow> sstep sha1 osText s (s\<lparr>sv_live := us @ \<lparr>se_client = c', se_phase = Asking data\<rparr> # vs\<rparr>)"
| read_local: "alive s \<Longrightarrow> sv_live s = us @ \<lparr>se_client = c, se_phase = Serving\<rparr> # vs \<Longrightarrow> client_readPacket c = (Ok data, c') \<Longrightarrow>
     \<not> needsDB data \<Longrightarrow> dispatch c' None data = (r, c'', back) \<Longrightarrow> settle s us vs r c'' = Some s' \<Longrightarrow> sstep sha1 osText s s'"
| read_fail: "alive s \<Longrightarrow> sv_live s = us @ \<lparr>se_client = c, se_phase = Serving\<rparr> # vs \<Longrightarrow> client_readPacket c = (r, c') \<Longrightarrow>
     r = Err e \<or> r = Panic \<Longrightarrow> leave s (us @ vs) = Some s' \<Longrightarrow> sstep sha1 osText s s'"
| pool: "alive s \<Longrightarrow> sv_db s = Some m \<Longrightarrow> pstep sha1 m m' \<Longrightarrow> db_inUse m' = db_inUse m \<Longrightarrow>
     \<not> ((selecting m \<or> dropping m) \<and> db_caller m' = Nobody) \<Longrightarrow> db_caller m = Nobody \<and> db_caller m' \<noteq> Nobody \<longrightarrow> asking s \<Longrightarrow>
     sstep sha1 osText s (s\<lparr>sv_db := Some m'\<rparr>)"
| got: "alive s \<Longrightarrow> sv_db s = Some m \<Longrightarrow> sv_live s = us @ \<lparr>se_client = c, se_phase = Asking data\<rparr> # vs \<Longrightarrow>
     pstep sha1 m m' \<Longrightarrow> db_inUse m' = mc # db_inUse m \<Longrightarrow>
     sstep sha1 osText s (s\<lparr>sv_db := Some m', sv_live := us @ \<lparr>se_client = c, se_phase = Using data mc\<rparr> # vs\<rparr>)"
| none: "alive s \<Longrightarrow> sv_db s = Some m \<Longrightarrow> sv_live s = us @ \<lparr>se_client = c, se_phase = Asking data\<rparr> # vs \<Longrightarrow>
     pstep sha1 m m' \<Longrightarrow> db_inUse m' = db_inUse m \<Longrightarrow> selecting m \<Longrightarrow> db_caller m' = Nobody \<Longrightarrow>
     dispatch c (Some None) data = (r, c', back) \<Longrightarrow> settle (s\<lparr>sv_db := Some m'\<rparr>) us vs r c' = Some s' \<Longrightarrow>
     sstep sha1 osText s s'"
| nodb: "GetDB s (c_dbname c) = None \<Longrightarrow> sv_live s = us @ \<lparr>se_client = c, se_phase = Asking data\<rparr> # vs \<Longrightarrow>
     dispatch c None data = (r, c', back) \<Longrightarrow> settle s us vs r c' = Some s' \<Longrightarrow> sstep sha1 osText s s'"
| finished: "alive s \<Longrightarrow> sv_db s = Some m \<Longrightarrow> sv_live s = us @ \<lparr>se_client = c, se_phase = Using data mc\<rparr> # vs \<Longrightarrow>
     dispatch c (Some (Some mc)) data = (r, c', Some mc') \<Longrightarrow> db_caller m = Nobody \<Longrightarrow> db_inUse m = ls @ mc # ks \<Longrightarrow>
     putConn now (m\<lparr>db_inUse := ls @ ks\<rparr>) mc' = m' \<Longrightarrow> db_caller m' = Nobody \<Longrightarrow>
     settle (s\<lparr>sv_db := Some m'\<rparr>) us vs r c' = Some s' \<Longrightarrow> sstep sha1 osText s s'"
| finished_full: "alive s \<Longrightarrow> sv_db s = Some m \<Longrightarrow> sv_live s = us @ \<lparr>se_client = c, se_phase = Using data mc\<rparr> # vs \<Longrightarrow>
     dispatch c (Some (Some mc)) data = (r, c', Some mc') \<Longrightarrow> db_caller m = Nobody \<Longrightarrow> db_inUse m = ls @ mc # ks \<Longrightarrow>
     putConn now (m\<lparr>db_inUse := ls @ ks\<rparr>) mc' = m' \<Longrightarrow> db_caller m' \<noteq> Nobody \<Longrightarrow>
     sstep sha1 osText s (s\<lparr>sv_db := Some m', sv_live := us @ \<lparr>se_client = c', se_phase = Returning r\<rparr> # vs\<rparr>)"
| dropped: "alive s \<Longrightarrow> sv_db s = Some m \<Longrightarrow> sv_live s = us @ \<lparr>se_client = c, se_phase = Returning r\<rparr> # vs \<Longrightarrow>
     dropping m \<Longrightarrow> pstep sha1 m m' \<Longrightarrow> db_caller m' = Nobody \<Longrightarrow>
     settle (s\<lparr>sv_db := Some m'\<rparr>) us vs r c = Some s' \<Longrightarrow> sstep sha1 osText s s'"
| kept: "alive s \<Longrightarrow> sv_live s = us @ \<lparr>se_client = c, se_phase = Using data mc\<rparr> # vs \<Longrightarrow>
     dispatch c (Some (Some mc)) data = (r, c', None) \<Longrightarrow> settle s us vs r c' = Some s' \<Longrightarrow> sstep sha1 osText s s'"

inductive sreachable :: "(byte list \<Rightarrow> byte list) \<Rightarrow> (gerror \<Rightarrow> byte list) \<Rightarrow> ServerConfig \<Rightarrow> Server \<Rightarrow> bool" for sha1 osText conf where
  running: "Run_start (NewServer conf) None None = Ok s \<Longrightarrow> sreachable sha1 osText conf s"
| another: "sreachable sha1 osText conf s \<Longrightarrow> sstep sha1 osText s s' \<Longrightarrow> sreachable sha1 osText conf s'"

section \<open>Invariants\<close>

text \<open>The connections that sessions are using.\<close>

definition usingOf :: "session list \<Rightarrow> mysqlConn list" where
  "usingOf live = concat (map (\<lambda>se. case se_phase se of Using _ mc \<Rightarrow> [mc] | _ \<Rightarrow> []) live)"

lemma usingOf_simps [simp]:
  "usingOf [] = []" "usingOf (us @ vs) = usingOf us @ usingOf vs"
  "usingOf (\<lparr>se_client = c, se_phase = Connecting\<rparr> # vs) = usingOf vs"
  "usingOf (\<lparr>se_client = c, se_phase = Serving\<rparr> # vs) = usingOf vs"
  "usingOf (\<lparr>se_client = c, se_phase = Asking data\<rparr> # vs) = usingOf vs"
  "usingOf (\<lparr>se_client = c, se_phase = Using data mc\<rparr> # vs) = mc # usingOf vs"
  "usingOf (\<lparr>se_client = c, se_phase = Returning r\<rparr> # vs) = usingOf vs"
  by (simp_all add: usingOf_def)

definition counted :: "Server \<Rightarrow> bool" where
  "counted s \<longleftrightarrow> cc_good (sv_count s) \<and> ChanCount_Size (sv_count s) = int (length (sv_live s)) \<and>
     cc_cap (sv_count s) = (if cfg_MaxClient (sv_cfg s) \<le> 0 then 1024 else cfg_MaxClient (sv_cfg s))"

definition pooled :: "(byte list \<Rightarrow> byte list) \<Rightarrow> ServerConfig \<Rightarrow> Server \<Rightarrow> bool" where
  "pooled sha1 conf s \<longleftrightarrow> sv_cfg s = conf \<and>
     (\<forall>m. sv_db s = Some m \<longrightarrow> reachable sha1 conf m \<and> mset (usingOf (sv_live s)) \<subseteq># mset (db_inUse m))"

lemma leave_effect:
  assumes "leave s (us @ vs) = Some s'" and "counted s" and "length (sv_live s) = Suc (length us + length vs)"
  shows "counted s' \<and> sv_live s' = us @ vs \<and> sv_db s' = sv_db s \<and> sv_cfg s' = sv_cfg s"
proof -
  from assms(1) obtain cnt where d: "ChanCount_Decr (sv_count s) = Some cnt"
    and s': "s' = s\<lparr>sv_count := cnt, sv_live := us @ vs\<rparr>" by (auto simp: leave_def)
  have "cc_good (sv_count s)" "0 < ChanCount_Size (sv_count s)" using assms(2,3) by (simp_all add: counted_def)
  from chan_count.decr_law [OF this] d have
    "ChanCount_Size cnt = ChanCount_Size (sv_count s) - 1" "cc_cap cnt = cc_cap (sv_count s)" "cc_good cnt" by auto
  then show ?thesis using s' assms(2,3) by (simp add: counted_def)
qed

text \<open>After a command the session has left or waits for the next.\<close>

lemma settle_effect:
  assumes "settle s us vs r c = Some s'" and "counted s" and "length (sv_live s) = Suc (length us + length vs)"
  shows "counted s' \<and> usingOf (sv_live s') = usingOf us @ usingOf vs \<and> sv_db s' = sv_db s \<and> sv_cfg s' = sv_cfg s"
proof (cases "\<exists>c'. s' = s\<lparr>sv_live := us @ \<lparr>se_client = c', se_phase = Serving\<rparr> # vs\<rparr>")
  case True
  with assms(2,3) show ?thesis by (auto simp: counted_def)
next
  case False
  with assms(1) have "leave s (us @ vs) = Some s'" by (auto simp: settle_def split: res.splits if_splits)
  from leave_effect [OF this assms(2,3)] show ?thesis by simp
qed

lemma counted_cong: "sv_count s' = sv_count s \<Longrightarrow> length (sv_live s') = length (sv_live s) \<Longrightarrow> sv_cfg s' = sv_cfg s \<Longrightarrow>
    counted s \<Longrightarrow> counted s'"
  by (simp add: counted_def)

lemma counted_db [simp]: "counted (s\<lparr>sv_db := d\<rparr>) = counted s"
  by (simp add: counted_def)

lemma Incr_refuse: "counted s \<Longrightarrow> ChanCount_Incr (sv_count s) = (False, cnt) \<Longrightarrow> cnt = sv_count s"
  by (auto simp: ChanCount_Incr_def split: option.splits if_splits)

lemma Incr_accept:
  assumes "counted s" and "ChanCount_Incr (sv_count s) = (True, cnt)"
  shows "cc_good cnt" "ChanCount_Size cnt = ChanCount_Size (sv_count s) + 1" "cc_cap cnt = cc_cap (sv_count s)"
proof -
  have g: "cc_good (sv_count s)" using assms(1) by (simp add: counted_def)
  have "ChanCount_Size (sv_count s) < cc_cap (sv_count s)"
    using chan_count.incr_full [OF g] assms(2) by auto
  from chan_count.incr_room [OF g this] assms(2) show
    "cc_good cnt" "ChanCount_Size cnt = ChanCount_Size (sv_count s) + 1" "cc_cap cnt = cc_cap (sv_count s)" by auto
qed

lemma counted_step: "sstep sha1 osText s s' \<Longrightarrow> counted s \<Longrightarrow> counted s'"
proof (induction rule: sstep.induct)
  case (refuse s cnt)
  with Incr_refuse [OF refuse(4,3)] show ?case by simp
next
  case (accept s cnt intn sk c n)
  with Incr_accept [OF accept(5,3)] show ?case by (simp add: counted_def)
next
  case (none s m us c data vs m' r c' bk s')
  from settle_effect [OF none(9)] none(3,10) show ?case by simp
next
  case (finished s m us c data mc vs r c' mc' ls ks now m' s')
  from settle_effect [OF finished(9)] finished(3,10) show ?case by simp
next
  case (dropped s m us c r vs m' s')
  from settle_effect [OF dropped(7)] dropped(3,8) show ?case by simp
qed (auto dest: settle_effect leave_effect intro: counted_cong)

lemma putConn_step:
  assumes "alive s" and "sv_db s = Some m" and "db_caller m = Nobody" and "db_inUse m = us @ mc # vs"
  shows "pstep sha1 m (putConn now (m\<lparr>db_inUse := us @ vs\<rparr>) mc')"
proof -
  have "db_opener m \<noteq> Crashed" using assms(1,2) by (auto simp: alive_def split: opener.splits)
  then show ?thesis using pstep.put assms(3,4) by blast
qed

lemma putConn_inUse [simp]: "db_inUse (putConn now m mc) = db_inUse m"
  by (simp add: putConn_def)

lemma dropping_inUse: "pstep sha1 m m' \<Longrightarrow> dropping m \<Longrightarrow> db_caller m' = Nobody \<Longrightarrow> db_inUse m' = db_inUse m"
  by (induction rule: pstep.induct) (auto simp: dropping_def)

lemma pooled_step: "sstep sha1 osText s s' \<Longrightarrow> counted s \<Longrightarrow> pooled sha1 conf s \<Longrightarrow> pooled sha1 conf s'"
proof (induction rule: sstep.induct)
  case (none s m us c data vs m' r c' bk s')
  from settle_effect [OF none(9)] none show ?case
    by (auto simp: pooled_def intro: reachable.next_step)
next
  case (finished s m us c data mc vs r c' mc' ls ks now m' s')
  then show ?case
    using settle_effect [OF finished(9)] putConn_step [OF finished(1,2,5,6), where now = now and mc' = mc']
    by (auto simp: pooled_def intro: reachable.next_step)
next
  case (finished_full s m us c data mc vs r c' mc' ls ks now m')
  then show ?case
    using putConn_step [OF finished_full(1,2,5,6), where now = now and mc' = mc'] by (auto simp: pooled_def intro: reachable.next_step)
next
  case (dropped s m us c r vs m' s')
  then show ?case
    using settle_effect [OF dropped(7)] dropping_inUse [OF dropped(5,4,6)]
    by (auto simp: pooled_def intro: reachable.next_step)
next
  case (kept s us c data mc vs r c' s')
  from settle_effect [OF kept(4)] kept have "usingOf (sv_live s') = usingOf us @ usingOf vs" "sv_db s' = sv_db s" "sv_cfg s' = sv_cfg s"
    by simp_all
  moreover have "mset (usingOf us @ usingOf vs) \<subseteq># mset (usingOf (sv_live s))" using kept(2) by simp
  ultimately show ?case using kept(6) by (auto simp: pooled_def intro: subset_mset.trans)
next
  case (got s m us c data vs m' mc)
  then show ?case by (auto simp: pooled_def intro: reachable.next_step)
next
  case (pool s m m')
  then show ?case by (auto simp: pooled_def intro: reachable.next_step)
qed (auto simp: pooled_def dest: settle_effect leave_effect)

lemma Run_start_inv:
  assumes "Run_start (NewServer conf) None None = Ok s"
  shows "counted s" "pooled sha1 conf s"
  using assms
  by (auto simp: Run_start_def InitDB_def NewServer_def counted_def pooled_def newChanCount_good
      split: res.splits if_splits intro: reachable.start)

lemma sreachable_inv: "sreachable sha1 osText conf s \<Longrightarrow> counted s \<and> pooled sha1 conf s"
  by (induction rule: sreachable.induct) (auto simp: Run_start_inv intro: counted_step pooled_step)

section \<open>Without a connection\<close>

text \<open>A session that is given none ends.\<close>

lemma dispatch_no_conn:
  assumes "needsDB data"
  shows "dispatch c (Some None) data = (Err ErrCannotGetConn, c, None)"
proof -
  obtain cmd where cmd: "idxAt data 0 = Ok cmd"
    and k: "cmd = com_byte ComQuery \<or> cmd = com_byte ComInitDB \<and> 4 \<le> len data \<or> cmd = com_byte ComFieldList \<or>
      cmd = com_byte ComStmtPrepare"
    using assms by (auto simp: needsDB_def split: res.splits)
  have "\<exists>name. gfrom data 4 = Ok name" if "4 \<le> len data" using that by (simp add: gfrom_def)
  with k show ?thesis
    by (auto simp: dispatch_def cmd handleQuery_def handleUseDB_def useDB_def handleFieldList_def handleStmtPrepare_def
        withDB_def)
qed

text \<open>Every connection that is out is used by a prepare, and no other will come.\<close>

definition preparing :: "session \<Rightarrow> bool" where
  "preparing se \<longleftrightarrow> (case se_phase se of Using data _ \<Rightarrow> idxAt data 0 = Ok (com_byte ComStmtPrepare) | _ \<Rightarrow> True)"

lemma preparing_simps [simp]:
  "preparing \<lparr>se_client = c, se_phase = Connecting\<rparr>" "preparing \<lparr>se_client = c, se_phase = Serving\<rparr>"
  "preparing \<lparr>se_client = c, se_phase = Asking data\<rparr>" "preparing \<lparr>se_client = c, se_phase = Returning r\<rparr>"
  "preparing \<lparr>se_client = c, se_phase = Using data mc\<rparr> \<longleftrightarrow> idxAt data 0 = Ok (com_byte ComStmtPrepare)"
  by (simp_all add: preparing_def)

definition exhausted :: "MysqlDB \<Rightarrow> bool" where
  "exhausted m \<longleftrightarrow> db_freeConn m = [] \<and> db_openCh m = 0 \<and> db_opener m = Waiting \<and> db_maxOpen m \<le> db_numOpen m \<and>
     toSend (db_caller m) = 0 \<and> leaving (db_caller m) = 0"

lemma exhausted_step: "pstep sha1 m m' \<Longrightarrow> exhausted m \<Longrightarrow> db_inUse m' = db_inUse m \<Longrightarrow> exhausted m'"
  by (induction rule: pstep.induct) (auto simp: exhausted_def toSend_def leaving_def maybeOpenNew_def)

lemma exhausted_gives_none: "pstep sha1 m m' \<Longrightarrow> exhausted m \<Longrightarrow> db_inUse m' \<noteq> mc # db_inUse m"
  by (induction rule: pstep.induct) (auto simp: exhausted_def toSend_def dest: arg_cong [where f = length])

lemma dispatch_prepare: "idxAt data 0 = Ok (com_byte ComStmtPrepare) \<Longrightarrow> dispatch c db data = (r, c', bk) \<Longrightarrow> bk = None"
  by (auto simp: dispatch_def handleStmtPrepare_def split: prod.splits)

definition starved :: "Server \<Rightarrow> bool" where
  "starved s \<longleftrightarrow> (\<exists>m. sv_db s = Some m \<and> exhausted m) \<and> list_all preparing (sv_live s)"

lemma settle_starved:
  assumes "settle s us vs r c = Some s'" and "list_all preparing (us @ vs)"
  shows "list_all preparing (sv_live s')" "sv_db s' = sv_db s" "usingOf (sv_live s') = usingOf (us @ vs)"
  using assms by (auto simp: settle_def leave_def split: res.splits if_splits)

lemma starved_step:
  "sstep sha1 osText s s' \<Longrightarrow> starved s \<Longrightarrow> starved s' \<and> set (usingOf (sv_live s')) \<subseteq> set (usingOf (sv_live s))"
proof (induction rule: sstep.induct)
  case (none s m us c data vs m' r c' bk s')
  from settle_starved [OF none(9)] none exhausted_step [OF none(4) _ none(5)] show ?case by (auto simp: starved_def)
next
  case (finished s m us c data mc vs r c' mc' ls ks now m' s')
  then have "idxAt data 0 = Ok (com_byte ComStmtPrepare)" by (simp add: starved_def)
  from dispatch_prepare [OF this finished(4)] show ?case by simp
next
  case (finished_full s m us c data mc vs r c' mc' ls ks now m')
  then have "idxAt data 0 = Ok (com_byte ComStmtPrepare)" by (simp add: starved_def)
  from dispatch_prepare [OF this finished_full(4)] show ?case by simp
next
  case (dropped s m us c r vs m' s')
  then show ?case by (auto simp: starved_def exhausted_def dropping_def leaving_def split: caller.splits)
next
  case (kept s us c data mc vs r c' s')
  from settle_starved [OF kept(4)] kept show ?case by (auto simp: starved_def)
next
  case (got s m us c data vs m' mc)
  then show ?case using exhausted_gives_none [OF got(4), of mc] by (auto simp: starved_def)
next
  case (pool s m m')
  then show ?case using exhausted_step [OF pool(3) _ pool(4)] by (auto simp: starved_def)
next
  case (read_local s us c data vs r c' c'' bk s')
  from settle_starved [OF read_local(6)] read_local show ?case by (auto simp: starved_def)
next
  case (nodb s c us data vs r c' bk s')
  from settle_starved [OF nodb(4)] nodb show ?case by (auto simp: starved_def)
qed (auto simp: starved_def leave_def)

section \<open>Properties\<close>


definition listenConn :: ServerConfig where
  "listenConn = oneConn\<lparr>cfg_Listen := [0x3a], cfg_MaxClient := 1\<rparr>"

lemma accepted_reachable:
  "sreachable sha1 osText listenConn
    \<lparr>sv_cfg = listenConn, sv_count = \<lparr>cc_max = 1, cc_ch = Some (1, 1)\<rparr>, sv_db = Some ((the_db 1)\<lparr>db_caller := Nobody\<rparr>),
      sv_base = 1001, sv_live = [\<lparr>se_client = fst (newClient 1000 intn sk listenConn), se_phase = Connecting\<rparr>]\<rparr>"
proof -
  let ?s = "(NewServer listenConn)\<lparr>sv_db := Some (the_db 1)\<rparr>"
  have "Open listenConn = Ok (the_db 1)" by (simp add: Open_def listenConn_def oneConn_def zeroConfig_def the_db_def)
  then have "sreachable sha1 osText listenConn ?s"
    by (intro sreachable.running) (simp add: Run_start_def InitDB_def NewServer_def listenConn_def)
  moreover have "sstep sha1 osText ?s (?s\<lparr>sv_db := Some ((the_db 1)\<lparr>db_caller := Nobody\<rparr>)\<rparr>)"
    by (rule sstep.pool [OF _ _ pstep.boot_done]) (simp_all add: alive_def the_db_def selecting_def dropping_def)
  ultimately have r: "sreachable sha1 osText listenConn (?s\<lparr>sv_db := Some ((the_db 1)\<lparr>db_caller := Nobody\<rparr>)\<rparr>)" (is "sreachable _ _ _ ?t")
    by (rule sreachable.another)
  have "newClient (sv_base ?t) intn sk (sv_cfg ?t) = (fst (newClient 1000 intn sk listenConn), 1001)"
    by (simp add: newClient_def NewServer_def)
  from sstep.accept [OF _ _ _ this, of "\<lparr>cc_max = 1, cc_ch = Some (1, 1)\<rparr>" sha1 osText] sreachable.another [OF r]
  show ?thesis
    by (simp add: alive_def booted_def the_db_def NewServer_def newChanCount_def ChanCount_SetMax_def listenConn_def
        ChanCount_Incr_def)
qed

definition oneClient :: Server where
  "oneClient = \<lparr>sv_cfg = listenConn, sv_count = \<lparr>cc_max = 1, cc_ch = Some (1, 1)\<rparr>, sv_db = Some ((the_db 1)\<lparr>db_caller := Nobody\<rparr>),
     sv_base = 1001, sv_live = [\<lparr>se_client = fst (newClient 1000 (\<lambda>i. i) (idleSock []) listenConn), se_phase = Connecting\<rparr>]\<rparr>"

lemma oneClient_reachable: "sreachable sha1 osText listenConn oneClient"
  unfolding oneClient_def by (rule accepted_reachable)

text \<open>C8: prepared statements use the pool up. When as many connections are open as may be, none is free and those
  that are out are used for preparing statements, then no session is ever given a connection again,
  whatever happens: a prepare does not give its connection back, closing the statement or the session
  does not either, and the pool opens no other.\<close>

theorem prepare_starves:
  assumes "(sstep sha1 osText)\<^sup>*\<^sup>* s s'" and "starved s"
  shows "starved s' \<and> set (usingOf (sv_live s')) \<subseteq> set (usingOf (sv_live s))"
  using assms by (induction rule: rtranclp_induct) (auto dest: starved_step)

text \<open>One client is enough: it logs in and prepares a statement while the database has answered nothing yet.\<close>

lemma pool_another:
  assumes "sreachable sha1 osText conf (s\<lparr>sv_db := Some m\<rparr>)" and "asking s" and "pstep sha1 m m'"
    and "db_inUse m' = db_inUse m" and "db_opener m \<noteq> Crashed" and "\<not> ((selecting m \<or> dropping m) \<and> db_caller m' = Nobody)"
  shows "sreachable sha1 osText conf (s\<lparr>sv_db := Some m'\<rparr>)"
proof -
  have "sstep sha1 osText (s\<lparr>sv_db := Some m\<rparr>) ((s\<lparr>sv_db := Some m\<rparr>)\<lparr>sv_db := Some m'\<rparr>)"
    by (rule sstep.pool [OF _ _ assms(3,4,6)]) (use assms(2,5) in \<open>auto simp: alive_def asking_def split: opener.splits\<close>)
  then show ?thesis using sreachable.another [OF assms(1)] by simp
qed

definition preparePacket :: "byte list" where
  "preparePacket = [com_byte ComStmtPrepare, 0x73]"

lemma asking_reachable:
  "\<exists>c d s. sreachable sha1 osText listenConn (s\<lparr>sv_db := Some ((the_db 1)\<lparr>db_caller := Nobody\<rparr>)\<rparr>) \<and>
    sv_live s = [\<lparr>se_client = c, se_phase = Asking d\<rparr>] \<and> vis d = preparePacket"
proof -
  let ?m = "(the_db 1)\<lparr>db_caller := Nobody\<rparr>"
  let ?es = "[Rd (framesOf 0 preparePacket) None]"
  let ?sk = "idleSock (Rd (framesOf 1 (login 0 33 [0x72] [] [])) None # ?es)"
  let ?c = "fst (newClient 1000 (\<lambda>i. i) ?sk listenConn)"
  have "clean (Rd (framesOf 1 (login 0 33 [0x72] [] [])) None # ?es)" by simp
  note c = newClient_awaits [OF this, of 1000 "\<lambda>i. i" listenConn]
  have "goodLogin [0x72] [] []" by (simp add: goodLogin_def)
  moreover have "65 \<le> c_maxPacketAllowed ?c" using c(4) by simp
  ultimately obtain c1 where h: "Handshake osText ?c = (Ok (), c1)" "awaits c1 ?es" "c_sequence c1 = 0"
    using Handshake_any [OF c(1) _ c(2,3) _ c(5)] by blast
  have a: "awaits c1 (Rd (framesOf (c_sequence c1) preparePacket) None # [])" using h(2,3) by simp
  have p: "preparePacket \<noteq> []" "4 + length preparePacket \<le> defaultBufSize" by (simp_all add: preparePacket_def defaultBufSize_def)
  obtain d c2 where r: "client_readPacket c1 = (Ok d, c2)" "vis d = preparePacket"
    using client_readPacket_next [OF a p] by metis
  have n: "needsDB d" using idxAt_hd [OF r(2) p(1)] by (simp add: needsDB_def preparePacket_def)
  let ?s = "\<lambda>live. \<lparr>sv_cfg = listenConn, sv_count = \<lparr>cc_max = 1, cc_ch = Some (1, 1)\<rparr>, sv_db = Some ?m, sv_base = 1001, sv_live = live\<rparr>"
  have al: "alive (?s live)" for live by (simp add: alive_def the_db_def)
  have "sreachable sha1 osText listenConn (?s [\<lparr>se_client = ?c, se_phase = Connecting\<rparr>])"
    by (rule accepted_reachable)
  from sreachable.another [OF this sstep.greet [OF al _ h(1), where us = "[]" and vs = "[]"]]
  have "sreachable sha1 osText listenConn (?s [\<lparr>se_client = c1, se_phase = Serving\<rparr>])" by simp
  from sreachable.another [OF this sstep.read [OF al _ r(1) n, where us = "[]" and vs = "[]"]]
  have "sreachable sha1 osText listenConn (?s [\<lparr>se_client = c2, se_phase = Asking d\<rparr>])" by simp
  then show ?thesis using r(2) by (intro exI [of _ c2] exI [of _ d] exI [of _ "?s [\<lparr>se_client = c2, se_phase = Asking d\<rparr>]"]) simp
qed

lemma starved_reachable:
  "\<exists>s. sreachable (\<lambda>x. replicate 20 7) osText listenConn s \<and> starved s \<and> length (usingOf (sv_live s)) = 1"
proof -
  let ?sha = "\<lambda>x :: byte list. replicate 20 7 :: byte list"
  let ?d = "the_db 1"
  obtain c d s where r: "sreachable ?sha osText listenConn (s\<lparr>sv_db := Some (?d\<lparr>db_caller := Nobody\<rparr>)\<rparr>)"
    and l: "sv_live s = [\<lparr>se_client = c, se_phase = Asking d\<rparr>]" and d: "vis d = preparePacket"
    using asking_reachable by blast
  have a: "asking s" by (simp add: asking_def l)
  note step = pool_another [OF _ a]
  from step [OF r pstep.get_lock]
  have "sreachable ?sha osText listenConn (s\<lparr>sv_db := Some (?d\<lparr>db_caller := Sending 1\<rparr>)\<rparr>)"
    by (simp add: the_db_def maybeOpenNew_def selecting_def dropping_def)
  from step [OF this pstep.get_send]
  have "sreachable ?sha osText listenConn (s\<lparr>sv_db := Some (?d\<lparr>db_caller := Sending 0, db_openCh := 1\<rparr>)\<rparr>)"
    by (simp add: the_db_def chanCap_def selecting_def dropping_def)
  from step [OF this pstep.op_take]
  have r3: "sreachable ?sha osText listenConn (s\<lparr>sv_db := Some (?d\<lparr>db_caller := Sending 0, db_opener := Dialing\<rparr>)\<rparr>)"
    (is "sreachable _ _ _ (s\<lparr>sv_db := Some ?m\<rparr>)") by (simp add: the_db_def selecting_def dropping_def)
  have "db_user ?m = [0x72]" "db_db ?m = []" by (simp_all add: the_db_def)
  from dialed_connects [OF this] obtain mc where "dialConn ?sha 5 ?m (Inl dialed) None = Ok mc" by blast
  from step [OF r3 pstep.op_dial [OF _ this]]
  have "sreachable ?sha osText listenConn (s\<lparr>sv_db := Some (?d\<lparr>db_caller := Sending 0, db_opener := Counting 0 mc\<rparr>)\<rparr>)"
    by (simp add: the_db_def selecting_def dropping_def)
  from step [OF this pstep.op_count]
  have "sreachable ?sha osText listenConn (s\<lparr>sv_db := Some (?d\<lparr>db_caller := Sending 0, db_opener := Holding mc, db_numOpen := 1\<rparr>)\<rparr>)"
    by (simp add: the_db_def selecting_def dropping_def)
  from step [OF this pstep.op_send]
  have "sreachable ?sha osText listenConn (s\<lparr>sv_db := Some (?d\<lparr>db_caller := Sending 0, db_numOpen := 1, db_freeConn := [mc]\<rparr>)\<rparr>)"
    by (simp add: the_db_def chanCap_def selecting_def dropping_def)
  from step [OF this pstep.get_select]
  have r6: "sreachable ?sha osText listenConn (s\<lparr>sv_db := Some (?d\<lparr>db_caller := Selecting 10, db_numOpen := 1, db_freeConn := [mc]\<rparr>)\<rparr>)"
    (is "sreachable _ _ _ (s\<lparr>sv_db := Some ?m6\<rparr>)") by (simp add: the_db_def selecting_def dropping_def)
  have p: "pstep ?sha ?m6 (?m6\<lparr>db_freeConn := [], db_inUse := mc # db_inUse ?m6, db_caller := Nobody\<rparr>)" (is "pstep _ _ ?m7")
    by (rule pstep.get_recv [where t = 9]) (simp_all add: the_db_def)
  let ?s7 = "s\<lparr>sv_db := Some ?m7, sv_live := [\<lparr>se_client = c, se_phase = Using d mc\<rparr>]\<rparr>"
  have "sstep ?sha osText (s\<lparr>sv_db := Some ?m6\<rparr>) ?s7"
    using sstep.got [OF _ _ _ p, of "s\<lparr>sv_db := Some ?m6\<rparr>" "[]" c d "[]" mc osText] l by (simp add: alive_def the_db_def)
  from sreachable.another [OF r6 this] have "sreachable ?sha osText listenConn ?s7" .
  moreover have "idxAt d 0 = Ok (com_byte ComStmtPrepare)" using idxAt_hd [of d] d by (simp add: preparePacket_def)
  then have "starved ?s7" by (simp add: starved_def exhausted_def the_db_def toSend_def leaving_def)
  ultimately show ?thesis by (intro exI [of _ ?s7]) simp
qed

theorem prepare_starves_witness:
  "\<exists>s. sreachable (\<lambda>x. replicate 20 7) (\<lambda>e. []) listenConn s \<and> length (usingOf (sv_live s)) = 1 \<and>
    {s'. (sstep (\<lambda>x. replicate 20 7) (\<lambda>e. []))\<^sup>*\<^sup>* s s'} \<subseteq>
      {s'. starved s' \<and> set (usingOf (sv_live s')) \<subseteq> set (usingOf (sv_live s))}"
  using starved_reachable [of "\<lambda>e. []"] prepare_starves [of "\<lambda>x. replicate 20 7" "\<lambda>e. []"] by blast


end
