(* ===== verification/Server_Total.thy ===== *)
theory Server_Total
  imports Server_Run
begin

text \<open>
  No call of the server loops for ever, whatever its clients and the database send and however their
  sockets fail. The only loop that could is the one in \<^verbatim>\<open>fill\<close>, when it reads into an empty slice; that a buffer
  never comes to this is an invariant that every operation on a connection keeps, on its error paths too.
\<close>

section \<open>Calls that return\<close>

text \<open>\<open>total I V rs\<close>: the call has not spun, its state satisfies \<open>I\<close>, and its value, when it has one, \<open>V\<close>.\<close>

definition total :: "('s \<Rightarrow> bool) \<Rightarrow> ('a \<Rightarrow> bool) \<Rightarrow> 'a res \<times> 's \<Rightarrow> bool" where
  "total I V rs \<longleftrightarrow> fst rs \<noteq> Spin \<and> I (snd rs) \<and> (\<forall>a. fst rs = Ok a \<longrightarrow> V a)"

abbreviation totals :: "('s \<Rightarrow> bool) \<Rightarrow> 'a res \<times> 's \<Rightarrow> bool" where
  "totals I \<equiv> total I (\<lambda>_. True)"

lemma total_simps [simp]:
  "total I V (Ok a, s) \<longleftrightarrow> I s \<and> V a" "total I V (Err e, s) \<longleftrightarrow> I s" "total I V (Panic, s) \<longleftrightarrow> I s"
  "\<not> total I V (Spin, s)"
  by (auto simp: total_def)

lemma total_bind:
  assumes "total I V rs" and "\<And>a s. I s \<Longrightarrow> V a \<Longrightarrow> total I W (f a s)"
  shows "total I W (bindS rs f)"
  using assms by (cases rs; cases "fst rs") auto

lemma total_weaken: "total I V rs \<Longrightarrow> totals I rs"
  by (simp add: total_def)

text \<open>Calls without a state.\<close>

definition quiet :: "'a res \<Rightarrow> bool" where
  "quiet r \<longleftrightarrow> r \<noteq> Spin"

lemma quiet_simps [simp]: "quiet (Ok a)" "quiet (Err e)" "quiet Panic" "\<not> quiet Spin"
  by (simp_all add: quiet_def)

lemma total_quiet: "quiet r \<Longrightarrow> I s \<Longrightarrow> totals I (r, s)"
  by (simp add: total_def quiet_def)

lemma quiet_bindR: "quiet r \<Longrightarrow> (\<And>a. quiet (f a)) \<Longrightarrow> quiet (bindR r f)"
  by (cases r) auto

lemma quiet_calls [simp]:
  "quiet (idxAt s i)" "quiet (gfrom s i)" "quiet (gsub s i j)" "quiet (leUint16 b)" "quiet (leUint32 b)"
  "quiet (readLengthEncodedInteger b)" "quiet (readStatus b)" "quiet (makeSlices n)"
  "quiet (ScramblePassword sha1 x y)"
  by (simp_all add: idxAt_def gfrom_def gsub_def Let_def leUint16_def leUint32_def readLengthEncodedInteger_def
      readStatus_def makeSlices_def ScramblePassword_def scramblePassword_def xorBytes_def)

lemma quiet_handleErrorPacket [simp]: "quiet (handleErrorPacket data)"
  unfolding handleErrorPacket_def by (auto simp: Let_def intro!: quiet_bindR)

section \<open>The buffer\<close>

lemma length_copyAt_all: "length (copyAt xs i ys) = length xs"
  by (auto simp: copyAt_def Let_def)

lemma wf_length: "length (b_buf b') = length (b_buf b) \<Longrightarrow> b_idx b' = b_idx b \<Longrightarrow> b_len b' = b_len b \<Longrightarrow> wf_buffer b' = wf_buffer b"
  by (simp add: wf_buffer_def)

lemma readNext_total': "wf_buffer b \<Longrightarrow> totals wf_buffer (readNext b n)"
proof (cases "b_nc b")
  case None
  assume "wf_buffer b"
  with None show ?thesis
    using fillArray_props [of b n]
    by (auto simp: readNext_def fill_def wf_buffer_def Let_def)
next
  case (Some s)
  assume "wf_buffer b"
  from readNext_safe [OF this, of n] Some show ?thesis by (auto simp: total_def returns_def split: res.splits)
qed

lemma takeBuffer_total: "wf_buffer b \<Longrightarrow> totals wf_buffer (takeBuffer b n)"
  by (auto simp: takeBuffer_def wf_buffer_def)

lemma takeSmallBuffer_total: "wf_buffer b \<Longrightarrow> totals wf_buffer (takeSmallBuffer b n)"
  by (auto simp: takeSmallBuffer_def)

lemma writeBack_wf [simp]: "wf_buffer (writeBack own data b) = wf_buffer b"
  by (simp add: writeBack_def wf_buffer_def length_copyAt_all)

lemma appendInto_wf [simp]: "wf_buffer (appendInto b s bs) = wf_buffer b"
  by (simp add: appendInto_def wf_buffer_def length_copyAt_all split: option.split prod.split)

lemma readPacketLoop_total:
  assumes "wf_buffer b"
  shows "fst (readPacketLoop b q p) \<noteq> Inl RdSpin \<and> wf_buffer (fst (snd (readPacketLoop b q p)))"
  using assms
proof (induction b q p rule: readPacketLoop.induct)
  case (1 b q p)
  obtain r b1 where h: "readNext b 4 = (r, b1)" by fastforce
  with readNext_total' [OF 1(2), of 4] have 2: "r \<noteq> Spin" "wf_buffer b1" by (auto simp: total_def)
  show ?case
  proof (cases "\<exists>hdr. r = Ok hdr \<and> \<not> hdrLen (vis hdr) < 1 \<and> vis hdr ! 3 = q")
    case False
    with 2 show ?thesis by (cases r) (auto simp: readPacketLoop.simps [of b] h Let_def)
  next
    case True
    then obtain hdr where hdr: "r = Ok hdr" "\<not> hdrLen (vis hdr) < 1" "vis hdr ! 3 = q" by blast
    obtain r2 b2 where d: "readNext b1 (hdrLen (vis hdr)) = (r2, b2)" by fastforce
    with readNext_total' [OF 2(2), of "hdrLen (vis hdr)"] have 3: "r2 \<noteq> Spin" "wf_buffer b2" by (auto simp: total_def)
    show ?thesis
    proof (cases "\<exists>data. r2 = Ok data \<and> \<not> hdrLen (vis hdr) < MaxPacketSize")
      case False
      with 3 hdr show ?thesis
        by (cases r2) (auto simp: readPacketLoop.simps [of b] h d Let_def)
    next
      case True
      then obtain data where data: "r2 = Ok data" "\<not> hdrLen (vis hdr) < MaxPacketSize" by blast
      let ?p = "(case p of None \<Rightarrow> [] | Some p \<Rightarrow> p) @ vis data"
      have "readPacketLoop b q p = readPacketLoop b2 (q + 1) (Some ?p)"
        using hdr data by (simp add: readPacketLoop.simps [of b] h d Let_def)
      with 1(1) [OF h [symmetric]] hdr data d 3 show ?thesis by auto
    qed
  qed
qed

lemma writeLoop_total: "fst (writeLoop s t q data) \<noteq> Spin"
proof (induction "length data" arbitrary: s q data rule: less_induct)
  case less
  show ?case
  proof (cases "MaxPacketSize \<le> length data - 4")
    case False
    then show ?thesis by (subst writeLoop.simps) (simp add: Let_def case_prod_beta del: sockWrite.simps)
  next
    case True
    let ?data = "[0xff, 0xff, 0xff, q] @ drop 4 data"
    have "length (drop MaxPacketSize ?data) < length data" using True by (auto simp: MaxPacketSize_def)
    from less [OF this] have "fst (writeLoop s' t (q + 1) (drop MaxPacketSize ?data)) \<noteq> Spin" for s' .
    with True show ?thesis by (subst writeLoop.simps) (simp add: Let_def case_prod_beta del: sockWrite.simps)
  qed
qed

lemma sendPacket_total: "wf_buffer b \<Longrightarrow> fst (sendPacket b m t q d) \<noteq> Spin \<and> wf_buffer (fst (snd (sendPacket b m t q d)))"
  using writeLoop_total by (auto simp: sendPacket_def wf_nc case_prod_beta split: option.split)

section \<open>Connections with the database\<close>

named_theorems total_intro \<open>operations that return and keep their connection's buffer in order\<close>

lemma total_seq [total_intro]:
  "totals I rs \<Longrightarrow> (\<And>a s. I s \<Longrightarrow> totals I (f a s)) \<Longrightarrow> totals I (bindS rs f)"
  by (rule total_bind)

definition mc_wf :: "mysqlConn \<Rightarrow> bool" where
  "mc_wf mc \<longleftrightarrow> wf_buffer (mc_buf mc)"

lemma mc_wf_simps [simp]:
  "mc_wf (mc\<lparr>mc_affectedRows := a\<rparr>) = mc_wf mc" "mc_wf (mc\<lparr>mc_insertID := a\<rparr>) = mc_wf mc"
  "mc_wf (mc\<lparr>mc_status := st\<rparr>) = mc_wf mc" "mc_wf (mc\<lparr>mc_flags := fl\<rparr>) = mc_wf mc"
  "mc_wf (mc\<lparr>mc_sequence := q\<rparr>) = mc_wf mc" "mc_wf (mc\<lparr>mc_dbname := n\<rparr>) = mc_wf mc"
  "mc_wf (mc\<lparr>mc_buf := b\<rparr>) = wf_buffer b" "mc_wf (mc_Close mc) = mc_wf mc"
  by (simp_all add: mc_wf_def mc_Close_def wf_nc)

lemma mc_wf_buf: "mc_wf mc \<Longrightarrow> wf_buffer (mc_buf mc)"
  by (simp add: mc_wf_def)

lemma mc_readPacket_total [total_intro]: "mc_wf mc \<Longrightarrow> totals mc_wf (mc_readPacket mc)"
  using readPacketLoop_total [OF mc_wf_buf, of mc "mc_sequence mc" None]
  by (auto simp: mc_readPacket_def Let_def case_prod_beta split: sum.split rd_fail.split)

lemma mc_writePacket_total [total_intro]: "mc_wf mc \<Longrightarrow> totals mc_wf (mc_writePacket mc d)"
  using sendPacket_total [OF mc_wf_buf, of mc "mc_maxPacketAllowed mc" "mc_writeTimeout mc" "mc_sequence mc" d]
  by (simp add: mc_writePacket_def case_prod_beta total_def)

lemma sendTaken_total [total_intro]: "totals wf_buffer t \<Longrightarrow> mc_wf mc \<Longrightarrow> totals mc_wf (sendTaken mc t f)"
  by (cases t; cases "fst t")
    (auto simp: sendTaken_def intro!: mc_writePacket_total split: option.split)

lemma commands_total [total_intro]:
  assumes "mc_wf mc"
  shows "totals mc_wf (writeCommandPacket mc c)" "totals mc_wf (writePacketByte mc c bs)"
    "totals mc_wf (writeCommandPacketStr mc c bs)" "totals mc_wf (writeCommandPacketUint32 mc c n)"
  using assms takeBuffer_total [OF mc_wf_buf, OF assms] takeSmallBuffer_total [OF mc_wf_buf, OF assms]
  by (auto simp: writeCommandPacket_def writePacketByte_def writeCommandPacketStr_def writeCommandPacketUint32_def Let_def
      intro!: sendTaken_total)

lemma handleOkPacket_total [total_intro]: "mc_wf mc \<Longrightarrow> totals mc_wf (handleOkPacket mc data)"
  unfolding handleOkPacket_def
  by (auto simp: Let_def split: prod.split intro!: total_seq total_quiet quiet_bindR)

lemma readResultSetHeaderPacket_total [total_intro]: "mc_wf mc \<Longrightarrow> totals mc_wf (readResultSetHeaderPacket mc)"
  unfolding readResultSetHeaderPacket_def
  by (auto split: prod.split intro!: total_intro total_quiet quiet_bindR)

lemma readResultSetLoop_total [total_intro]: "mc_wf mc \<Longrightarrow> totals mc_wf (readResultSetLoop mc res n i)"
proof (induction mc res n i rule: readResultSetLoop.induct)
  case (1 mc res n i)
  obtain r mc' where r: "mc_readPacket mc = (r, mc')" by fastforce
  with mc_readPacket_total [OF 1(2)] have "r \<noteq> Spin" "mc_wf mc'" by (auto simp: total_def)
  with 1(1) r show ?case
    by (subst readResultSetLoop.simps) (auto simp: Let_def split: res.split)
qed

lemma readUntilEOF_total [total_intro]: "mc_wf mc \<Longrightarrow> totals mc_wf (readUntilEOF mc res)"
proof (induction mc res rule: readUntilEOF.induct)
  case (1 mc res)
  obtain r mc' where r: "mc_readPacket mc = (r, mc')" by fastforce
  with mc_readPacket_total [OF 1(2)] have "r \<noteq> Spin" "mc_wf mc'" by (auto simp: total_def)
  with 1(1) r show ?case
    by (subst readUntilEOF.simps) (auto simp: Let_def split: res.split intro!: total_seq total_quiet quiet_bindR)
qed

lemma mc_Exec_total [total_intro]: "mc_wf mc \<Longrightarrow> totals mc_wf (mc_Exec mc data)"
  unfolding mc_Exec_def by (auto intro!: total_intro total_quiet)

lemma mc_Query_total [total_intro]: "mc_wf mc \<Longrightarrow> totals mc_wf (mc_Query mc data)"
  unfolding mc_Query_def readResultSetPacket_def by (auto intro!: total_intro total_quiet)

section \<open>Statements\<close>

definition stmt_wf :: "mysqlStmt \<Rightarrow> bool" where
  "stmt_wf st \<longleftrightarrow> (\<forall>mc. st_mc st = Some mc \<longrightarrow> mc_wf mc)"

lemma stmt_wf_simps [simp]:
  "stmt_wf (st\<lparr>st_mc := None\<rparr>)" "stmt_wf (st\<lparr>st_mc := Some mc\<rparr>) = mc_wf mc"
  "stmt_wf (st\<lparr>st_id := i\<rparr>) = stmt_wf st" "stmt_wf (st\<lparr>st_paramCount := n\<rparr>) = stmt_wf st"
  "stmt_wf \<lparr>st_id = i, st_mc = Some mc, st_paramCount = n\<rparr> = mc_wf mc"
  by (simp_all add: stmt_wf_def)

lemma stmt_wfD: "stmt_wf st \<Longrightarrow> st_mc st = Some mc \<Longrightarrow> mc_wf mc"
  by (simp add: stmt_wf_def)

lemma withMc_total [total_intro]: "totals mc_wf rm \<Longrightarrow> totals stmt_wf (withMc ms rm)"
  by (simp add: withMc_def total_def)

lemma readPrepareResultPacket_total:
  assumes "stmt_wf ms"
  shows "totals stmt_wf (readPrepareResultPacket ms)"
proof (cases "st_mc ms")
  case None
  with assms show ?thesis by (simp add: readPrepareResultPacket_def)
next
  case (Some mc)
  show ?thesis
    unfolding readPrepareResultPacket_def Some option.case
    using stmt_wfD [OF assms Some] by (auto simp: Let_def intro!: total_intro total_quiet quiet_bindR)
qed

lemma mc_Prepare_total:
  assumes "mc_wf mc"
  shows "total mc_wf (\<lambda>(res, stmt). stmt_wf stmt) (mc_Prepare mc query)"
proof -
  let ?V = "\<lambda>(res :: gslice list, stmt). stmt_wf stmt"
  have "total mc_wf ?V (bindS (writeCommandPacketStr mc (com_byte ComStmtPrepare) query) (\<lambda>_ mc.
      (case readPrepareResultPacket \<lparr>st_id = 0, st_mc = Some mc, st_paramCount = 0\<rparr> of
         (r, stmt) \<Rightarrow>
           (let mc = (case st_mc stmt of Some m \<Rightarrow> m | None \<Rightarrow> mc) in
            bindS (r, mc) (\<lambda>(head, columnCount) mc.
            bindS (if 0 < st_paramCount stmt then readUntilEOF mc [head] else (Ok [head], mc)) (\<lambda>data mc.
            bindS (if 0 < columnCount then readUntilEOF mc data else (Ok data, mc)) (\<lambda>data mc.
              (Ok (data, stmt\<lparr>st_mc := Some mc\<rparr>), mc))))))))"
  proof (rule total_bind)
    show "totals mc_wf (writeCommandPacketStr mc (com_byte ComStmtPrepare) query)"
      by (rule commands_total(3)) (rule assms)
    fix mc assume mc: "mc_wf mc"
    obtain r stmt where p: "readPrepareResultPacket \<lparr>st_id = 0, st_mc = Some mc, st_paramCount = 0\<rparr> = (r, stmt)" by fastforce
    with readPrepareResultPacket_total [of "\<lparr>st_id = 0, st_mc = Some mc, st_paramCount = 0\<rparr>"] mc
    have "r \<noteq> Spin" "stmt_wf stmt" by (simp_all add: total_def)
    then have q: "quiet r" and m: "mc_wf (case st_mc stmt of Some m \<Rightarrow> m | None \<Rightarrow> mc)"
      using mc by (simp_all add: quiet_def stmt_wf_def split: option.split)
    show "total mc_wf ?V (case readPrepareResultPacket \<lparr>st_id = 0, st_mc = Some mc, st_paramCount = 0\<rparr> of
         (r, stmt) \<Rightarrow>
           (let mc = (case st_mc stmt of Some m \<Rightarrow> m | None \<Rightarrow> mc) in
            bindS (r, mc) (\<lambda>(head, columnCount) mc.
            bindS (if 0 < st_paramCount stmt then readUntilEOF mc [head] else (Ok [head], mc)) (\<lambda>data mc.
            bindS (if 0 < columnCount then readUntilEOF mc data else (Ok data, mc)) (\<lambda>data mc.
              (Ok (data, stmt\<lparr>st_mc := Some mc\<rparr>), mc))))))"
      unfolding p prod.case Let_def
      by (rule total_bind, rule total_quiet, rule q, rule m)
        (auto intro!: total_bind [where V = "\<lambda>_. True"] readUntilEOF_total)
  qed
  with assms show ?thesis by (simp add: mc_Prepare_def)
qed

lemma stmt_Query_total:
  assumes "stmt_wf ms"
  shows "totals stmt_wf (stmt_Query ms data)"
  using assms by (auto simp: stmt_Query_def split: option.split intro!: withMc_total mc_Query_total dest: stmt_wfD)

lemma stmt_Close_total:
  assumes "stmt_wf ms"
  shows "fst (stmt_Close ms) \<noteq> Spin \<and> stmt_wf (fst (snd (stmt_Close ms)))"
proof (cases "st_mc ms")
  case None
  with assms show ?thesis by (simp add: stmt_Close_def)
next
  case (Some mc)
  from commands_total(4) [OF stmt_wfD [OF assms Some], of "com_byte ComStmtClose" "st_id ms"] Some assms show ?thesis
    by (auto simp: stmt_Close_def total_def split: prod.split res.split)
qed

section \<open>The connection phase\<close>

lemma readInitPacket_total [total_intro]: "mc_wf mc \<Longrightarrow> totals mc_wf (readInitPacket mc)"
  unfolding readInitPacket_def
  by (auto simp: Let_def mc_wf_buf intro!: total_intro total_quiet quiet_bindR)

lemma taken_total:
  assumes "totals wf_buffer t" and "\<And>data own b. wf_buffer b \<Longrightarrow> totals mc_wf (f data own b)"
  shows "totals mc_wf (case t of
      (Ok None, b) \<Rightarrow> (Err DriverBadConn, mc\<lparr>mc_buf := b\<rparr>)
    | (Ok (Some (data, own)), b) \<Rightarrow> f data own b
    | (Err e, b) \<Rightarrow> (Err e, mc\<lparr>mc_buf := b\<rparr>)
    | (Panic, b) \<Rightarrow> (Panic, mc\<lparr>mc_buf := b\<rparr>)
    | (Spin, b) \<Rightarrow> (Spin, mc\<lparr>mc_buf := b\<rparr>))"
  using assms by (cases t; cases "fst t") (auto split: option.split)

lemma writeAuthPacket_total [total_intro]:
  assumes "mc_wf mc"
  shows "totals mc_wf (writeAuthPacket sha1 mc cipher)"
  unfolding writeAuthPacket_def Let_def
  by (intro total_seq total_quiet taken_total takeSmallBuffer_total mc_wf_buf)
    (auto split: option.split intro!: assms mc_writePacket_total)

lemma readInitOK_total [total_intro]: "mc_wf mc \<Longrightarrow> totals mc_wf (readInitOK mc)"
  unfolding readInitOK_def by (auto intro!: total_intro total_quiet)

section \<open>Clients\<close>

definition client_wf :: "Client \<Rightarrow> bool" where
  "client_wf c \<longleftrightarrow> wf_buffer (c_buf c) \<and> (\<forall>st. c_stmt c = Some st \<longrightarrow> stmt_wf st)"

lemma client_wf_simps [simp]:
  "client_wf (c\<lparr>c_sequence := q\<rparr>) = client_wf c" "client_wf (c\<lparr>c_die := d\<rparr>) = client_wf c"
  "client_wf (c\<lparr>c_capability := k\<rparr>) = client_wf c" "client_wf (c\<lparr>c_user := u\<rparr>) = client_wf c"
  "client_wf (c\<lparr>c_dbname := n\<rparr>) = client_wf c"
  by (simp_all add: client_wf_def)

lemma client_wf_buf: "client_wf c \<Longrightarrow> wf_buffer (c_buf c)"
  by (simp add: client_wf_def)

lemma client_wf_set:
  "client_wf c \<Longrightarrow> wf_buffer b \<Longrightarrow> client_wf (c\<lparr>c_buf := b\<rparr>)"
  "client_wf c \<Longrightarrow> stmt_wf st \<Longrightarrow> client_wf (c\<lparr>c_stmt := Some st\<rparr>)"
  "client_wf c \<Longrightarrow> client_wf (c\<lparr>c_stmt := None\<rparr>)"
  by (simp_all add: client_wf_def)

lemma client_close_total [total_intro]: "client_wf c \<Longrightarrow> totals client_wf (client_close c)"
  by (simp add: client_close_def)

lemma client_readPacket_total [total_intro]:
  assumes "client_wf c"
  shows "totals client_wf (client_readPacket c)"
proof -
  obtain r b s where l: "readPacketLoop (c_buf c) (c_sequence c) None = (r, b, s)" by (metis prod_cases3)
  with readPacketLoop_total [OF client_wf_buf [OF assms], of "c_sequence c" None] have r: "r \<noteq> Inl RdSpin" "wf_buffer b"
    by simp_all
  then have "client_wf (c\<lparr>c_buf := b, c_sequence := s\<rparr>)" using client_wf_set(1) [OF assms] by simp
  with r l show ?thesis
    by (auto simp: client_readPacket_def Let_def split: sum.split rd_fail.split intro!: total_intro)
qed

lemma client_writePacket_total [total_intro]: "client_wf c \<Longrightarrow> totals client_wf (client_writePacket c d)"
  using sendPacket_total [OF client_wf_buf, of c "c_maxPacketAllowed c" "c_writeTimeout c" "c_sequence c" d]
  by (simp add: client_writePacket_def case_prod_beta total_def client_wf_set(1))

lemma resultLoop_total: "client_wf c \<Longrightarrow> quiet err \<Longrightarrow> totals client_wf (resultLoop c err ps)"
proof (induction ps arbitrary: c err)
  case Nil
  then show ?case by (simp add: total_quiet)
next
  case (Cons p ps)
  obtain t b where t: "takeBuffer (c_buf c) (length p + 4) = (t, b)" by fastforce
  with takeBuffer_total [OF client_wf_buf [OF Cons.prems(1)], of "length p + 4"] have "quiet t" "wf_buffer b"
    by (auto simp: total_def quiet_def)
  note b = this
  show ?case
  proof (cases "\<exists>data own. t = Ok (Some (data, own))")
    case False
    with t b show ?thesis by (cases t) (auto simp: client_wf_set Cons.prems split: option.split)
  next
    case True
    then obtain data own where d: "t = Ok (Some (data, own))" by blast
    let ?data = "copyAt data 4 p"
    obtain r c' where w: "client_writePacket (c\<lparr>c_buf := writeBack own ?data b\<rparr>) (?data, own) = (r, c')" by fastforce
    have "totals client_wf (client_writePacket (c\<lparr>c_buf := writeBack own ?data b\<rparr>) (?data, own))"
      using b Cons.prems by (intro client_writePacket_total client_wf_set) simp_all
    with w Cons.IH [of c'] t d show ?thesis by (cases r) (simp_all add: Let_def)
  qed
qed

lemma writeResultPackets_total [total_intro]: "client_wf c \<Longrightarrow> totals client_wf (writeResultPackets c ps)"
  by (simp add: writeResultPackets_def resultLoop_total)

lemma greeting_total [total_intro]:
  assumes "client_wf c"
  shows "totals client_wf (writeInitHandshake c)" "totals client_wf (writeOK c)" "totals client_wf (writeError osText c e)"
  using assms by (auto simp: writeInitHandshake_def writeOK_def writeError_def Let_def simp del: append.simps append_assoc
      intro!: client_writePacket_total)

lemma readHandshakeRespone_total: "client_wf c \<Longrightarrow> totals client_wf (readHandshakeRespone c)"
  unfolding readHandshakeRespone_def
  by (auto simp: Let_def intro!: total_intro total_quiet quiet_bindR)

lemma dropErr_total [total_intro]: "totals I rs \<Longrightarrow> totals I (dropErr rs)"
  by (cases rs; cases "fst rs") (auto simp: dropErr_def)

lemma Handshake_total: "client_wf c \<Longrightarrow> totals client_wf (Handshake osText c)"
  unfolding Handshake_def
proof (rule total_seq)
  fix c assume "client_wf c"
  obtain r c' where r: "readHandshakeRespone c = (r, c')" by fastforce
  with readHandshakeRespone_total [OF \<open>client_wf c\<close>] have "totals client_wf (r, c')" by simp
  then show "totals client_wf (case readHandshakeRespone c of
      (Err e, c) \<Rightarrow> bindS (dropErr (writeError osText c e)) (\<lambda>_ c. (Err e, c))
    | (Ok _, c) \<Rightarrow> bindS (dropErr (writeOK c)) (\<lambda>_ c. (Ok (), c\<lparr>c_sequence := 0\<rparr>))
    | (Panic, c) \<Rightarrow> (Panic, c) | (Spin, c) \<Rightarrow> (Spin, c))"
    unfolding r by (cases r) (auto intro!: total_intro)
qed (rule greeting_total(1))

section \<open>Handlers\<close>

definition both_wf :: "Client \<times> mysqlConn \<Rightarrow> bool" where
  "both_wf s \<longleftrightarrow> client_wf (fst s) \<and> mc_wf (snd s)"

definition back_wf :: "Client \<times> mysqlConn option \<Rightarrow> bool" where
  "back_wf s \<longleftrightarrow> client_wf (fst s) \<and> (\<forall>mc. snd s = Some mc \<longrightarrow> mc_wf mc)"

definition db_wf :: "db_result \<Rightarrow> bool" where
  "db_wf db \<longleftrightarrow> (\<forall>mc. db = Some (Some mc) \<longrightarrow> mc_wf mc)"

lemma back_wf_simps [simp]: "back_wf (c, None) = client_wf c" "back_wf (c, Some mc) = both_wf (c, mc)"
  by (simp_all add: back_wf_def both_wf_def)

lemma db_wf_simps [simp]: "db_wf None" "db_wf (Some None)" "db_wf (Some (Some mc)) = mc_wf mc"
  by (simp_all add: db_wf_def)

lemma onConn_total: "both_wf s \<Longrightarrow> total mc_wf V (f (snd s)) \<Longrightarrow> total both_wf V (onConn f s)"
  by (cases "f (snd s)"; cases "fst (f (snd s))") (auto simp: onConn_def both_wf_def)

lemma onClient_total: "both_wf s \<Longrightarrow> totals client_wf (f (fst s)) \<Longrightarrow> totals both_wf (onClient f s)"
  by (cases "f (fst s)"; cases "fst (f (fst s))") (auto simp: onClient_def both_wf_def)

lemma forward_total: "both_wf s \<Longrightarrow> totals both_wf (forward res s)"
  unfolding forward_def by (rule onClient_total) (auto simp: both_wf_def intro: writeResultPackets_total)

lemma withDB_total:
  assumes "client_wf c" and "db_wf db" and "\<And>s. both_wf s \<Longrightarrow> totals both_wf (f s)"
  shows "totals back_wf (withDB c db f)"
proof (cases "\<exists>mc. db = Some (Some mc)")
  case False
  with assms(1) show ?thesis by (auto simp: withDB_def split: option.split)
next
  case True
  then obtain mc where mc: "db = Some (Some mc)" by blast
  with assms(1,2) assms(3) [of "(c, mc)"] have "totals both_wf (f (c, mc))" by (simp add: both_wf_def)
  then show ?thesis by (cases "f (c, mc)"; cases "fst (f (c, mc))") (auto simp: withDB_def mc)
qed

lemma handlers_total:
  assumes "client_wf c" and "db_wf db"
  shows "totals back_wf (handleQuery c db data)" "totals back_wf (handleFieldList c db data)"
    "totals back_wf (useDB c db name)"
proof -
  have q: "totals both_wf (onConn (\<lambda>mc. mc_Query mc d) s)" "totals both_wf (onConn (\<lambda>mc. mc_Exec mc d) s)" if "both_wf s" for d s
    using that by (auto simp: both_wf_def intro!: onConn_total mc_Query_total mc_Exec_total)
  show "totals back_wf (handleQuery c db data)" "totals back_wf (handleFieldList c db data)"
    unfolding handleQuery_def handleFieldList_def
    by (rule withDB_total [OF assms], intro total_seq q forward_total, assumption+)+
  show "totals back_wf (useDB c db name)"
    unfolding useDB_def Let_def
    by (rule withDB_total [OF assms], intro total_seq q forward_total, assumption+) (simp add: both_wf_def)
qed

lemma handleUseDB_total: "client_wf c \<Longrightarrow> db_wf db \<Longrightarrow> totals back_wf (handleUseDB c db data)"
  by (auto simp: handleUseDB_def handlers_total split: res.split)

lemma handleStmtPrepare_total:
  assumes "client_wf c" and "db_wf db"
  shows "totals back_wf (handleStmtPrepare c db data)"
proof -
  have f: "totals both_wf (bindS (onConn (\<lambda>mc. mc_Exec mc (useCmd c)) s) (\<lambda>_ s.
      bindS (gfrom data 1, s) (\<lambda>query s.
      bindS (onConn (\<lambda>mc. mc_Prepare mc (vis query)) s) (\<lambda>(res, stmt) s.
        forward res ((fst s)\<lparr>c_stmt := Some stmt\<rparr>, snd s)))))" if "both_wf s" for s
  proof (rule total_seq)
    show "totals both_wf (onConn (\<lambda>mc. mc_Exec mc (useCmd c)) s)"
      using that by (auto simp: both_wf_def intro!: onConn_total mc_Exec_total)
    fix s assume s: "both_wf s"
    show "totals both_wf (bindS (gfrom data 1, s) (\<lambda>query s.
        bindS (onConn (\<lambda>mc. mc_Prepare mc (vis query)) s) (\<lambda>(res, stmt) s.
          forward res ((fst s)\<lparr>c_stmt := Some stmt\<rparr>, snd s))))"
    proof (rule total_seq, rule total_quiet)
      fix query s assume s: "both_wf s"
      then have "total both_wf (\<lambda>(res, stmt). stmt_wf stmt) (onConn (\<lambda>mc. mc_Prepare mc (vis query)) s)"
        by (intro onConn_total mc_Prepare_total) (simp_all add: both_wf_def)
      then show "totals both_wf (bindS (onConn (\<lambda>mc. mc_Prepare mc (vis query)) s) (\<lambda>(res, stmt) s.
          forward res ((fst s)\<lparr>c_stmt := Some stmt\<rparr>, snd s)))"
        by (rule total_bind) (auto simp: both_wf_def intro!: forward_total client_wf_set)
    qed (use s in simp_all)
  qed
  show ?thesis
    using withDB_total [OF assms f] by (simp add: handleStmtPrepare_def total_def back_wf_def case_prod_beta)
qed

lemma handlestmtExec_total:
  assumes "client_wf c"
  shows "totals back_wf (handlestmtExec c data)"
proof (cases "\<exists>st mc. c_stmt c = Some st \<and> st_mc st = Some mc")
  case False
  with assms show ?thesis by (auto simp: handlestmtExec_def split: option.split)
next
  case True
  then obtain st mc where st: "c_stmt c = Some st" "st_mc st = Some mc" by blast
  obtain r st' where q: "stmt_Query st data = (r, st')" by fastforce
  have "stmt_wf st" using assms st(1) by (simp add: client_wf_def)
  with stmt_Query_total [of st data] q have r: "r \<noteq> Spin" "stmt_wf st'" by (simp_all add: total_def)
  let ?c = "c\<lparr>c_stmt := Some st'\<rparr>"
  have c: "client_wf ?c" by (rule client_wf_set(2) [OF assms r(2)])
  have "totals back_wf (case writeResultPackets ?c ps of (r, c) \<Rightarrow> (r, c, None))" for ps
    using writeResultPackets_total [OF c, of ps] by (simp add: case_prod_beta total_def)
  with c r(1) show ?thesis by (cases r) (simp_all add: handlestmtExec_def st q Let_def)
qed

lemma handleStmtClose_total:
  assumes "client_wf c"
  shows "totals back_wf (handleStmtClose c data)"
proof -
  have "quiet (bindR (gfrom data 1) (\<lambda>d. leUint32 (vis d)))" by (rule quiet_bindR) simp_all
  moreover have "totals back_wf (case stmt_Close st of
      (Panic, st, _) \<Rightarrow> (Panic, c\<lparr>c_stmt := Some st\<rparr>, None)
    | (Spin, st, _) \<Rightarrow> (Spin, c\<lparr>c_stmt := Some st\<rparr>, None)
    | (r, _, _) \<Rightarrow> (r, c\<lparr>c_stmt := None\<rparr>, None))" if "c_stmt c = Some st" for st
  proof -
    have "stmt_wf st" using assms that by (simp add: client_wf_def)
    with stmt_Close_total [of st] client_wf_set(2,3) [OF assms] show ?thesis
      by (cases "stmt_Close st"; cases "fst (stmt_Close st)") auto
  qed
  ultimately show ?thesis
    using assms by (auto simp: handleStmtClose_def split: res.split option.split)
qed

lemma dispatch_total:
  assumes "client_wf c" and "db_wf db"
  shows "totals back_wf (dispatch c db data)"
proof -
  have "totals back_wf (handleQuit c)"
    using client_close_total [OF assms(1)] by (simp add: handleQuit_def case_prod_beta total_def)
  then show ?thesis
    using assms handlers_total handleUseDB_total handleStmtPrepare_total handlestmtExec_total handleStmtClose_total
    by (cases "idxAt data 0") (simp_all add: dispatch_def)
qed

lemma client_Accept_total:
  assumes "client_wf c" and "db_wf db"
  shows "totals back_wf (client_Accept c db)"
proof -
  obtain r c' where r: "client_readPacket c = (r, c')" by fastforce
  with client_readPacket_total [OF assms(1)] have "r \<noteq> Spin" "client_wf c'" by (simp_all add: total_def)
  moreover have "totals back_wf (case dispatch c' db data of (Ok _, c, back) \<Rightarrow> (Ok (), c\<lparr>c_sequence := 0\<rparr>, back) | r \<Rightarrow> r)"
    if "client_wf c'" for data
    using dispatch_total [OF that assms(2), of data]
    by (cases "dispatch c' db data"; cases "fst (dispatch c' db data)") (auto simp: back_wf_def)
  ultimately show ?thesis using r by (cases r) (simp_all add: client_Accept_def)
qed

section \<open>Sessions\<close>

lemma acceptLoop_total:
  assumes "client_wf c" and "list_all db_wf dbs"
  shows "fst (acceptLoop c dbs) \<noteq> Spinning \<and> list_all mc_wf (snd (snd (acceptLoop c dbs)))"
  using assms
proof (induction dbs arbitrary: c)
  case (Cons db dbs)
  obtain r c' bk where a: "client_Accept c db = (r, c', bk)" by (metis prod_cases3)
  with client_Accept_total [of c db] Cons.prems have r: "r \<noteq> Spin" "client_wf c'" "\<forall>mc. bk = Some mc \<longrightarrow> mc_wf mc"
    by (simp_all add: total_def back_wf_def)
  with Cons.IH [of c'] Cons.prems a show ?case
    by (cases r) (auto simp: Let_def case_prod_beta split: option.split)
qed simp

lemma handleClient_total:
  assumes "client_wf c" and "list_all db_wf dbs"
  shows "fst (handleClient osText c dbs) \<noteq> Spinning \<and> list_all mc_wf (snd (snd (handleClient osText c dbs)))"
proof -
  obtain r c' where h: "Handshake osText c = (r, c')" by fastforce
  with Handshake_total [OF assms(1), of osText] have "r \<noteq> Spin" "client_wf c'" by (simp_all add: total_def)
  with acceptLoop_total [OF _ assms(2)] h show ?thesis by (cases r) (simp_all add: handleClient_def)
qed

lemma newClient_wf: "client_wf (fst (newClient base intn conn conf))"
  by (simp add: newClient_def client_wf_def Let_def newBuffer_wf)

lemma newConn_total:
  shows "fst (newConn sha1 now m dial ka) \<noteq> Spin \<and> (\<forall>mc. fst (newConn sha1 now m dial ka) = Ok mc \<longrightarrow> mc_wf mc)"
proof (cases "\<exists>s. dial = Inl s \<and> ka = None")
  case False
  then show ?thesis by (cases dial; cases ka) (auto simp: newConn_def dialConn_def)
next
  case True
  then obtain s where s: "dial = Inl s" "ka = None" by blast
  have "mc_wf (newMysqlConn now m s)" by (simp add: newMysqlConn_def Let_def mc_wf_def newBuffer_def wf_buffer_def)
  then have t: "totals mc_wf (bindS (readInitPacket (newMysqlConn now m s)) (\<lambda>cipher mc.
      bindS (writeAuthPacket sha1 mc cipher) (\<lambda>_ mc. readInitOK mc)))" by (intro total_intro)
  obtain r mc where "bindS (readInitPacket (newMysqlConn now m s)) (\<lambda>cipher mc.
      bindS (writeAuthPacket sha1 mc cipher) (\<lambda>_ mc. readInitOK mc)) = (r, mc)" by fastforce
  with t s show ?thesis by (cases r) (auto simp: newConn_def dialConn_def)
qed

lemma dialConn_total: "dialConn sha1 now m dial ka = Ok mc \<Longrightarrow> mc_wf mc"
  using newConn_total [of sha1 now m dial ka] by (simp add: newConn_def)

section \<open>The server\<close>

definition pool_wf :: "MysqlDB \<Rightarrow> bool" where
  "pool_wf m \<longleftrightarrow> list_all mc_wf (db_freeConn m) \<and> (\<forall>mc. db_opener m = Holding mc \<longrightarrow> mc_wf mc) \<and>
     (\<forall>n mc. db_opener m = Counting n mc \<longrightarrow> mc_wf mc)"

fun session_wf :: "session \<Rightarrow> bool" where
  "session_wf se \<longleftrightarrow> client_wf (se_client se) \<and> (case se_phase se of Using data mc \<Rightarrow> mc_wf mc | Returning r \<Rightarrow> r \<noteq> Spin | _ \<Rightarrow> True)"

definition server_wf :: "Server \<Rightarrow> bool" where
  "server_wf s \<longleftrightarrow> list_all session_wf (sv_live s) \<and> (\<forall>m. sv_db s = Some m \<longrightarrow> pool_wf m)"

lemma pstep_wf:
  assumes "pstep sha1 m m'" and "pool_wf m" and "length (db_inUse m) \<le> length (db_inUse m')"
  shows "pool_wf m' \<and> (\<forall>mc. db_inUse m' = mc # db_inUse m \<longrightarrow> mc_wf mc)"
  using assms
proof (induction rule: pstep.induct)
  case (op_dial m now dial ka mc)
  with dialConn_total [OF op_dial(2)] show ?case by (simp add: pool_wf_def)
next
  case (put m us u vs now mc)
  then show ?case by (auto simp: putConn_def split: if_splits)
qed (auto simp: pool_wf_def)

lemma putConn_wf: "pool_wf m \<Longrightarrow> mc_wf mc \<Longrightarrow> pool_wf (putConn now m mc)"
  by (simp add: pool_wf_def putConn_def)

lemma settle_wf:
  assumes "settle s us vs r c = Some s'" and "client_wf c" and "list_all session_wf us" and "list_all session_wf vs"
    and "\<forall>m. sv_db s = Some m \<longrightarrow> pool_wf m"
  shows "server_wf s'"
  using assms by (auto simp: settle_def leave_def server_wf_def split: res.splits if_splits)

lemma leave_wf:
  assumes "leave s live = Some s'" and "list_all session_wf live" and "\<forall>m. sv_db s = Some m \<longrightarrow> pool_wf m"
  shows "server_wf s'"
  using assms by (auto simp: leave_def server_wf_def)

lemma dispatch_wf:
  assumes "dispatch c db data = (r, c', bk)" and "client_wf c" and "db_wf db"
  shows "client_wf c' \<and> r \<noteq> Spin \<and> (\<forall>mc. bk = Some mc \<longrightarrow> mc_wf mc)"
  using dispatch_total [OF assms(2,3), of data] assms(1) by (auto simp: total_def back_wf_def)

lemma call_wf:
  "Handshake osText c = (r, c') \<Longrightarrow> client_wf c \<Longrightarrow> client_wf c'"
  "client_readPacket c = (r2, c') \<Longrightarrow> client_wf c \<Longrightarrow> client_wf c'"
  using Handshake_total [of c osText] client_readPacket_total [of c] by (auto simp: total_def)

lemma sstep_wf: "sstep sha1 osText s s' \<Longrightarrow> server_wf s \<Longrightarrow> server_wf s'"
proof (induction rule: sstep.induct)
  case (accept s cnt intn sk c n)
  with newClient_wf [of "sv_base s" intn sk "sv_cfg s"] show ?case by (simp add: server_wf_def)
next
  case (greet s us c vs c')
  with call_wf(1) [OF greet(3)] show ?case by (simp add: server_wf_def)
next
  case (greet_fail s us c vs r c' e s')
  then show ?case by (intro leave_wf [OF greet_fail(5)]) (simp_all add: server_wf_def)
next
  case (read s us c vs data c')
  with call_wf(2) [OF read(3)] show ?case by (simp add: server_wf_def)
next
  case (read_local s us c vs data c' r c'' bk s')
  then have "client_wf c''" using dispatch_wf [OF read_local(5)] call_wf(2) [OF read_local(3)] by (simp add: server_wf_def)
  with read_local show ?case by (intro settle_wf [OF read_local(6)]) (simp_all add: server_wf_def)
next
  case (read_fail s us c vs r c' e s')
  then show ?case by (intro leave_wf [OF read_fail(5)]) (simp_all add: server_wf_def)
next
  case (pool s m m')
  with pstep_wf [OF pool(3)] show ?case by (simp add: server_wf_def)
next
  case (got s m us c data vs m' mc)
  with pstep_wf [OF got(4)] show ?case by (simp add: server_wf_def)
next
  case (none s m us c data vs m' r c' bk s')
  then have "client_wf c'" using dispatch_wf [OF none(8)] by (simp add: server_wf_def)
  with none pstep_wf [OF none(4)] show ?case by (intro settle_wf [OF none(9)]) (simp_all add: server_wf_def)
next
  case (nodb s c us data vs r c' bk s')
  then have "client_wf c'" using dispatch_wf [OF nodb(3)] by (simp add: server_wf_def)
  with nodb show ?case by (intro settle_wf [OF nodb(4)]) (simp_all add: server_wf_def)
next
  case (finished s m us c data mc vs r c' mc' ls ks now m' s')
  then have w: "client_wf c'" "mc_wf mc'" using dispatch_wf [OF finished(4)] by (simp_all add: server_wf_def)
  have "pool_wf (m\<lparr>db_inUse := ls @ ks\<rparr>)" using finished(2,10) by (simp add: server_wf_def pool_wf_def)
  from putConn_wf [OF this w(2)] w(1) finished show ?case by (intro settle_wf [OF finished(9)]) (auto simp: server_wf_def)
next
  case (finished_full s m us c data mc vs r c' mc' ls ks now m')
  then have w: "client_wf c'" "mc_wf mc'" "r \<noteq> Spin" using dispatch_wf [OF finished_full(4)] by (simp_all add: server_wf_def)
  have "pool_wf (m\<lparr>db_inUse := ls @ ks\<rparr>)" using finished_full(2,9) by (simp add: server_wf_def pool_wf_def)
  from putConn_wf [OF this w(2), of now] w finished_full show ?case by (auto simp: server_wf_def)
next
  case (dropped s m us c r vs m' s')
  have "length (db_inUse m) \<le> length (db_inUse m')" using dropping_inUse [OF dropped(5,4,6)] by simp
  from pstep_wf [OF dropped(5) _ this] dropped show ?case by (intro settle_wf [OF dropped(7)]) (auto simp: server_wf_def)
next
  case (kept s us c data mc vs r c' s')
  then have "client_wf c'" using dispatch_wf [OF kept(3)] by (simp add: server_wf_def)
  with kept show ?case by (intro settle_wf [OF kept(4)]) (simp_all add: server_wf_def)
qed (simp_all add: server_wf_def)

lemma sreachable_wf: "sreachable sha1 osText conf s \<Longrightarrow> server_wf s"
proof (induction rule: sreachable.induct)
  case (running s)
  then show ?case
    by (auto simp: Run_start_def InitDB_def NewServer_def Open_def server_wf_def pool_wf_def split: if_splits)
qed (rule sstep_wf)

section \<open>Properties\<close>

text \<open>C7: a session always returns: whatever bytes the client sends and in whatever pieces, whatever the
  databases answer and whichever reads and writes fail, neither the handshake nor any command loops for
  ever, and the connections given back can be read without looping too.\<close>

theorem session_returns:
  assumes "newClient base intn conn conf = (c, n)" and "list_all db_wf dbs"
  shows "fst (handleClient osText c dbs) \<noteq> Spinning \<and> list_all db_wf (map (Some \<circ> Some) (snd (snd (handleClient osText c dbs))))"
  using handleClient_total [OF _ assms(2), of c osText] newClient_wf [of base intn conn conf] assms(1)
  by (auto simp: list_all_iff)

theorem session_returns_witness:
  "fst (handleClient (\<lambda>_. []) (fst (newClient 0 (\<lambda>k. 0) (idleSock [Rd [1, 2] None]) zeroConfig)) [Some (Some (idleConn [])), None]) \<noteq> Spinning \<and>
    list_all db_wf (map (Some \<circ> Some) (snd (snd (handleClient (\<lambda>_. [])
      (fst (newClient 0 (\<lambda>k. 0) (idleSock [Rd [1, 2] None]) zeroConfig)) [Some (Some (idleConn [])), None]))))"
proof (rule session_returns)
  show "newClient 0 (\<lambda>k. 0) (idleSock [Rd [1, 2] None]) zeroConfig =
      (fst (newClient 0 (\<lambda>k. 0) (idleSock [Rd [1, 2] None]) zeroConfig), 1)" by (simp add: newClient_def Let_def)
qed (simp add: mc_wf_def newBuffer_wf)

text \<open>C6: in every reachable state of the server no goroutine is about to loop for ever: not the handshake of
  a new session, not the next command of another, not a command with the connection it was given, and not
  the opener of the pool.\<close>

theorem server_never_spins:
  assumes "sreachable sha1 osText conf s" and "se \<in> set (sv_live s)"
  shows "(case se_phase se of
      Connecting \<Rightarrow> fst (Handshake osText (se_client se)) \<noteq> Spin
    | Serving \<Rightarrow> fst (client_Accept (se_client se) None) \<noteq> Spin \<and> fst (client_Accept (se_client se) (Some None)) \<noteq> Spin
    | Asking data \<Rightarrow> fst (dispatch (se_client se) None data) \<noteq> Spin \<and> fst (dispatch (se_client se) (Some None) data) \<noteq> Spin
    | Using data mc \<Rightarrow> fst (dispatch (se_client se) (Some (Some mc)) data) \<noteq> Spin
    | Returning r \<Rightarrow> r \<noteq> Spin) \<and>
    fst (newConn sha1 now m dial ka) \<noteq> Spin"
proof -
  from sreachable_wf [OF assms(1)] assms(2) have "session_wf se" by (simp add: server_wf_def list_all_iff)
  then show ?thesis
    using Handshake_total [of "se_client se" osText] client_Accept_total [of "se_client se"] dispatch_total [of "se_client se"]
      newConn_total [of sha1 now m dial ka]
    by (auto simp: total_def split: phase.split)
qed

theorem server_never_spins_witness:
  "fst (Handshake (\<lambda>e. []) (fst (newClient 1000 (\<lambda>i. i) (idleSock []) listenConn))) \<noteq> Spin \<and>
    fst (newConn (\<lambda>x. x) 0 (the_db 1) (Inr EOF) None) \<noteq> Spin"
  using server_never_spins [OF oneClient_reachable [of "\<lambda>x. x" "\<lambda>e. []"], of "hd (sv_live oneClient)" 0 "the_db 1" "Inr EOF" None]
  by (simp add: oneClient_def)

end
