(* ===== verification/Json_Text.thy ===== *)
theory Json_Text
  imports Go_Text
begin

text \<open>
  \<^verbatim>\<open>encoding/json\<close> as the program uses it: a text is cut into tokens, a machine with a stack reads the tokens
  (as the library's scanner does), and \<open>Unmarshal\<close> puts the values of an object into the fields of a
  struct. The depth limit of newer versions is left out.
\<close>

section \<open>Values\<close>

text \<open>A number is kept when it is one that an \<^verbatim>\<open>int\<close> takes: an integer literal in range.\<close>

datatype jval =
    JNull | JBool bool | JNum "int option" | JStr "byte list" | JArr "jval list" | JObj "(byte list \<times> jval) list"

section \<open>Strings\<close>

definition hexVal :: "byte \<Rightarrow> nat option" where
  "hexVal b =
     (if 0x30 \<le> b \<and> b \<le> 0x39 then Some (unat (b - 0x30))
      else if 0x61 \<le> b \<and> b \<le> 0x66 then Some (unat (b - 0x61) + 10)
      else if 0x41 \<le> b \<and> b \<le> 0x46 then Some (unat (b - 0x41) + 10)
      else None)"

fun hex4 :: "byte list \<Rightarrow> (nat \<times> byte list) option" where
  "hex4 (a # b # c # d # r) =
     (case (hexVal a, hexVal b, hexVal c, hexVal d) of
        (Some w, Some x, Some y, Some z) \<Rightarrow> Some (((w * 16 + x) * 16 + y) * 16 + z, r)
      | _ \<Rightarrow> None)"
| "hex4 _ = None"

text \<open>The second half of a pair of surrogates.\<close>

definition lowSurrogate :: "byte list \<Rightarrow> (nat \<times> byte list) option" where
  "lowSurrogate s =
     (case s of
        x # y # r \<Rightarrow>
          if x = 0x5c \<and> y = 0x75 then
            (case hex4 r of
               Some (n, r) \<Rightarrow> if 0xdc00 \<le> n \<and> n < 0xe000 then Some (n, r) else None
             | None \<Rightarrow> None)
          else None
      | _ \<Rightarrow> None)"

definition escapeOf :: "byte \<Rightarrow> byte option" where
  "escapeOf e =
     (if e = 0x22 \<or> e = 0x5c \<or> e = 0x2f then Some e
      else if e = 0x62 then Some 0x08
      else if e = 0x66 then Some 0x0c
      else if e = 0x6e then Some 0x0a
      else if e = 0x72 then Some 0x0d
      else if e = 0x74 then Some 0x09
      else None)"

lemma hex4_length: "hex4 s = Some (n, r) \<Longrightarrow> length r < length s"
  by (induction s rule: hex4.induct) (auto split: option.splits)

lemma lowSurrogate_length: "lowSurrogate s = Some (n, r) \<Longrightarrow> length r < length s"
  by (auto simp: lowSurrogate_def dest: hex4_length split: list.splits option.splits if_splits)

text \<open>What a backslash and the text behind it stand for, and the rest.\<close>

definition unescape :: "byte list \<Rightarrow> (byte list \<times> byte list) option" where
  "unescape s =
     (case s of
        [] \<Rightarrow> None
      | e # r1 \<Rightarrow>
          if e = 0x75 then
            (case hex4 r1 of
               None \<Rightarrow> None
             | Some (n, r2) \<Rightarrow>
                 if 0xd800 \<le> n \<and> n < 0xdc00 then
                   (case lowSurrogate r2 of
                      Some (m, r3) \<Rightarrow> Some (encodeRune (0x10000 + (n - 0xd800) * 1024 + (m - 0xdc00)), r3)
                    | None \<Rightarrow> Some (RuneError, r2))
                 else if 0xdc00 \<le> n \<and> n < 0xe000 then Some (RuneError, r2)
                 else Some (encodeRune n, r2))
          else map_option (\<lambda>b. ([b], r1)) (escapeOf e))"

lemma unescape_length: "unescape s = Some (t, r) \<Longrightarrow> length r < length s"
  by (auto simp: unescape_def dest!: hex4_length lowSurrogate_length split: list.splits option.splits if_splits)

text \<open>The first character of a string that is not its end.\<close>

definition unquoteChar :: "byte \<Rightarrow> byte list \<Rightarrow> (byte list \<times> byte list) option" where
  "unquoteChar c r =
     (if c < 0x20 then None
      else if c = 0x5c then unescape r
      else if c < 0x80 then Some ([c], r)
      else if runeLen (c # r) = 1 then Some (RuneError, r)
      else Some (take (runeLen (c # r)) (c # r), drop (runeLen (c # r)) (c # r)))"

lemma unquoteChar_length: "unquoteChar c s = Some (t, r) \<Longrightarrow> length r < Suc (length s)"
  using runeLen_pos [of "c # s"]
  by (auto simp: unquoteChar_def less_Suc_eq dest: unescape_length split: if_splits)

text \<open>What follows the opening quote: the string, and the rest behind the closing quote.\<close>

function unquote :: "byte list \<Rightarrow> (byte list \<times> byte list) option" where
  "unquote [] = None"
| "unquote (c # r) =
     (if c = 0x22 then Some ([], r)
      else
        (case unquoteChar c r of
           None \<Rightarrow> None
         | Some (t, r) \<Rightarrow> map_option (\<lambda>(v, r). (t @ v, r)) (unquote r)))"
  by pat_completeness auto
termination
  by (relation "measure length") (auto dest: unquoteChar_length)

declare unquote.simps [simp del]

lemma unquote_length: "unquote s = Some (v, r) \<Longrightarrow> length r < length s"
proof (induction s arbitrary: v rule: unquote.induct)
  case 1
  then show ?case by (simp add: unquote.simps)
next
  case (2 c s)
  show ?case
  proof (cases "c = 0x22")
    case True
    with "2.prems" show ?thesis by (simp add: unquote.simps)
  next
    case False
    with "2.prems" obtain t r1 v1 where c: "unquoteChar c s = Some (t, r1)" and u: "unquote r1 = Some (v1, r)"
      by (auto simp: unquote.simps(2) split: option.splits)
    from "2.IH" [OF False c refl u] unquoteChar_length [OF c] show ?thesis by simp
  qed
qed

section \<open>Numbers\<close>

definition digitsOf :: "byte list \<Rightarrow> byte list" where
  "digitsOf s = takeWhile isDigit s"

definition afterDigits :: "byte list \<Rightarrow> byte list" where
  "afterDigits s = dropWhile isDigit s"

text \<open>A fraction and an exponent, when there are: whether there was one, and the rest.\<close>

definition scanFrac :: "byte list \<Rightarrow> (bool \<times> byte list) option" where
  "scanFrac s =
     (case s of
        c # r \<Rightarrow>
          if c = 0x2e then (if digitsOf r = [] then None else Some (True, afterDigits r)) else Some (False, s)
      | [] \<Rightarrow> Some (False, s))"

definition skipSign :: "byte list \<Rightarrow> byte list" where
  "skipSign s = (case s of c # r \<Rightarrow> if c = 0x2b \<or> c = 0x2d then r else s | [] \<Rightarrow> s)"

definition scanExp :: "byte list \<Rightarrow> (bool \<times> byte list) option" where
  "scanExp s =
     (case s of
        c # r \<Rightarrow>
          if c = 0x65 \<or> c = 0x45 then
            (if digitsOf (skipSign r) = [] then None else Some (True, afterDigits (skipSign r)))
          else Some (False, s)
      | [] \<Rightarrow> Some (False, s))"

definition toInt64 :: "int \<Rightarrow> int option" where
  "toInt64 n = (if - (2 ^ 63) \<le> n \<and> n < 2 ^ 63 then Some n else None)"

text \<open>A zero is followed by no other digit.\<close>

definition intDigits :: "byte list \<Rightarrow> byte list" where
  "intDigits s = (if take 1 s = [0x30] then [0x30] else digitsOf s)"

definition scanUnsigned :: "bool \<Rightarrow> byte list \<Rightarrow> (int option \<times> byte list) option" where
  "scanUnsigned neg s =
     (let ds = intDigits s in
      if ds = [] then None
      else
        (case scanFrac (drop (length ds) s) of
           None \<Rightarrow> None
         | Some (frac, s2) \<Rightarrow>
             (case scanExp s2 of
                None \<Rightarrow> None
              | Some (ex, s3) \<Rightarrow>
                  Some (if frac \<or> ex then None
                        else toInt64 (if neg then - int (decVal ds) else int (decVal ds)), s3))))"

definition scanNum :: "byte list \<Rightarrow> (int option \<times> byte list) option" where
  "scanNum s =
     (case s of
        [] \<Rightarrow> None
      | c # r \<Rightarrow> if c = 0x2d then scanUnsigned True r else scanUnsigned False s)"

lemma afterDigits_length: "length (afterDigits s) \<le> length s"
  by (simp add: afterDigits_def length_dropWhile_le)

lemma scanFrac_length: "scanFrac s = Some (b, r) \<Longrightarrow> length r \<le> length s"
  using afterDigits_length by (auto simp: scanFrac_def split: list.splits if_splits intro: le_SucI)

lemma scanExp_length:
  assumes "scanExp s = Some (b, r)"
  shows "length r \<le> length s"
proof -
  have "length (skipSign t) \<le> length t" for t by (simp add: skipSign_def split: list.split)
  then have "length (afterDigits (skipSign t)) \<le> length t" for t using afterDigits_length order_trans by blast
  with assms show ?thesis by (auto simp: scanExp_def split: list.splits if_splits intro: le_SucI)
qed

lemma scanUnsigned_length:
  assumes "scanUnsigned neg s = Some (n, r)"
  shows "length r < length s"
proof -
  let ?ds = "intDigits s"
  have d: "length ?ds \<le> length s"
    by (cases s) (auto simp: intDigits_def digitsOf_def length_takeWhile_le)
  from assms obtain b s2 e where ne: "?ds \<noteq> []" and f: "scanFrac (drop (length ?ds) s) = Some (b, s2)"
    and x: "scanExp s2 = Some (e, r)"
    by (auto simp: scanUnsigned_def Let_def split: if_splits option.splits prod.splits)
  from scanFrac_length [OF f] scanExp_length [OF x] have "length r \<le> length s - length ?ds" by simp
  moreover have "0 < length ?ds" using ne by simp
  ultimately show ?thesis using d by linarith
qed

lemma scanNum_length: "scanNum s = Some (n, r) \<Longrightarrow> length r < length s"
  by (auto simp: scanNum_def dest: scanUnsigned_length split: list.splits if_splits)

section \<open>Tokens\<close>

datatype token = LBrace | RBrace | LBrack | RBrack | Colon | Comma | Scalar jval

function tokens :: "byte list \<Rightarrow> token list option" where
  "tokens [] = Some []"
| "tokens (c # r) =
     (if c = 0x20 \<or> c = 0x09 \<or> c = 0x0a \<or> c = 0x0d then tokens r
      else if c = 0x7b then map_option ((#) LBrace) (tokens r)
      else if c = 0x7d then map_option ((#) RBrace) (tokens r)
      else if c = 0x5b then map_option ((#) LBrack) (tokens r)
      else if c = 0x5d then map_option ((#) RBrack) (tokens r)
      else if c = 0x3a then map_option ((#) Colon) (tokens r)
      else if c = 0x2c then map_option ((#) Comma) (tokens r)
      else if c = 0x22 then
        (case unquote r of
           None \<Rightarrow> None
         | Some (v, r) \<Rightarrow> map_option ((#) (Scalar (JStr v))) (tokens r))
      else if take 4 (c # r) = str ''true'' then map_option ((#) (Scalar (JBool True))) (tokens (drop 3 r))
      else if take 5 (c # r) = str ''false'' then map_option ((#) (Scalar (JBool False))) (tokens (drop 4 r))
      else if take 4 (c # r) = str ''null'' then map_option ((#) (Scalar JNull)) (tokens (drop 3 r))
      else
        (case scanNum (c # r) of
           None \<Rightarrow> None
         | Some (n, r) \<Rightarrow> map_option ((#) (Scalar (JNum n))) (tokens r)))"
  by pat_completeness auto
termination
  by (relation "measure length") (auto dest!: unquote_length scanNum_length)

declare tokens.simps [simp del]

section \<open>The machine\<close>

datatype frame = InArr "jval list" | InObj "(byte list \<times> jval) list" "byte list option"

datatype want =
    BeginValue | BeginValueOrEmpty | BeginString | BeginStringOrEmpty | BeginColon | EndValue | EndTop jval

fun putValue :: "jval \<Rightarrow> frame list \<Rightarrow> want \<times> frame list" where
  "putValue v [] = (EndTop v, [])"
| "putValue v (InArr vs # st) = (EndValue, InArr (vs @ [v]) # st)"
| "putValue v (InObj kvs (Some k) # st) = (EndValue, InObj (kvs @ [(k, v)]) None # st)"
| "putValue v (InObj kvs None # st) = (EndValue, InObj kvs None # st)"

fun beginValue :: "token \<Rightarrow> frame list \<Rightarrow> (want \<times> frame list) option" where
  "beginValue LBrace st = Some (BeginStringOrEmpty, InObj [] None # st)"
| "beginValue LBrack st = Some (BeginValueOrEmpty, InArr [] # st)"
| "beginValue (Scalar v) st = Some (putValue v st)"
| "beginValue _ st = None"

fun closeFrame :: "token \<Rightarrow> frame list \<Rightarrow> (want \<times> frame list) option" where
  "closeFrame RBrack (InArr vs # st) = Some (putValue (JArr vs) st)"
| "closeFrame RBrace (InObj kvs k # st) = Some (putValue (JObj kvs) st)"
| "closeFrame _ _ = None"

fun beginString :: "token \<Rightarrow> frame list \<Rightarrow> (want \<times> frame list) option" where
  "beginString (Scalar (JStr k)) (InObj kvs _ # st) = Some (BeginColon, InObj kvs (Some k) # st)"
| "beginString _ _ = None"

fun tokenStep :: "want \<Rightarrow> token \<Rightarrow> frame list \<Rightarrow> (want \<times> frame list) option" where
  "tokenStep BeginValue t st = beginValue t st"
| "tokenStep BeginValueOrEmpty t st = (if t = RBrack then closeFrame t st else beginValue t st)"
| "tokenStep BeginString t st = beginString t st"
| "tokenStep BeginStringOrEmpty t st = (if t = RBrace then closeFrame t st else beginString t st)"
| "tokenStep BeginColon t st = (if t = Colon then Some (BeginValue, st) else None)"
| "tokenStep EndValue t st =
     (if t = Comma then
        (case st of
           InArr _ # _ \<Rightarrow> Some (BeginValue, st)
         | InObj _ _ # _ \<Rightarrow> Some (BeginString, st)
         | [] \<Rightarrow> None)
      else closeFrame t st)"
| "tokenStep (EndTop v) t st = None"

fun machine :: "want \<Rightarrow> frame list \<Rightarrow> token list \<Rightarrow> jval option" where
  "machine w st [] = (case w of EndTop v \<Rightarrow> Some v | _ \<Rightarrow> None)"
| "machine w st (t # ts) = (case tokenStep w t st of None \<Rightarrow> None | Some (w, st) \<Rightarrow> machine w st ts)"

definition parseJson :: "byte list \<Rightarrow> jval option" where
  "parseJson s = (case tokens s of None \<Rightarrow> None | Some ts \<Rightarrow> machine BeginValue [] ts)"

section \<open>Unmarshal\<close>

text \<open>The fields of a struct under their names, each with what a value does to it and whether the value has its type;
  \<^verbatim>\<open>null\<close> leaves a field alone. A name that is no field is passed over, a value of the wrong type is an error, but the
  other keys are still taken; a text that is no JSON changes nothing.\<close>

type_synonym 's fields = "(byte list \<times> (jval \<Rightarrow> 's \<Rightarrow> bool \<times> 's)) list"

definition strField :: "(byte list \<Rightarrow> 's \<Rightarrow> 's) \<Rightarrow> jval \<Rightarrow> 's \<Rightarrow> bool \<times> 's" where
  "strField f v s = (case v of JStr x \<Rightarrow> (True, f x s) | JNull \<Rightarrow> (True, s) | _ \<Rightarrow> (False, s))"

definition intField :: "(int \<Rightarrow> 's \<Rightarrow> 's) \<Rightarrow> jval \<Rightarrow> 's \<Rightarrow> bool \<times> 's" where
  "intField f v s =
     (case v of
        JNum i \<Rightarrow> (case i of Some n \<Rightarrow> (True, f n s) | None \<Rightarrow> (False, s))
      | JNull \<Rightarrow> (True, s)
      | _ \<Rightarrow> (False, s))"

definition boolField :: "(bool \<Rightarrow> 's \<Rightarrow> 's) \<Rightarrow> jval \<Rightarrow> 's \<Rightarrow> bool \<times> 's" where
  "boolField f v s = (case v of JBool b \<Rightarrow> (True, f b s) | JNull \<Rightarrow> (True, s) | _ \<Rightarrow> (False, s))"

lemmas field_defs = strField_def intField_def boolField_def

definition decodeKey :: "'s fields \<Rightarrow> byte list \<Rightarrow> jval \<Rightarrow> 's \<Rightarrow> bool \<times> 's" where
  "decodeKey tbl k v s =
     (case find (\<lambda>t. EqualFold k (fst t)) tbl of None \<Rightarrow> (True, s) | Some t \<Rightarrow> snd t v s)"

fun decodeKeys :: "'s fields \<Rightarrow> (byte list \<times> jval) list \<Rightarrow> 's \<Rightarrow> bool \<times> 's" where
  "decodeKeys tbl [] s = (True, s)"
| "decodeKeys tbl ((k, v) # kvs) s =
     (case decodeKey tbl k v s of (ok, s) \<Rightarrow> (case decodeKeys tbl kvs s of (oks, s) \<Rightarrow> (ok \<and> oks, s)))"

text \<open>A struct within a struct.\<close>

definition structField :: "'t fields \<Rightarrow> ('s \<Rightarrow> 't) \<Rightarrow> ('t \<Rightarrow> 's \<Rightarrow> 's) \<Rightarrow> jval \<Rightarrow> 's \<Rightarrow> bool \<times> 's" where
  "structField tbl get put v s =
     (case v of
        JObj kvs \<Rightarrow> (case decodeKeys tbl kvs (get s) of (ok, t) \<Rightarrow> (ok, put t s))
      | JNull \<Rightarrow> (True, s)
      | _ \<Rightarrow> (False, s))"

definition Unmarshal :: "'s fields \<Rightarrow> byte list \<Rightarrow> 's \<Rightarrow> bool \<times> 's" where
  "Unmarshal tbl bs s =
     (case parseJson bs of
        None \<Rightarrow> (False, s)
      | Some v \<Rightarrow>
          (case v of
             JObj kvs \<Rightarrow> decodeKeys tbl kvs s
           | JNull \<Rightarrow> (True, s)
           | _ \<Rightarrow> (False, s)))"

section \<open>The pieces of a text\<close>

definition plainByte :: "byte \<Rightarrow> bool" where
  "plainByte c \<longleftrightarrow> 0x20 \<le> c \<and> c < 0x80 \<and> c \<noteq> 0x22 \<and> c \<noteq> 0x5c"

lemma unquote_plain_app: "list_all plainByte t \<Longrightarrow> unquote (t @ s) = map_option (\<lambda>(v, r). (t @ v, r)) (unquote s)"
proof (induction t)
  case Nil
  show ?case by (cases "unquote s") auto
next
  case (Cons c t)
  then have "\<not> c < 0x20" "c < 0x80" "c \<noteq> 0x22" "c \<noteq> 0x5c" by (auto simp: plainByte_def)
  with Cons show ?case by (cases "unquote s") (auto simp: unquote.simps(2) unquoteChar_def)
qed

lemma unquote_plain: "list_all plainByte t \<Longrightarrow> unquote (t @ 0x22 # r) = Some (t, r)"
  by (simp add: unquote_plain_app unquote.simps)

text \<open>The tokens of a value. The machine reads from them the value again, whatever is around it.\<close>

fun commaList :: "token list list \<Rightarrow> token list" where
  "commaList [] = []"
| "commaList [ts] = ts"
| "commaList (ts # us # r) = ts @ Comma # commaList (us # r)"

fun valueTokens :: "jval \<Rightarrow> token list" where
  "valueTokens (JArr vs) = LBrack # commaList (map valueTokens vs) @ [RBrack]"
| "valueTokens (JObj kvs) = LBrace # commaList (map (\<lambda>(k, v). Scalar (JStr k) # Colon # valueTokens v) kvs) @ [RBrace]"
| "valueTokens v = [Scalar v]"

lemma valueTokens_not_RBrack: "\<exists>t ts. valueTokens v = t # ts \<and> t \<noteq> RBrack"
  by (cases v) simp_all

definition resume :: "want \<times> frame list \<Rightarrow> token list \<Rightarrow> jval option" where
  "resume ws ts = machine (fst ws) (snd ws) ts"

lemma machine_elements:
  assumes "\<And>v st ts. v \<in> set (w # vs) \<Longrightarrow> machine BeginValue st (valueTokens v @ ts) = resume (putValue v st) ts"
  shows "machine BeginValue (InArr us # st) (commaList (map valueTokens (w # vs)) @ RBrack # ts) =
    resume (putValue (JArr (us @ w # vs)) st) ts"
  using assms
proof (induction vs arbitrary: w us)
  case Nil
  then show ?case by (simp add: resume_def case_prod_beta)
next
  case (Cons v vs)
  have "machine BeginValue (InArr (us @ [w]) # st) (commaList (map valueTokens (v # vs)) @ RBrack # ts) =
      resume (putValue (JArr ((us @ [w]) @ v # vs)) st) ts"
    by (rule Cons.IH) (use Cons.prems in auto)
  with Cons.prems [of w] show ?case by (simp add: resume_def)
qed

lemma machine_members:
  assumes "\<And>k v st ts. (k, v) \<in> set (w # kvs) \<Longrightarrow> machine BeginValue st (valueTokens v @ ts) = resume (putValue v st) ts"
  shows "machine BeginString (InObj us None # st)
      (commaList (map (\<lambda>(k, v). Scalar (JStr k) # Colon # valueTokens v) (w # kvs)) @ RBrace # ts) =
    resume (putValue (JObj (us @ w # kvs)) st) ts"
  using assms
proof (induction kvs arbitrary: w us)
  case Nil
  obtain k v where "w = (k, v)" by (cases w)
  with Nil show ?case by (simp add: resume_def case_prod_beta)
next
  case (Cons kv kvs)
  obtain k v where w: "w = (k, v)" by (cases w)
  have "machine BeginString (InObj (us @ [w]) None # st)
      (commaList (map (\<lambda>(k, v). Scalar (JStr k) # Colon # valueTokens v) (kv # kvs)) @ RBrace # ts) =
      resume (putValue (JObj ((us @ [w]) @ kv # kvs)) st) ts"
    by (rule Cons.IH) (use Cons.prems in auto)
  with Cons.prems [of k v] show ?case by (simp add: resume_def w)
qed

lemma machine_value: "machine BeginValue st (valueTokens v @ ts) = resume (putValue v st) ts"
proof (induction v arbitrary: st ts rule: valueTokens.induct)
  case (1 vs)
  show ?case
  proof (cases vs)
    case Nil
    then show ?thesis by (simp add: resume_def case_prod_beta)
  next
    case (Cons w ws)
    obtain t r where t: "commaList (map valueTokens vs) = t # r" "t \<noteq> RBrack"
      using valueTokens_not_RBrack [of w] by (cases ws) (auto simp: Cons)
    from t machine_elements [of w ws "[]" st ts] 1 show ?thesis by (simp add: Cons)
  qed
next
  case (2 kvs)
  show ?case
  proof (cases kvs)
    case Nil
    then show ?thesis by (simp add: resume_def case_prod_beta)
  next
    case (Cons w ws)
    obtain k r where t: "commaList (map (\<lambda>(k, v). Scalar (JStr k) # Colon # valueTokens v) kvs) = Scalar (JStr k) # r"
      by (cases w; cases ws) (auto simp: Cons)
    from t machine_members [of w ws "[]" st ts] 2 show ?thesis by (simp add: Cons)
  qed
qed (simp_all add: resume_def case_prod_beta)

lemma parse_tokens: "machine BeginValue [] (valueTokens v) = Some v"
  using machine_value [of "[]" v "[]"] by (simp add: resume_def)

text \<open>Some texts, with what is rejected.\<close>

lemma parse_samples:
  "parseJson (str ''{ [a]: [1, -2.5e3, true]}'') = None"
  "parseJson (0x7b # 0x22 # str ''a'' @ 0x22 # str '': [1, -2.5e3,true, {}] , '' @ 0x22 # 0x5c # str ''n'' @ 0x22 # str '' :null}'') =
    Some (JObj [(str ''a'', JArr [JNum (Some 1), JNum None, JBool True, JObj []]), ([0x0a], JNull)])"
  "map parseJson [str ''[1,]'', str ''[1 2]'', str ''01'', [0x22], [], str ''nul'', str ''-'', str ''1.''] = replicate 8 None"
  by code_simp+

end
