(* ===== verification/Log_Types.thy ===== *)
theory Log_Types
  imports Json_Text
begin

text \<open>
  What the writers of the package \<^verbatim>\<open>log\<close> share: the levels, the time as a line shows it, the line that the
  standard library's logger writes, the files of the system, and the interface that they implement.
\<close>

section \<open>Levels\<close>

datatype level =
    LevelEmergency | LevelAlert | LevelCritical | LevelError | LevelWarning | LevelNotice | LevelInformational
  | LevelDebug

fun level_iota :: "level \<Rightarrow> int" where
  "level_iota LevelEmergency = 0"
| "level_iota LevelAlert = 1"
| "level_iota LevelCritical = 2"
| "level_iota LevelError = 3"
| "level_iota LevelWarning = 4"
| "level_iota LevelNotice = 5"
| "level_iota LevelInformational = 6"
| "level_iota LevelDebug = 7"

definition LevelTrace :: level where "LevelTrace = LevelDebug"

lemma level_range: "0 \<le> level_iota l \<and> level_iota l \<le> 7"
  by (cases l) simp_all

section \<open>Time and lines\<close>

text \<open>The time of a call: the day of the month, the seconds since 1970, and two texts of it, \<^verbatim>\<open>2006-01-02\<close> and
  \<^verbatim>\<open>2006/01/02 15:04:05\<close> with a space.\<close>

record moment =
  now_day :: int
  now_unix :: int
  now_date :: "byte list"
  now_stamp :: "byte list"

text \<open>\<^verbatim>\<open>Println\<close> of a \<^verbatim>\<open>log.Logger\<close> with date and time.\<close>

definition logLine :: "moment \<Rightarrow> byte list \<Rightarrow> byte list" where
  "logLine now msg = now_stamp now @ msg @ [0x0a]"

section \<open>Files\<close>

text \<open>What is in a file, and when it was last written. No other process touches the files.\<close>

record logfile =
  f_data :: "byte list"
  f_mtime :: int

type_synonym fsys = "byte list \<rightharpoonup> logfile"

text \<open>The errors that the operating system reports in one call.\<close>

record faults =
  e_open :: "nat option"
  e_stat :: "nat option"
  e_read :: "nat option"
  e_rename :: "nat option"

definition noFaults :: faults where
  "noFaults = \<lparr>e_open = None, e_stat = None, e_read = None, e_rename = None\<rparr>"

section \<open>The interface of a writer\<close>

fun rights :: "('a + 'b) list \<Rightarrow> 'b list" where
  "rights [] = []"
| "rights (Inl a # es) = rights es"
| "rights (Inr b # es) = b # rights es"

text \<open>
  \<^verbatim>\<open>LoggerInterface\<close>: what the logger relies on when it hands a message to a writer in good order. A
  message above the writer's own level changes nothing. Any other is added to the writer's log as the
  line that \<open>line\<close> gives for it. \<open>adds s text s'\<close> says that between two states exactly this text has been added.
  A writer can have goroutines of its own, whose actions \<open>goes\<close> come at any time; those that the system and
  the clock allow, \<open>mayGo\<close>, add nothing and take nothing away.
\<close>

locale LoggerInterface =
  fixes WriteMsg :: "moment \<Rightarrow> byte list \<Rightarrow> int \<Rightarrow> 's \<Rightarrow> unit res \<times> 's"
    and maxLevel :: "'s \<Rightarrow> int"
    and okLevel :: "int \<Rightarrow> bool"
    and inv :: "'s \<Rightarrow> bool"
    and line :: "'s \<Rightarrow> moment \<Rightarrow> byte list \<Rightarrow> int \<Rightarrow> byte list"
    and adds :: "'s \<Rightarrow> byte list \<Rightarrow> 's \<Rightarrow> bool"
    and goes :: "'b \<Rightarrow> 's \<Rightarrow> 's"
    and mayGo :: "'b \<Rightarrow> 's \<Rightarrow> bool"
  assumes ignored: "inv s \<Longrightarrow> maxLevel s < level \<Longrightarrow> WriteMsg now msg level s = (Ok (), s)"
    and written: "inv s \<Longrightarrow> okLevel level \<Longrightarrow> level \<le> maxLevel s \<Longrightarrow>
      \<exists>s'. WriteMsg now msg level s = (Ok (), s') \<and> inv s' \<and> maxLevel s' = maxLevel s \<and> line s' = line s \<and>
        adds s (line s now msg level) s'"
    and background: "inv s \<Longrightarrow> mayGo b s \<Longrightarrow>
      inv (goes b s) \<and> maxLevel (goes b s) = maxLevel s \<and> line (goes b s) = line s \<and> adds s [] (goes b s)"
    and adds_refl: "inv s \<Longrightarrow> adds s [] s"
    and adds_trans: "adds s x t \<Longrightarrow> adds t y u \<Longrightarrow> adds s (x @ y) u"
begin

text \<open>What one message adds, and what becomes of the writer when messages (\<open>Inr\<close>) and actions of its
  goroutines (\<open>Inl\<close>) follow one another.\<close>

definition logged :: "'s \<Rightarrow> moment \<times> byte list \<times> int \<Rightarrow> byte list" where
  "logged s c = (case c of (now, msg, level) \<Rightarrow> if level \<le> maxLevel s then line s now msg level else [])"

fun runAll :: "('b + moment \<times> byte list \<times> int) list \<Rightarrow> 's \<Rightarrow> 's" where
  "runAll [] s = s"
| "runAll (Inl b # es) s = runAll es (goes b s)"
| "runAll (Inr (now, msg, level) # es) s = runAll es (snd (WriteMsg now msg level s))"

fun mayRun :: "('b + moment \<times> byte list \<times> int) list \<Rightarrow> 's \<Rightarrow> bool" where
  "mayRun [] s = True"
| "mayRun (Inl b # es) s = (mayGo b s \<and> mayRun es (goes b s))"
| "mayRun (Inr (now, msg, level) # es) s = (okLevel level \<and> mayRun es (snd (WriteMsg now msg level s)))"

lemma written_or_ignored:
  assumes "inv s" and "okLevel level"
  shows "\<exists>s'. WriteMsg now msg level s = (Ok (), s') \<and> inv s' \<and> maxLevel s' = maxLevel s \<and> line s' = line s \<and>
    adds s (logged s (now, msg, level)) s'"
  using written [OF assms] ignored [OF assms(1)] adds_refl [OF assms(1)] assms(1)
  by (cases "level \<le> maxLevel s") (auto simp: logged_def)

lemma logged_cong: "maxLevel t = maxLevel s \<Longrightarrow> line t = line s \<Longrightarrow> logged t = logged s"
  by (simp add: logged_def fun_eq_iff)

lemma runAll_adds:
  assumes "inv s" and "mayRun es s"
  shows "inv (runAll es s) \<and> maxLevel (runAll es s) = maxLevel s \<and> line (runAll es s) = line s \<and>
    adds s (concat (map (logged s) (rights es))) (runAll es s)"
  using assms
proof (induction es arbitrary: s)
  case Nil
  then show ?case by (simp add: adds_refl)
next
  case (Cons e es)
  show ?case
  proof (cases e)
    case (Inl b)
    with Cons.prems background [of s b] have
      b: "inv (goes b s)" "maxLevel (goes b s) = maxLevel s" "line (goes b s) = line s" "adds s [] (goes b s)" by simp_all
    from Cons.IH [OF b(1)] Cons.prems(2) Inl b(2-4) logged_cong [OF b(2,3)] show ?thesis
      using adds_trans [OF b(4)] by auto
  next
    case (Inr c)
    obtain now msg level where c: "c = (now, msg, level)" by (cases c)
    from written_or_ignored [OF Cons.prems(1), of level now msg] Cons.prems(2) Inr c obtain s1 where
      1: "WriteMsg now msg level s = (Ok (), s1)" "inv s1" "maxLevel s1 = maxLevel s" "line s1 = line s"
        "adds s (logged s c) s1" by auto
    from Cons.IH [OF 1(2)] Cons.prems(2) Inr c 1 logged_cong [OF 1(3,4)] show ?thesis
      using adds_trans [OF 1(5)] by auto
  qed
qed

end

end
