(* ===== verification/Log_Writers.thy ===== *)
theory Log_Writers
  imports Log_Types Mysql_Codec
begin

text \<open>
  The writers of the package \<^verbatim>\<open>log\<close> besides the file: \<^verbatim>\<open>console.go\<close> (coloured lines on the standard output),
  \<^verbatim>\<open>conn.go\<close> (lines over a connection that is made when it is needed) and \<^verbatim>\<open>nsq.go\<close> (messages that a
  goroutine posts in batches to a queue). Each is an instance of the interface \<open>LoggerInterface\<close>.
\<close>

section \<open>The console\<close>

text \<open>\<^verbatim>\<open>"\033["\<close> and the colours of the levels.\<close>

definition NewBrush :: "byte list \<Rightarrow> byte list \<Rightarrow> byte list" where
  "NewBrush color text = (0x1b # str ''['') @ color @ str ''m'' @ text @ (0x1b # str ''[0m'')"

definition colors :: "(byte list \<Rightarrow> byte list) list" where
  "colors = [NewBrush (str ''1;37''), NewBrush (str ''1;36''), NewBrush (str ''1;35''), NewBrush (str ''1;31''),
     NewBrush (str ''1;33''), NewBrush (str ''1;32''), NewBrush (str ''1;34''), NewBrush (str ''1;34'')]"

text \<open>\<^verbatim>\<open>colors[level](text)\<close>: a level that is none of the eight panics.\<close>

definition brush :: "int \<Rightarrow> byte list \<Rightarrow> byte list res" where
  "brush level text = (if 0 \<le> level \<and> level < int (length colors) then Ok ((colors ! nat level) text) else Panic)"

definition levelNo :: "int \<Rightarrow> bool" where
  "levelNo level \<longleftrightarrow> 0 \<le> level \<and> level < 8"

lemma brush_ok: "levelNo level \<Longrightarrow> brush level text = Ok ((colors ! nat level) text)"
  by (simp add: brush_def levelNo_def colors_def)

text \<open>\<open>cw_out\<close> is what has been written to the standard output.\<close>

record ConsoleWriter =
  cw_Level :: int
  cw_out :: "byte list"

definition NewConsole :: ConsoleWriter where
  "NewConsole = \<lparr>cw_Level = level_iota LevelDebug, cw_out = []\<rparr>"

definition consoleFields :: "ConsoleWriter fields" where
  "consoleFields = [(str ''level'', intField (\<lambda>v c. c\<lparr>cw_Level := v\<rparr>))]"

definition console_Init :: "byte list \<Rightarrow> ConsoleWriter \<Rightarrow> unit res \<times> ConsoleWriter" where
  "console_Init jsonconfig c =
     (if length jsonconfig = 0 then (Ok (), c)
      else (case Unmarshal consoleFields jsonconfig c of (ok, c) \<Rightarrow> (if ok then Ok () else Err JsonError, c)))"

definition console_WriteMsg ::
  "bool \<Rightarrow> moment \<Rightarrow> byte list \<Rightarrow> int \<Rightarrow> ConsoleWriter \<Rightarrow> unit res \<times> ConsoleWriter" where
  "console_WriteMsg windows now msg level c =
     (if cw_Level c < level then (Ok (), c)
      else if windows then (Ok (), c\<lparr>cw_out := cw_out c @ logLine now msg\<rparr>)
      else
        (case brush level msg of
           Ok m \<Rightarrow> (Ok (), c\<lparr>cw_out := cw_out c @ logLine now m\<rparr>)
         | Err e \<Rightarrow> (Err e, c)
         | Panic \<Rightarrow> (Panic, c)
         | Spin \<Rightarrow> (Spin, c)))"

definition consoleAdds :: "ConsoleWriter \<Rightarrow> byte list \<Rightarrow> ConsoleWriter \<Rightarrow> bool" where
  "consoleAdds c text c' \<longleftrightarrow> cw_out c' = cw_out c @ text"

interpretation console_log: LoggerInterface "console_WriteMsg False" cw_Level levelNo "\<lambda>_. True"
  "\<lambda>_ now msg level. logLine now ((colors ! nat level) msg)" consoleAdds "\<lambda>(_ :: unit) c. c" "\<lambda>_ _. True"
  by unfold_locales (auto simp: console_WriteMsg_def consoleAdds_def brush_ok)

section \<open>The connection\<close>

text \<open>\<open>cn_inner\<close> is the connection, when there is one, and whether it is still open on this side; \<open>cn_sent\<close> is
  what peers have received.\<close>

record ConnWriter =
  cn_inner :: "bool option"
  cn_sent :: "byte list"
  cn_ReconnectOnMsg :: bool
  cn_Reconnect :: bool
  cn_Net :: "byte list"
  cn_Addr :: "byte list"
  cn_Level :: int

definition NewConn :: ConnWriter where
  "NewConn = \<lparr>cn_inner = None, cn_sent = [], cn_ReconnectOnMsg = False, cn_Reconnect = False, cn_Net = [], cn_Addr = [],
     cn_Level = level_iota LevelTrace\<rparr>"

definition connFields :: "ConnWriter fields" where
  "connFields =
     [(str ''reconnectOnMsg'', boolField (\<lambda>v c. c\<lparr>cn_ReconnectOnMsg := v\<rparr>)),
      (str ''reconnect'', boolField (\<lambda>v c. c\<lparr>cn_Reconnect := v\<rparr>)), (str ''net'', strField (\<lambda>v c. c\<lparr>cn_Net := v\<rparr>)),
      (str ''addr'', strField (\<lambda>v c. c\<lparr>cn_Addr := v\<rparr>)), (str ''level'', intField (\<lambda>v c. c\<lparr>cn_Level := v\<rparr>))]"

definition conn_Init :: "byte list \<Rightarrow> ConnWriter \<Rightarrow> unit res \<times> ConnWriter" where
  "conn_Init jsonconfig c =
     (case Unmarshal connFields jsonconfig c of (ok, c) \<Rightarrow> (if ok then Ok () else Err JsonError, c))"

definition neddedConnectOnMsg :: "ConnWriter \<Rightarrow> bool \<times> ConnWriter" where
  "neddedConnectOnMsg c =
     (if cn_Reconnect c then (True, c\<lparr>cn_Reconnect := False\<rparr>)
      else if cn_inner c = None then (True, c)
      else (cn_ReconnectOnMsg c, c))"

text \<open>\<open>dial\<close> is the error of \<^verbatim>\<open>net.Dial\<close>.\<close>

definition connect :: "sock_err option \<Rightarrow> ConnWriter \<Rightarrow> unit res \<times> ConnWriter" where
  "connect dial c =
     (let c = c\<lparr>cn_inner := None\<rparr> in
      case dial of
        Some e \<Rightarrow> (Err (SockErr e), c)
      | None \<Rightarrow> (Ok (), c\<lparr>cn_inner := Some True\<rparr>))"

text \<open>\<open>up\<close>: the peer still takes what is written. \<^verbatim>\<open>Println\<close> drops the error when it does not.\<close>

definition conn_WriteMsg ::
  "sock_err option \<Rightarrow> bool \<Rightarrow> moment \<Rightarrow> byte list \<Rightarrow> int \<Rightarrow> ConnWriter \<Rightarrow> unit res \<times> ConnWriter" where
  "conn_WriteMsg dial up now msg level c =
     (if cn_Level c < level then (Ok (), c)
      else
        (case neddedConnectOnMsg c of
           (need, c) \<Rightarrow>
             bindS (if need then connect dial c else (Ok (), c)) (\<lambda>_ c.
               (let c = (if cn_inner c = Some True \<and> up then c\<lparr>cn_sent := cn_sent c @ logLine now msg\<rparr> else c)
                in (Ok (), if cn_ReconnectOnMsg c then c\<lparr>cn_inner := Some False\<rparr> else c)))))"

definition conn_Destroy :: "ConnWriter \<Rightarrow> ConnWriter" where
  "conn_Destroy c = (if cn_inner c \<noteq> None then c\<lparr>cn_inner := Some False\<rparr> else c)"

definition connAdds :: "ConnWriter \<Rightarrow> byte list \<Rightarrow> ConnWriter \<Rightarrow> bool" where
  "connAdds c text c' \<longleftrightarrow> cn_sent c' = cn_sent c @ text"

definition conn_usable :: "ConnWriter \<Rightarrow> bool" where
  "conn_usable c \<longleftrightarrow> cn_inner c \<noteq> Some False \<or> cn_ReconnectOnMsg c \<or> cn_Reconnect c"

interpretation conn_log: LoggerInterface "conn_WriteMsg None True" cn_Level "\<lambda>_. True" conn_usable
  "\<lambda>_ now msg _. logLine now msg" connAdds "\<lambda>(_ :: unit) c. c" "\<lambda>_ _. True"
  by unfold_locales
    (auto simp: conn_WriteMsg_def neddedConnectOnMsg_def connect_def connAdds_def conn_usable_def Let_def)

text \<open>A connection that the peer has dropped is never made again: \<^verbatim>\<open>WriteMsg\<close> looks only at whether there was
  one.\<close>

lemma conn_lost:
  assumes "cn_inner c = Some True" and "\<not> cn_Reconnect c" and "\<not> cn_ReconnectOnMsg c"
  shows "conn_WriteMsg dial False now msg level c = (Ok (), c)"
  using assms by (simp add: conn_WriteMsg_def neddedConnectOnMsg_def)

section \<open>The queue\<close>

definition nsqCap :: nat where "nsqCap = 4096"

text \<open>\<open>nq_posted\<close> are the batches whose \<^verbatim>\<open>http.Post\<close> has succeeded.\<close>

record NsqLogWriter =
  nq_ch :: "byte list list"
  nq_posted :: "byte list list list"
  nq_Prefix :: "byte list"
  nq_Addr :: "byte list"
  nq_Level :: int

definition NewNsqWriter :: NsqLogWriter where
  "NewNsqWriter = \<lparr>nq_ch = [], nq_posted = [], nq_Prefix = [], nq_Addr = [], nq_Level = level_iota LevelDebug\<rparr>"

definition be32 :: "nat \<Rightarrow> byte list" where
  "be32 n = (let w = of_nat n :: u32 in [byteAt 24 w, byteAt 16 w, byteAt 8 w, byteAt 0 w])"

text \<open>The body of the request: the number of messages, and each with its size.\<close>

definition mpubBody :: "byte list list \<Rightarrow> byte list" where
  "mpubBody ms = be32 (length ms) @ concat (map (\<lambda>m. be32 (length m) @ m) ms)"

text \<open>One tick of \<open>publish\<close>; \<open>post\<close>: the request succeeds.\<close>

definition publish :: "bool \<Rightarrow> NsqLogWriter \<Rightarrow> NsqLogWriter" where
  "publish post c =
     (if length (nq_ch c) = 0 then c
      else c\<lparr>nq_ch := [], nq_posted := (if post then nq_posted c @ [nq_ch c] else nq_posted c)\<rparr>)"

definition nsqFields :: "NsqLogWriter fields" where
  "nsqFields =
     [(str ''prefix'', strField (\<lambda>v c. c\<lparr>nq_Prefix := v\<rparr>)), (str ''addr'', strField (\<lambda>v c. c\<lparr>nq_Addr := v\<rparr>)),
      (str ''level'', intField (\<lambda>v c. c\<lparr>nq_Level := v\<rparr>))]"

definition nsq_Init :: "byte list \<Rightarrow> NsqLogWriter \<Rightarrow> unit res \<times> NsqLogWriter" where
  "nsq_Init jsonconfig c =
     (if length jsonconfig = 0 then (Ok (), c)
      else
        (case Unmarshal nsqFields jsonconfig c of
           (ok, c) \<Rightarrow>
             if \<not> ok then (Err JsonError, c) else if nq_Addr c = [] then (Err NoAddr, c) else (Ok (), c)))"

text \<open>The time of \<^verbatim>\<open>2006-01-02 15:04:05\<close> with a blank.\<close>

definition nsqStamp :: "moment \<Rightarrow> byte list" where
  "nsqStamp now = now_date now @ drop 10 (now_stamp now)"

text \<open>A send to a full channel waits until \<open>publish\<close> has taken what is there.\<close>

definition nsq_WriteMsg :: "bool \<Rightarrow> moment \<Rightarrow> byte list \<Rightarrow> int \<Rightarrow> NsqLogWriter \<Rightarrow> unit res \<times> NsqLogWriter" where
  "nsq_WriteMsg post now msg level c =
     (if nq_Level c < level then (Ok (), c)
      else
        (case brush level (nq_Prefix c @ str '' '' @ msg) of
           Ok t \<Rightarrow>
             (let c = (if nsqCap \<le> length (nq_ch c) then publish post c else c)
              in (Ok (), c\<lparr>nq_ch := nq_ch c @ [nsqStamp now @ t]\<rparr>))
         | Err e \<Rightarrow> (Err e, c)
         | Panic \<Rightarrow> (Panic, c)
         | Spin \<Rightarrow> (Spin, c)))"

text \<open>Everything that has been taken to the queue or is on its way.\<close>

definition nsqText :: "NsqLogWriter \<Rightarrow> byte list" where
  "nsqText c = concat (concat (nq_posted c) @ nq_ch c)"

definition nsqAdds :: "NsqLogWriter \<Rightarrow> byte list \<Rightarrow> NsqLogWriter \<Rightarrow> bool" where
  "nsqAdds c text c' \<longleftrightarrow> nsqText c' = nsqText c @ text"

lemma publish_text [simp]: "nsqText (publish True c) = nsqText c"
  by (simp add: publish_def nsqText_def)

lemma publish_frame [simp]: "nq_Level (publish p c) = nq_Level c" "nq_Prefix (publish p c) = nq_Prefix c"
  "nq_ch (publish p c) = []"
  by (simp_all add: publish_def)

lemma nsqText_snoc [simp]: "nsqText (c\<lparr>nq_ch := nq_ch c @ [m]\<rparr>) = nsqText c @ m"
  by (simp add: nsqText_def)

interpretation nsq_log: LoggerInterface "nsq_WriteMsg True" nq_Level levelNo "\<lambda>c. length (nq_ch c) \<le> nsqCap"
  "\<lambda>c now msg level. nsqStamp now @ (colors ! nat level) (nq_Prefix c @ str '' '' @ msg)" nsqAdds
  publish "\<lambda>post _. post"
proof unfold_locales
  fix c :: NsqLogWriter and now msg level
  assume a: "length (nq_ch c) \<le> nsqCap" "levelNo level" "level \<le> nq_Level c"
  let ?m = "nsqStamp now @ (colors ! nat level) (nq_Prefix c @ str '' '' @ msg)"
  let ?c = "if nsqCap \<le> length (nq_ch c) then publish True c else c"
  have "nsq_WriteMsg True now msg level c = (Ok (), ?c\<lparr>nq_ch := nq_ch ?c @ [?m]\<rparr>)"
    using a by (simp add: nsq_WriteMsg_def brush_ok)
  moreover have "nsqText (?c\<lparr>nq_ch := nq_ch ?c @ [?m]\<rparr>) = nsqText c @ ?m"
    by (simp only: nsqText_snoc) simp
  moreover have "length (nq_ch ?c) < nsqCap" by (simp add: nsqCap_def)
  ultimately show "\<exists>s'. nsq_WriteMsg True now msg level c = (Ok (), s') \<and> length (nq_ch s') \<le> nsqCap \<and> nq_Level s' = nq_Level c \<and>
      (\<lambda>now msg level. nsqStamp now @ (colors ! nat level) (nq_Prefix s' @ str '' '' @ msg)) =
      (\<lambda>now msg level. nsqStamp now @ (colors ! nat level) (nq_Prefix c @ str '' '' @ msg)) \<and> nsqAdds c ?m s'"
    by (intro exI [of _ "?c\<lparr>nq_ch := nq_ch ?c @ [?m]\<rparr>"]) (simp add: nsqAdds_def)
qed (auto simp: nsq_WriteMsg_def nsqAdds_def)

section \<open>The body of a request\<close>

text \<open>How the queue reads a body: big-endian numbers, and as many messages as announced.\<close>

fun readBE32 :: "byte list \<Rightarrow> (nat \<times> byte list) option" where
  "readBE32 (a # b # c # d # r) = Some (unat a * 2 ^ 24 + unat b * 2 ^ 16 + unat c * 2 ^ 8 + unat d, r)"
| "readBE32 r = None"

fun readMsgs :: "nat \<Rightarrow> byte list \<Rightarrow> (byte list list \<times> byte list) option" where
  "readMsgs 0 bs = Some ([], bs)"
| "readMsgs (Suc n) bs =
     (case readBE32 bs of
        None \<Rightarrow> None
      | Some (k, r) \<Rightarrow>
          if length r < k then None
          else (case readMsgs n (drop k r) of None \<Rightarrow> None | Some (ms, r') \<Rightarrow> Some (take k r # ms, r')))"

definition readBody :: "byte list \<Rightarrow> byte list list option" where
  "readBody bs =
     (case readBE32 bs of
        None \<Rightarrow> None
      | Some (n, r) \<Rightarrow> (case readMsgs n r of Some (ms, []) \<Rightarrow> Some ms | _ \<Rightarrow> None))"

lemma unat_byteAt: "unat (byteAt k (of_nat n :: u32)) = n mod 2 ^ 32 div 2 ^ k mod 2 ^ 8"
  unfolding byteAt_def unsigned_ucast_eq unat_drop_bit_eq
  unfolding unat_of_nat drop_bit_eq_div take_bit_eq_mod by simp

lemma readBE32_be32:
  assumes "n < 2 ^ 32"
  shows "readBE32 (be32 n @ r) = Some (n, r)"
proof -
  have "n div 2 ^ 24 mod 2 ^ 8 * 2 ^ 24 + n div 2 ^ 16 mod 2 ^ 8 * 2 ^ 16 + n div 2 ^ 8 mod 2 ^ 8 * 2 ^ 8 + n mod 2 ^ 8 = n"
  proof -
    have "n div 2 ^ 24 mod 2 ^ 8 = n div 2 ^ 24" using assms by (simp add: less_mult_imp_div_less)
    moreover have "n div 2 ^ 16 = n div 2 ^ 24 * 2 ^ 8 + n div 2 ^ 16 mod 2 ^ 8"
      using div_mult_mod_eq [of "n div 2 ^ 16" "2 ^ 8"] by (simp add: div_mult2_eq [symmetric])
    moreover have "n div 2 ^ 8 = n div 2 ^ 16 * 2 ^ 8 + n div 2 ^ 8 mod 2 ^ 8"
      using div_mult_mod_eq [of "n div 2 ^ 8" "2 ^ 8"] by (simp add: div_mult2_eq [symmetric])
    moreover have "n = n div 2 ^ 8 * 2 ^ 8 + n mod 2 ^ 8" by simp
    moreover have "B = A * 2 ^ 8 + b \<Longrightarrow> C = B * 2 ^ 8 + c \<Longrightarrow> N = C * 2 ^ 8 + d \<Longrightarrow>
        A * 2 ^ 24 + b * 2 ^ 16 + c * 2 ^ 8 + d = (N :: nat)" for A B C N b c d by simp
    ultimately show ?thesis by metis
  qed
  with assms show ?thesis by (simp add: be32_def Let_def unat_byteAt)
qed

lemma readMsgs_concat:
  "\<forall>m \<in> set ms. length m < 2 ^ 32 \<Longrightarrow>
    readMsgs (length ms) (concat (map (\<lambda>m. be32 (length m) @ m) ms) @ r) = Some (ms, r)"
  by (induction ms) (simp_all add: readBE32_be32)

text \<open>The queue reads from the body of a request exactly the messages of the batch, whatever bytes they
  have.\<close>

lemma mpub_roundtrip:
  assumes "length ms < 2 ^ 32" and "\<forall>m \<in> set ms. length m < 2 ^ 32"
  shows "readBody (mpubBody ms) = Some ms"
  using readMsgs_concat [OF assms(2), of "[]"] by (simp add: readBody_def mpubBody_def readBE32_be32 [OF assms(1)])

lemma mpub_roundtrip_witness: "readBody (mpubBody [[1, 2], [], [3]]) = Some [[1, 2], [], [3]]"
  by (rule mpub_roundtrip) simp_all

end
