(* ===== verification/Log_File.thy ===== *)
theory Log_File
  imports Log_Types
begin

text \<open>
  \<^verbatim>\<open>log/file.go\<close>: the writer that appends to a file and starts a new one when the file has too many lines,
  is too long, or is from another day. The old file keeps its lines under a new name. Each rotation starts
  a goroutine that removes the log's files that are too old.
\<close>

section \<open>The writer\<close>

text \<open>\<open>fw_sweeping\<close>: a goroutine that runs \<^verbatim>\<open>deleteOldLog\<close> has been started. The descriptor in the \<^verbatim>\<open>MuxWriter\<close>: none yet, closed, or the open file with this name.\<close>

datatype fdesc = NilFd | ClosedFd | OpenFd "byte list"

record FileLogWriter =
  fw_Filename :: "byte list"
  fw_Maxlines :: int
  fw_curlines :: int
  fw_Maxsize :: int
  fw_cursize :: int
  fw_Daily :: bool
  fw_Maxdays :: int
  fw_opendate :: int
  fw_Rotate :: bool
  fw_Level :: int
  fw_fd :: fdesc
  fw_sweeping :: bool

definition NewFileWriter :: FileLogWriter where
  "NewFileWriter = \<lparr>fw_Filename = [], fw_Maxlines = 1000000, fw_curlines = 0, fw_Maxsize = 2 ^ 28, fw_cursize = 0,
     fw_Daily = True, fw_Maxdays = 7, fw_opendate = 0, fw_Rotate = True, fw_Level = level_iota LevelTrace, fw_fd = NilFd,
     fw_sweeping = False\<rparr>"

text \<open>The fields that a configuration sets.\<close>

definition fileFields :: "FileLogWriter fields" where
  "fileFields =
     [(str ''filename'', strField (\<lambda>v w. w\<lparr>fw_Filename := v\<rparr>)), (str ''maxlines'', intField (\<lambda>v w. w\<lparr>fw_Maxlines := v\<rparr>)),
      (str ''maxsize'', intField (\<lambda>v w. w\<lparr>fw_Maxsize := v\<rparr>)), (str ''daily'', boolField (\<lambda>v w. w\<lparr>fw_Daily := v\<rparr>)),
      (str ''maxdays'', intField (\<lambda>v w. w\<lparr>fw_Maxdays := v\<rparr>)), (str ''rotate'', boolField (\<lambda>v w. w\<lparr>fw_Rotate := v\<rparr>)),
      (str ''level'', intField (\<lambda>v w. w\<lparr>fw_Level := v\<rparr>))]"

section \<open>Opening\<close>

definition createLogFile :: "moment \<Rightarrow> faults \<Rightarrow> FileLogWriter \<Rightarrow> fsys \<Rightarrow> fdesc res \<times> fsys" where
  "createLogFile now flt w fs =
     (case e_open flt of
        Some n \<Rightarrow> (Err (OsError n), fs)
      | None \<Rightarrow>
          (Ok (OpenFd (fw_Filename w)),
           if fs (fw_Filename w) = None then fs(fw_Filename w \<mapsto> \<lparr>f_data = [], f_mtime = now_unix now\<rparr>) else fs))"

definition newlines :: "byte list \<Rightarrow> int" where
  "newlines bs = int (length (filter (\<lambda>b. b = 0x0a) bs))"

definition lines :: "faults \<Rightarrow> byte list \<Rightarrow> int res" where
  "lines flt bs = (case e_read flt of Some n \<Rightarrow> Err (OsError n) | None \<Rightarrow> Ok (newlines bs))"

text \<open>\<^verbatim>\<open>fd.Stat\<close> fails on a nil or closed descriptor.\<close>

definition initFd :: "moment \<Rightarrow> faults \<Rightarrow> FileLogWriter \<Rightarrow> fsys \<Rightarrow> unit res \<times> FileLogWriter" where
  "initFd now flt w fs =
     (case fw_fd w of
        OpenFd p \<Rightarrow>
          (case e_stat flt of
             Some n \<Rightarrow> (Err (OsError n), w)
           | None \<Rightarrow>
               (let bs = (case fs p of Some f \<Rightarrow> f_data f | None \<Rightarrow> []);
                    w = w\<lparr>fw_cursize := int (length bs)\<rparr>;
                    w = w\<lparr>fw_opendate := now_day now\<rparr>;
                    w = w\<lparr>fw_curlines := 0\<rparr>
                in if 0 < length bs
                   then (case lines flt bs of
                           Ok n \<Rightarrow> (Ok (), w\<lparr>fw_curlines := n\<rparr>)
                         | Err e \<Rightarrow> (Err e, w)
                         | Panic \<Rightarrow> (Panic, w)
                         | Spin \<Rightarrow> (Spin, w))
                   else (Ok (), w)))
      | _ \<Rightarrow> (Err (OsError 0), w))"

definition startLogger :: "moment \<Rightarrow> faults \<Rightarrow> FileLogWriter \<Rightarrow> fsys \<Rightarrow> unit res \<times> FileLogWriter \<times> fsys" where
  "startLogger now flt w fs =
     (case createLogFile now flt w fs of
        (Ok fd, fs) \<Rightarrow> (case initFd now flt (w\<lparr>fw_fd := fd\<rparr>) fs of (r, w) \<Rightarrow> (r, w, fs))
      | (Err e, fs) \<Rightarrow> (Err e, w, fs)
      | (Panic, fs) \<Rightarrow> (Panic, w, fs)
      | (Spin, fs) \<Rightarrow> (Spin, w, fs))"

definition file_Init :: "byte list \<Rightarrow> moment \<Rightarrow> faults \<Rightarrow> FileLogWriter \<Rightarrow> fsys \<Rightarrow> unit res \<times> FileLogWriter \<times> fsys" where
  "file_Init jsonconfig now flt w fs =
     (case Unmarshal fileFields jsonconfig w of
        (ok, w) \<Rightarrow>
          if \<not> ok then (Err JsonError, w, fs)
          else if length (fw_Filename w) = 0 then (Err NoFilename, w, fs)
          else startLogger now flt w fs)"

section \<open>Rotating\<close>

text \<open>\<^verbatim>\<open>%03d\<close> of a number below 1000.\<close>

definition pad3 :: "nat \<Rightarrow> byte list" where
  "pad3 n = [of_nat (n div 100) + 0x30, of_nat (n div 10 mod 10) + 0x30, of_nat (n mod 10) + 0x30]"

definition rotName :: "moment \<Rightarrow> FileLogWriter \<Rightarrow> nat \<Rightarrow> byte list" where
  "rotName now w num = fw_Filename w @ [0x2e] @ now_date now @ [0x2e] @ pad3 num"

text \<open>The first number from 1 to 999 whose name is free.\<close>

definition freeName :: "moment \<Rightarrow> FileLogWriter \<Rightarrow> fsys \<Rightarrow> byte list option" where
  "freeName now w fs = List.find (\<lambda>p. fs p = None) (map (rotName now w) [1..<1000])"

definition DoRotate :: "moment \<Rightarrow> faults \<Rightarrow> FileLogWriter \<Rightarrow> fsys \<Rightarrow> unit res \<times> FileLogWriter \<times> fsys" where
  "DoRotate now flt w fs =
     (case fs (fw_Filename w) of
        None \<Rightarrow> (Ok (), w, fs)
      | Some f \<Rightarrow>
          (case freeName now w fs of
             None \<Rightarrow> (Err (NoFreeLogNumber (fw_Filename w)), w, fs)
           | Some fname \<Rightarrow>
               (let w = w\<lparr>fw_fd := (if fw_fd w = NilFd then NilFd else ClosedFd)\<rparr> in
                case e_rename flt of
                  Some n \<Rightarrow> (Err (OsError n), w, fs)
                | None \<Rightarrow>
                    (case startLogger now flt w (fs(fw_Filename w := None, fname \<mapsto> f)) of
                       (Ok _, w, fs) \<Rightarrow> (Ok (), w\<lparr>fw_sweeping := True\<rparr>, fs)
                     | r \<Rightarrow> r))))"

definition docheck :: "moment \<Rightarrow> faults \<Rightarrow> int \<Rightarrow> FileLogWriter \<Rightarrow> fsys \<Rightarrow> FileLogWriter \<times> fsys" where
  "docheck now flt n w fs =
     (if fw_Rotate w \<and>
         (0 < fw_Maxlines w \<and> fw_Maxlines w \<le> fw_curlines w \<or> 0 < fw_Maxsize w \<and> fw_Maxsize w \<le> fw_cursize w \<or>
          fw_Daily w \<and> now_day now \<noteq> fw_opendate w)
      then
        (case DoRotate now flt w fs of
           (Ok _, w, fs) \<Rightarrow> (w\<lparr>fw_curlines := fw_curlines w + 1, fw_cursize := fw_cursize w + n\<rparr>, fs)
         | (_, w, fs) \<Rightarrow> (w, fs))
      else (w\<lparr>fw_curlines := fw_curlines w + 1, fw_cursize := fw_cursize w + n\<rparr>, fs))"

text \<open>A write to a nil or closed descriptor fails, and \<^verbatim>\<open>Println\<close> drops the error.\<close>

definition writeLine :: "moment \<Rightarrow> FileLogWriter \<Rightarrow> byte list \<Rightarrow> fsys \<Rightarrow> fsys" where
  "writeLine now w line fs =
     (case fw_fd w of
        OpenFd p \<Rightarrow>
          (case fs p of
             Some f \<Rightarrow> fs(p \<mapsto> \<lparr>f_data = f_data f @ line, f_mtime = now_unix now\<rparr>)
           | None \<Rightarrow> fs)
      | _ \<Rightarrow> fs)"

definition file_WriteMsg ::
  "moment \<Rightarrow> faults \<Rightarrow> byte list \<Rightarrow> int \<Rightarrow> FileLogWriter \<Rightarrow> fsys \<Rightarrow> unit res \<times> FileLogWriter \<times> fsys" where
  "file_WriteMsg now flt msg level w fs =
     (if fw_Level w < level then (Ok (), w, fs)
      else
        (let n = 24 + int (length msg) in
         case docheck now flt n w fs of (w, fs) \<Rightarrow> (Ok (), w, writeLine now w (logLine now msg) fs)))"

section \<open>Deleting old files\<close>

definition slash :: byte where "slash = 0x2f"

text \<open>\<^verbatim>\<open>filepath.Base\<close> and \<^verbatim>\<open>filepath.Dir\<close> of a clean path of a file, and the files that \<^verbatim>\<open>filepath.Walk\<close> comes to.\<close>

definition baseName :: "byte list \<Rightarrow> byte list" where
  "baseName p = rev (takeWhile (\<lambda>c. c \<noteq> slash) (rev p))"

definition dirName :: "byte list \<Rightarrow> byte list" where
  "dirName p = rev (dropWhile (\<lambda>c. c \<noteq> slash) (rev p))"

definition isUnder :: "byte list \<Rightarrow> byte list \<Rightarrow> bool" where
  "isUnder dir p \<longleftrightarrow> (if dir = [] then take 1 p \<noteq> [slash] else take (length dir) p = dir)"

definition oldLog :: "int \<Rightarrow> FileLogWriter \<Rightarrow> byte list \<Rightarrow> logfile \<Rightarrow> bool" where
  "oldLog now w p f \<longleftrightarrow> isUnder (dirName (fw_Filename w)) p \<and> f_mtime f < now - 60 * 60 * 24 * fw_Maxdays w \<and>
     take (length (baseName (fw_Filename w))) (baseName p) = baseName (fw_Filename w)"

definition deleteOldLog :: "int \<Rightarrow> FileLogWriter \<Rightarrow> fsys \<Rightarrow> fsys" where
  "deleteOldLog now w fs =
     (\<lambda>p. case fs p of
        None \<Rightarrow> None
      | Some f \<Rightarrow> if oldLog now w p f then None else Some f)"

text \<open>
  \<open>deleteOldLog\<close> is the function when nothing else runs. It runs in goroutines, which come to the files in their
  own time: \<open>visitOld\<close> is one of them at the file \<open>p\<close>, with the time at which it looked. Any file can be visited,
  at any time and any number of times, once there has been a rotation. A file is looked at and removed in one
  step; since the time is that of the look, which may be long past, the only thing this leaves out is a name
  that gets another file in between.
\<close>

definition visitOld :: "int \<Rightarrow> byte list \<Rightarrow> FileLogWriter \<Rightarrow> fsys \<Rightarrow> fsys" where
  "visitOld now p w fs =
     (if fw_sweeping w then
        (case fs p of
           None \<Rightarrow> fs
         | Some f \<Rightarrow> if oldLog now w p f then fs(p := None) else fs)
      else fs)"

lemma visitOld_deletes: "fw_sweeping w \<Longrightarrow> visitOld now p w fs p = deleteOldLog now w fs p"
  by (simp add: visitOld_def deleteOldLog_def split: option.split)

lemma oldLog_later: "oldLog now w p f \<Longrightarrow> now \<le> later \<Longrightarrow> oldLog later w p f"
  by (simp add: oldLog_def)

definition file_Destroy :: "FileLogWriter \<Rightarrow> FileLogWriter" where
  "file_Destroy w = w\<lparr>fw_fd := (if fw_fd w = NilFd then NilFd else ClosedFd)\<rparr>"

section \<open>Sequences of messages\<close>

text \<open>Each call with its time, the errors the system reports in it, the message and its level. \<open>WriteMsg\<close> never
  returns an error, so its results need not be kept.\<close>

type_synonym call = "moment \<times> faults \<times> byte list \<times> int"

fun writeCalls :: "call list \<Rightarrow> FileLogWriter \<Rightarrow> fsys \<Rightarrow> FileLogWriter \<times> fsys" where
  "writeCalls [] w fs = (w, fs)"
| "writeCalls ((now, flt, msg, level) # cs) w fs =
     (case file_WriteMsg now flt msg level w fs of (_, w, fs) \<Rightarrow> writeCalls cs w fs)"

definition fileData :: "fsys \<Rightarrow> byte list \<Rightarrow> byte list" where
  "fileData fs p = (case fs p of Some f \<Rightarrow> f_data f | None \<Rightarrow> [])"

text \<open>The writer's descriptor is the file with its name, and the file is there.\<close>

definition ready :: "FileLogWriter \<Rightarrow> fsys \<Rightarrow> bool" where
  "ready w fs \<longleftrightarrow> fw_fd w = OpenFd (fw_Filename w) \<and> fs (fw_Filename w) \<noteq> None"

definition due :: "moment \<Rightarrow> FileLogWriter \<Rightarrow> bool" where
  "due now w \<longleftrightarrow> fw_Rotate w \<and>
     (0 < fw_Maxlines w \<and> fw_Maxlines w \<le> fw_curlines w \<or> 0 < fw_Maxsize w \<and> fw_Maxsize w \<le> fw_cursize w \<or>
      fw_Daily w \<and> now_day now \<noteq> fw_opendate w)"

text \<open>What a rotation leaves as it is.\<close>

definition sameConfig :: "FileLogWriter \<Rightarrow> FileLogWriter \<Rightarrow> bool" where
  "sameConfig w w' \<longleftrightarrow> fw_Filename w' = fw_Filename w \<and> fw_Level w' = fw_Level w \<and> fw_Maxlines w' = fw_Maxlines w \<and>
     fw_Maxsize w' = fw_Maxsize w \<and> fw_Rotate w' = fw_Rotate w \<and> fw_Maxdays w' = fw_Maxdays w"

lemma rotName_other: "rotName now w n \<noteq> fw_Filename w"
  by (simp add: rotName_def)

lemma freeName_free: "freeName now w fs = Some p \<Longrightarrow> fs p = None \<and> p \<noteq> fw_Filename w"
  by (auto simp: freeName_def find_Some_iff rotName_other)

lemma startLogger_new:
  assumes "fs (fw_Filename w) = None"
  shows "startLogger now noFaults w fs =
    (Ok (), w\<lparr>fw_fd := OpenFd (fw_Filename w), fw_cursize := 0, fw_opendate := now_day now, fw_curlines := 0\<rparr>,
     fs(fw_Filename w \<mapsto> \<lparr>f_data = [], f_mtime = now_unix now\<rparr>))"
  using assms by (simp add: startLogger_def createLogFile_def initFd_def noFaults_def Let_def)

lemma DoRotate_ok:
  assumes "ready w fs" and "freeName now w fs = Some p" and "fs (fw_Filename w) = Some f"
  shows "DoRotate now noFaults w fs =
    (Ok (), w\<lparr>fw_fd := OpenFd (fw_Filename w), fw_cursize := 0, fw_opendate := now_day now, fw_curlines := 0,
       fw_sweeping := True\<rparr>,
     fs(p \<mapsto> f, fw_Filename w \<mapsto> \<lparr>f_data = [], f_mtime = now_unix now\<rparr>))"
proof -
  have p: "p \<noteq> fw_Filename w" using freeName_free [OF assms(2)] by simp
  let ?w = "w\<lparr>fw_fd := ClosedFd\<rparr>" and ?fs = "fs(fw_Filename w := None, p \<mapsto> f)"
  have "?fs (fw_Filename ?w) = None" using p by simp
  then have "startLogger now noFaults ?w ?fs =
      (Ok (), w\<lparr>fw_fd := OpenFd (fw_Filename w), fw_cursize := 0, fw_opendate := now_day now, fw_curlines := 0\<rparr>,
       fs(p \<mapsto> f, fw_Filename w \<mapsto> \<lparr>f_data = [], f_mtime = now_unix now\<rparr>))" 
    using p startLogger_new [of ?fs ?w now] by (simp add: fun_upd_twist)
  moreover have "fw_fd w \<noteq> NilFd" using assms(1) by (simp add: ready_def)
  ultimately show ?thesis using assms(2,3) by (simp add: DoRotate_def noFaults_def)
qed

text \<open>The counters after a message without a rotation.\<close>

definition bump :: "int \<Rightarrow> FileLogWriter \<Rightarrow> FileLogWriter" where
  "bump n w = w\<lparr>fw_curlines := fw_curlines w + 1, fw_cursize := fw_cursize w + n\<rparr>"

lemma docheck_due:
  "docheck now flt n w fs =
    (if due now w then (case DoRotate now flt w fs of (Ok _, w, fs) \<Rightarrow> (bump n w, fs) | (_, w, fs) \<Rightarrow> (w, fs))
     else (bump n w, fs))"
  unfolding docheck_def due_def bump_def ..

lemma bump_simps [simp]:
  "fw_fd (bump n w) = fw_fd w" "sameConfig w (bump n w)" "fw_curlines (bump n w) = fw_curlines w + 1"
  "fw_cursize (bump n w) = fw_cursize w + n" "fw_Filename (bump n w) = fw_Filename w"
  by (simp_all add: bump_def sameConfig_def)

text \<open>One message: it is appended, or the file goes to a free name and the message begins a new one.\<close>

lemma WriteMsg_cases:
  assumes r: "ready w fs" and l: "level \<le> fw_Level w" and f: "fs (fw_Filename w) = Some f"
  obtains (append) w' where
      "file_WriteMsg now noFaults msg level w fs =
        (Ok (), w', fs(fw_Filename w \<mapsto> \<lparr>f_data = f_data f @ logLine now msg, f_mtime = now_unix now\<rparr>))"
      and "fw_fd w' = fw_fd w" and "sameConfig w w'"
      and "due now w \<and> freeName now w fs = None \<and> w' = w \<or>
        \<not> due now w \<and> fw_curlines w' = fw_curlines w + 1 \<and> fw_cursize w' = fw_cursize w + (24 + int (length msg))"
  | (rotate) w' p where
      "file_WriteMsg now noFaults msg level w fs =
        (Ok (), w', fs(p \<mapsto> f, fw_Filename w \<mapsto> \<lparr>f_data = logLine now msg, f_mtime = now_unix now\<rparr>))"
      and "freeName now w fs = Some p" and "fw_fd w' = fw_fd w" and "sameConfig w w'"
      and "fw_curlines w' = 1" and "fw_cursize w' = 24 + int (length msg)"
proof -
  have fd: "fw_fd w = OpenFd (fw_Filename w)" using r by (simp add: ready_def)
  let ?n = "24 + int (length msg)"
  show ?thesis
  proof (cases "due now w")
    case False
    then have "file_WriteMsg now noFaults msg level w fs =
        (Ok (), bump ?n w, fs(fw_Filename w \<mapsto> \<lparr>f_data = f_data f @ logLine now msg, f_mtime = now_unix now\<rparr>))"
      using l fd f by (simp add: file_WriteMsg_def docheck_due writeLine_def)
    then show ?thesis by (rule append) (simp_all add: False)
  next
    case True
    show ?thesis
    proof (cases "freeName now w fs")
      case None
      then have "DoRotate now noFaults w fs = (Err (NoFreeLogNumber (fw_Filename w)), w, fs)" using f by (simp add: DoRotate_def)
      then have "file_WriteMsg now noFaults msg level w fs =
          (Ok (), w, fs(fw_Filename w \<mapsto> \<lparr>f_data = f_data f @ logLine now msg, f_mtime = now_unix now\<rparr>))"
        using True l fd f by (simp add: file_WriteMsg_def docheck_due writeLine_def)
      then show ?thesis by (rule append) (simp_all add: True None sameConfig_def)
    next
      case (Some p)
      let ?w = "w\<lparr>fw_fd := OpenFd (fw_Filename w), fw_cursize := 0, fw_opendate := now_day now, fw_curlines := 0,
          fw_sweeping := True\<rparr>"
      have "file_WriteMsg now noFaults msg level w fs =
          (Ok (), bump ?n ?w, fs(p \<mapsto> f, fw_Filename w \<mapsto> \<lparr>f_data = logLine now msg, f_mtime = now_unix now\<rparr>))"
        using DoRotate_ok [OF r Some f] True l by (simp add: file_WriteMsg_def docheck_due writeLine_def)
      then show ?thesis by (rule rotate [OF _ Some]) (simp_all add: fd bump_def sameConfig_def)
    qed
  qed
qed

section \<open>Nothing is lost\<close>

text \<open>
  What has become of the log since the files were \<open>fs\<close>. \<open>hist\<close> are the files that rotations have made, in
  their order, each with its new name and whether it is still there; with the current file they hold
  \<open>text\<close>. Those that are gone were too old by the time \<open>T\<close>. The others are there under their names, which
  were free or had files that were too old. Every other file is as it was, or was too old and is gone.
\<close>

definition keptNames :: "(byte list \<times> logfile \<times> bool) list \<Rightarrow> byte list list" where
  "keptNames hist = [q. (q, f, True) \<leftarrow> hist]"

definition histText :: "(byte list \<times> logfile \<times> bool) list \<Rightarrow> byte list" where
  "histText hist = concat (map (\<lambda>(q, f, k). f_data f) hist)"

definition wasOld :: "int \<Rightarrow> FileLogWriter \<Rightarrow> fsys \<Rightarrow> byte list \<Rightarrow> bool" where
  "wasOld T w fs q \<longleftrightarrow> (case fs q of Some f \<Rightarrow> oldLog T w q f | None \<Rightarrow> False)"

definition logHist :: "int \<Rightarrow> FileLogWriter \<Rightarrow> fsys \<Rightarrow> (byte list \<times> logfile \<times> bool) list \<Rightarrow> fsys \<Rightarrow> bool" where
  "logHist T w fs hist fs' \<longleftrightarrow>
     distinct (keptNames hist) \<and>
     (\<forall>(q, f, k) \<in> set hist. q \<noteq> fw_Filename w \<and> (if k then fs' q = Some f else oldLog T w q f)) \<and>
     (\<forall>q. q \<noteq> fw_Filename w \<longrightarrow> q \<notin> set (keptNames hist) \<longrightarrow> fs' q = fs q \<or> fs' q = None \<and> wasOld T w fs q) \<and>
     (\<forall>q \<in> set (keptNames hist). fs q = None \<or> wasOld T w fs q)"

definition logIs :: "int \<Rightarrow> FileLogWriter \<Rightarrow> fsys \<Rightarrow> byte list \<Rightarrow> fsys \<Rightarrow> bool" where
  "logIs T w fs text fs' \<longleftrightarrow>
     (\<exists>hist. logHist T w fs hist fs' \<and> histText hist @ fileData fs' (fw_Filename w) = text)"

lemma keptNames_simps [simp]:
  "keptNames [] = []" "keptNames ((q, f, k) # h) = (if k then q # keptNames h else keptNames h)"
  "keptNames (g @ h) = keptNames g @ keptNames h"
  by (simp_all add: keptNames_def)

lemma histText_simps [simp]:
  "histText [] = []" "histText ((q, f, k) # h) = f_data f @ histText h" "histText (g @ h) = histText g @ histText h"
  by (simp_all add: histText_def)

lemma keptNames_iff: "q \<in> set (keptNames hist) \<longleftrightarrow> (\<exists>f. (q, f, True) \<in> set hist)"
  by (induction hist) (auto split: if_splits)

lemma logHist_cong:
  "fw_Filename w' = fw_Filename w \<Longrightarrow> fw_Maxdays w' = fw_Maxdays w \<Longrightarrow> logHist T w' = logHist T w"
proof -
  assume a: "fw_Filename w' = fw_Filename w" "fw_Maxdays w' = fw_Maxdays w"
  then have o: "oldLog T w' = oldLog T w" by (simp add: oldLog_def fun_eq_iff)
  then have "wasOld T w' = wasOld T w" by (intro ext) (simp add: wasOld_def split: option.split)
  with a o show ?thesis by (intro ext) (simp add: logHist_def)
qed

lemma logIs_cong: "fw_Filename w' = fw_Filename w \<Longrightarrow> fw_Maxdays w' = fw_Maxdays w \<Longrightarrow> logIs T w' = logIs T w"
  using logHist_cong [of w' w T] by (simp add: logIs_def fun_eq_iff)

lemma logHistD:
  assumes "logHist T w fs hist fs'"
  shows "distinct (keptNames hist)"
    and "\<And>q f. (q, f, True) \<in> set hist \<Longrightarrow> q \<noteq> fw_Filename w \<and> fs' q = Some f"
    and "\<And>q f. (q, f, False) \<in> set hist \<Longrightarrow> q \<noteq> fw_Filename w \<and> oldLog T w q f"
    and "\<And>q. q \<noteq> fw_Filename w \<Longrightarrow> q \<notin> set (keptNames hist) \<Longrightarrow> fs' q = fs q \<or> fs' q = None \<and> wasOld T w fs q"
    and "\<And>q. q \<in> set (keptNames hist) \<Longrightarrow> fs q = None \<or> wasOld T w fs q"
  using assms by (fastforce simp: logHist_def)+

text \<open>Files that were kept and are gone after what followed.\<close>

definition outlive :: "(byte list \<times> logfile \<times> bool) list \<Rightarrow> fsys \<Rightarrow> (byte list \<times> logfile \<times> bool) list \<Rightarrow> (byte list \<times> logfile \<times> bool) list" where
  "outlive g fs' = map (\<lambda>(q, f, k). (q, f, k \<and> q \<notin> set (keptNames g) \<and> fs' q = Some f))"

lemma outlive_text: "histText (outlive g fs' h) = histText h"
  by (induction h) (auto simp: outlive_def)

lemma outlive_mem: "(q, f, k) \<in> set (outlive g fs' h) \<longleftrightarrow>
    (\<exists>k'. (q, f, k') \<in> set h \<and> k = (k' \<and> q \<notin> set (keptNames g) \<and> fs' q = Some f))"
  by (force simp: outlive_def)

lemma outlive_kept: "q \<in> set (keptNames (outlive g fs' h)) \<longleftrightarrow>
    (\<exists>f. (q, f, True) \<in> set h \<and> q \<notin> set (keptNames g) \<and> fs' q = Some f)"
  by (auto simp: keptNames_iff outlive_mem)

lemma outlive_distinct: "distinct (keptNames h) \<Longrightarrow> distinct (keptNames (outlive g fs' h))"
proof (induction h)
  case (Cons e h)
  obtain q f k where e: "e = (q, f, k)" by (cases e)
  have o: "outlive g fs' (e # h) = (q, f, k \<and> q \<notin> set (keptNames g) \<and> fs' q = Some f) # outlive g fs' h"
    by (simp add: outlive_def e)
  have "q \<notin> set (keptNames (outlive g fs' h))" if "k"
    unfolding outlive_kept using Cons.prems that by (auto simp: e keptNames_iff)
  moreover have "distinct (keptNames (outlive g fs' h))" using Cons by (auto simp: e split: if_splits)
  ultimately show ?case unfolding o by simp
qed (simp add: outlive_def)

lemma logHist_trans:
  assumes 1: "logHist T w fs h fs1" and 2: "logHist T w fs1 g fs2"
  shows "logHist T w fs (outlive g fs2 h @ g) fs2"
proof -
  note h = logHistD [OF 1] and g = logHistD [OF 2]
  let ?o = "outlive g fs2 h"
  have lost: "oldLog T w q f \<and> (q \<in> set (keptNames g) \<or> fs2 q = None)"
    if "(q, f, True) \<in> set h" "\<not> (q \<notin> set (keptNames g) \<and> fs2 q = Some f)" for q f
  proof (cases "q \<in> set (keptNames g)")
    case True
    with g(5) [OF True] h(2) [OF that(1)] show ?thesis by (simp add: wasOld_def)
  next
    case False
    with g(4) [of q] h(2) [OF that(1)] that(2) show ?thesis by (auto simp: wasOld_def)
  qed
  have "distinct (keptNames (?o @ g))"
    using outlive_distinct [OF h(1)] g(1) by (auto simp: outlive_kept)
  moreover have "q \<noteq> fw_Filename w \<and> (if k then fs2 q = Some f else oldLog T w q f)" if "(q, f, k) \<in> set (?o @ g)" for q f k
  proof -
    from that consider (later) "(q, f, k) \<in> set g"
      | (before) k' where "(q, f, k') \<in> set h" "k = (k' \<and> q \<notin> set (keptNames g) \<and> fs2 q = Some f)"
      by (auto simp: outlive_mem)
    then show ?thesis
    proof cases
      case later
      with g(2,3) show ?thesis by (cases k) auto
    next
      case before
      with h(2,3) lost [of q f] show ?thesis by (cases k') auto
    qed
  qed
  moreover have "fs2 q = fs q \<or> fs2 q = None \<and> wasOld T w fs q"
    if q: "q \<noteq> fw_Filename w" "q \<notin> set (keptNames (?o @ g))" for q
  proof (cases "q \<in> set (keptNames h)")
    case True
    then obtain f where f: "(q, f, True) \<in> set h" by (auto simp: keptNames_iff)
    from q(2) f have "fs2 q \<noteq> Some f" "q \<notin> set (keptNames g)" by (auto simp: outlive_kept)
    with lost [OF f] have "fs2 q = None" by auto
    with h(5) [OF True] show ?thesis by auto
  next
    case False
    from q(2) have "q \<notin> set (keptNames g)" by simp
    from g(4) [OF q(1) this] h(4) [OF q(1) False] show ?thesis by (auto simp: wasOld_def)
  qed
  moreover have "fs q = None \<or> wasOld T w fs q" if "q \<in> set (keptNames (?o @ g))" for q
  proof (cases "q \<in> set (keptNames h)")
    case True
    then show ?thesis by (rule h(5))
  next
    case False
    then have q: "q \<in> set (keptNames g)" using that by (auto simp: outlive_mem keptNames_iff)
    then have "q \<noteq> fw_Filename w" using g(2) by (auto simp: keptNames_iff)
    from h(4) [OF this False] g(5) [OF q] show ?thesis by (auto simp: wasOld_def)
  qed
  ultimately show ?thesis unfolding logHist_def by blast
qed

lemma logIs_refl: "logIs T w fs (fileData fs (fw_Filename w)) fs"
  unfolding logIs_def by (rule exI [of _ "[]"]) (simp add: logHist_def)

lemma logIs_trans:
  assumes "logIs T w fs text fs1" and "logIs T w fs1 (fileData fs1 (fw_Filename w) @ b) fs2"
  shows "logIs T w fs (text @ b) fs2"
proof -
  from assms obtain h g where
    h: "logHist T w fs h fs1" "histText h @ fileData fs1 (fw_Filename w) = text" and
    g: "logHist T w fs1 g fs2" "histText g @ fileData fs2 (fw_Filename w) = fileData fs1 (fw_Filename w) @ b"
    unfolding logIs_def by blast
  have "histText (outlive g fs2 h @ g) @ fileData fs2 (fw_Filename w) = text @ b"
    using h(2) g(2) by (simp add: outlive_text)
  with logHist_trans [OF h(1) g(1)] show ?thesis unfolding logIs_def by blast
qed

text \<open>A message that is appended, one that begins a new file, and a visit that spares the current file.\<close>

lemma logIs_append:
  assumes "fs (fw_Filename w) = Some f" and "f_data f' = f_data f @ b"
  shows "logIs T w fs (fileData fs (fw_Filename w) @ b) (fs(fw_Filename w \<mapsto> f'))"
  unfolding logIs_def using assms
  by (intro exI [of _ "[]"]) (simp add: logHist_def fileData_def)

lemma logIs_rotate:
  assumes "fs (fw_Filename w) = Some f" and "fs q = None" and "q \<noteq> fw_Filename w" and "f_data f' = b"
  shows "logIs T w fs (fileData fs (fw_Filename w) @ b) (fs(q \<mapsto> f, fw_Filename w \<mapsto> f'))"
  unfolding logIs_def using assms
  by (intro exI [of _ "[(q, f, True)]"]) (simp add: logHist_def fileData_def)

definition sparesLog :: "int \<Rightarrow> int \<Rightarrow> byte list \<Rightarrow> FileLogWriter \<Rightarrow> fsys \<Rightarrow> bool" where
  "sparesLog T now p w fs \<longleftrightarrow> now \<le> T \<and>
     (p \<noteq> fw_Filename w \<or> (case fs p of Some f \<Rightarrow> \<not> oldLog now w p f | None \<Rightarrow> True))"

lemma logIs_visit:
  assumes "sparesLog T now p w fs"
  shows "logIs T w fs (fileData fs (fw_Filename w)) (visitOld now p w fs)"
proof (cases "visitOld now p w fs = fs")
  case True
  then show ?thesis using logIs_refl by simp
next
  case False
  then obtain f where f: "fs p = Some f" "oldLog now w p f" "visitOld now p w fs = fs(p := None)"
    by (auto simp: visitOld_def split: if_splits option.splits)
  with assms have p: "p \<noteq> fw_Filename w" "oldLog T w p f" using oldLog_later by (auto simp: sparesLog_def)
  have "logHist T w fs [] (fs(p := None))" using f(1) p by (simp add: logHist_def wasOld_def)
  then show ?thesis unfolding logIs_def using f(3) p(1) by (intro exI [of _ "[]"]) (simp add: fileData_def)
qed

lemma visitOld_ready: "ready w fs \<Longrightarrow> sparesLog T now p w fs \<Longrightarrow> ready w (visitOld now p w fs)"
  by (auto simp: ready_def visitOld_def sparesLog_def split: option.splits)

text \<open>One message, without errors of the system.\<close>

definition file_write :: "moment \<Rightarrow> byte list \<Rightarrow> int \<Rightarrow> FileLogWriter \<times> fsys \<Rightarrow> unit res \<times> FileLogWriter \<times> fsys" where
  "file_write now msg level s = file_WriteMsg now noFaults msg level (fst s) (snd s)"

definition fileAdds :: "int \<Rightarrow> FileLogWriter \<times> fsys \<Rightarrow> byte list \<Rightarrow> FileLogWriter \<times> fsys \<Rightarrow> bool" where
  "fileAdds T s text s' \<longleftrightarrow> fw_Filename (fst s') = fw_Filename (fst s) \<and> fw_Maxdays (fst s') = fw_Maxdays (fst s) \<and>
     logIs T (fst s) (snd s) (fileData (snd s) (fw_Filename (fst s)) @ text) (snd s')"

lemma file_WriteMsg_adds:
  assumes r: "ready w fs" and l: "level \<le> fw_Level w"
  shows "\<exists>w' fs'. file_WriteMsg now noFaults msg level w fs = (Ok (), w', fs') \<and> ready w' fs' \<and> sameConfig w w' \<and>
    logIs T w fs (fileData fs (fw_Filename w) @ logLine now msg) fs'"
proof -
  let ?p = "fw_Filename w"
  obtain f where f: "fs ?p = Some f" using r by (auto simp: ready_def)
  have fd: "fw_fd w = OpenFd ?p" using r by (simp add: ready_def)
  show ?thesis
  proof (cases rule: WriteMsg_cases [OF r l f, of now msg])
    case (1 w')
    with logIs_append [where w = w and fs = fs and f = f and f' = "\<lparr>f_data = f_data f @ logLine now msg, f_mtime = now_unix now\<rparr>"
        and b = "logLine now msg" and T = T] f fd
    show ?thesis by (simp add: ready_def sameConfig_def)
  next
    case (2 w' q)
    have q: "fs q = None" "q \<noteq> ?p" using freeName_free [OF 2(2)] by simp_all
    from 2(1,3,4) logIs_rotate [where w = w and fs = fs and f = f and q = q and
        f' = "\<lparr>f_data = logLine now msg, f_mtime = now_unix now\<rparr>" and b = "logLine now msg" and T = T] f q fd
    show ?thesis by (simp add: ready_def sameConfig_def)
  qed
qed

definition fileGoes :: "int \<times> byte list \<Rightarrow> FileLogWriter \<times> fsys \<Rightarrow> FileLogWriter \<times> fsys" where
  "fileGoes v s = (fst s, visitOld (fst v) (snd v) (fst s) (snd s))"

definition fileMayGo :: "int \<Rightarrow> int \<times> byte list \<Rightarrow> FileLogWriter \<times> fsys \<Rightarrow> bool" where
  "fileMayGo T v s = sparesLog T (fst v) (snd v) (fst s) (snd s)"

lemma file_simps:
  "file_write now msg level (w, fs) = file_WriteMsg now noFaults msg level w fs"
  "fileGoes (t, p) (w, fs) = (w, visitOld t p w fs)"
  "fileMayGo T (t, p) (w, fs) = sparesLog T t p w fs"
  by (simp_all add: file_write_def fileGoes_def fileMayGo_def)

interpretation file_log: LoggerInterface file_write "\<lambda>s. fw_Level (fst s)" "\<lambda>_. True" "\<lambda>s. ready (fst s) (snd s)"
  "\<lambda>_ now msg _. logLine now msg" "fileAdds T" fileGoes "fileMayGo T" for T
proof unfold_locales
  fix s :: "FileLogWriter \<times> fsys" and level now msg
  show "ready (fst s) (snd s) \<Longrightarrow> fw_Level (fst s) < level \<Longrightarrow> file_write now msg level s = (Ok (), s)"
    by (simp add: file_write_def file_WriteMsg_def)
  show "ready (fst s) (snd s) \<Longrightarrow> level \<le> fw_Level (fst s) \<Longrightarrow>
      \<exists>s'. file_write now msg level s = (Ok (), s') \<and> ready (fst s') (snd s') \<and> fw_Level (fst s') = fw_Level (fst s) \<and>
        (\<lambda>now msg _. logLine now msg) = (\<lambda>now msg _. logLine now msg) \<and> fileAdds T s (logLine now msg) s'"
    using file_WriteMsg_adds [of "fst s" "snd s" level now msg T]
    by (auto simp: file_write_def fileAdds_def sameConfig_def)
  show "fileAdds T s [] s" by (simp add: fileAdds_def logIs_refl)
next
  fix s :: "FileLogWriter \<times> fsys" and v
  show "ready (fst s) (snd s) \<Longrightarrow> fileMayGo T v s \<Longrightarrow>
      ready (fst (fileGoes v s)) (snd (fileGoes v s)) \<and> fw_Level (fst (fileGoes v s)) = fw_Level (fst s) \<and>
      (\<lambda>now msg _. logLine now msg) = (\<lambda>now msg _. logLine now msg) \<and> fileAdds T s [] (fileGoes v s)"
    using logIs_visit visitOld_ready by (simp add: fileGoes_def fileMayGo_def fileAdds_def)
next
  show "fileAdds T s a t \<Longrightarrow> fileAdds T t b u \<Longrightarrow> fileAdds T s (a @ b) u" for s a t b u
    using logIs_trans [of T "fst s" "snd s" "fileData (snd s) (fw_Filename (fst s)) @ a" "snd t" b "snd u"]
      logIs_cong [of "fst t" "fst s" T]
    by (simp add: fileAdds_def)
qed

definition healthy :: "(moment \<times> byte list \<times> int) list \<Rightarrow> call list" where
  "healthy = map (\<lambda>(now, msg, level). (now, noFaults, msg, level))"

text \<open>The life of a file: messages, without errors of the system, and the visits of the goroutines.\<close>

datatype file_event = Message moment "byte list" int | Visit int "byte list"

fun fileRun :: "file_event list \<Rightarrow> FileLogWriter \<Rightarrow> fsys \<Rightarrow> FileLogWriter \<times> fsys" where
  "fileRun [] w fs = (w, fs)"
| "fileRun (Message now msg level # es) w fs =
     (case file_WriteMsg now noFaults msg level w fs of (_, w, fs) \<Rightarrow> fileRun es w fs)"
| "fileRun (Visit now p # es) w fs = fileRun es w (visitOld now p w fs)"

text \<open>No visit is later than \<open>T\<close>, and none comes to the current file when that is too old.\<close>

fun spared :: "int \<Rightarrow> file_event list \<Rightarrow> FileLogWriter \<Rightarrow> fsys \<Rightarrow> bool" where
  "spared T [] w fs = True"
| "spared T (Message now msg level # es) w fs =
     (case file_WriteMsg now noFaults msg level w fs of (_, w, fs) \<Rightarrow> spared T es w fs)"
| "spared T (Visit now p # es) w fs = (sparesLog T now p w fs \<and> spared T es w (visitOld now p w fs))"

text \<open>What the messages that pass the writer's level add to the log.\<close>

fun fileLines :: "int \<Rightarrow> file_event list \<Rightarrow> byte list" where
  "fileLines maxLevel [] = []"
| "fileLines maxLevel (Message now msg level # es) = (if level \<le> maxLevel then logLine now msg else []) @ fileLines maxLevel es"
| "fileLines maxLevel (Visit now p # es) = fileLines maxLevel es"

fun fileEvent :: "file_event \<Rightarrow> (int \<times> byte list) + moment \<times> byte list \<times> int" where
  "fileEvent (Message now msg level) = Inr (now, msg, level)"
| "fileEvent (Visit now p) = Inl (now, p)"

lemma fileRun_runAll: "fileRun es w fs = file_log.runAll (map fileEvent es) (w, fs)"
proof (induction es arbitrary: w fs)
  case (Cons e es)
  then show ?case
    by (cases e) (auto simp: file_simps split: prod.split)
qed simp

lemma spared_mayRun: "spared T es w fs = file_log.mayRun T (map fileEvent es) (w, fs)"
proof (induction es arbitrary: w fs)
  case (Cons e es)
  then show ?case
    by (cases e) (auto simp: file_simps split: prod.split)
qed simp

lemma fileLines_logged: "concat (map (file_log.logged s) (rights (map fileEvent es))) = fileLines (fw_Level (fst s)) es"
proof (induction es)
  case (Cons e es)
  then show ?case by (cases e) (simp_all add: file_log.logged_def)
qed simp

lemma fileRun_complete:
  assumes "ready w fs" and "spared T es w fs"
  shows "\<exists>w' fs'. fileRun es w fs = (w', fs') \<and>
    logIs T w fs (fileData fs (fw_Filename w) @ fileLines (fw_Level w) es) fs'"
  using file_log.runAll_adds [of "(w, fs)" T "map fileEvent es"] assms
  by (cases "file_log.runAll (map fileEvent es) (w, fs)")
    (simp add: fileRun_runAll spared_mayRun fileAdds_def fileLines_logged)

text \<open>Visits that are not to the current file spare it.\<close>

lemma sameConfig_WriteMsg: "ready w fs \<Longrightarrow> file_WriteMsg now noFaults msg level w fs = (r, w', fs') \<Longrightarrow>
    ready w' fs' \<and> fw_Filename w' = fw_Filename w"
  using file_WriteMsg_adds [of w fs level now msg 0] by (cases "level \<le> fw_Level w") (auto simp: file_WriteMsg_def sameConfig_def)

fun otherVisit :: "int \<Rightarrow> byte list \<Rightarrow> file_event \<Rightarrow> bool" where
  "otherVisit T p (Message now msg level) = True"
| "otherVisit T p (Visit now q) = (now \<le> T \<and> q \<noteq> p)"

lemma spared_others:
  assumes "ready w fs" and "list_all (otherVisit T (fw_Filename w)) es"
  shows "spared T es w fs"
  using assms
proof (induction es arbitrary: w fs)
  case (Cons e es)
  show ?case
  proof (cases e)
    case (Message now msg level)
    obtain r w' fs' where m: "file_WriteMsg now noFaults msg level w fs = (r, w', fs')" by (metis prod_cases3)
    from sameConfig_WriteMsg [OF Cons.prems(1) m] Cons.IH [of w' fs'] Cons.prems(2) Message m show ?thesis by simp
  next
    case (Visit now p)
    with Cons.prems have "sparesLog T now p w fs" by (simp add: sparesLog_def)
    with Cons.IH [OF visitOld_ready [OF Cons.prems(1) this]] Cons.prems(2) Visit show ?thesis by simp
  qed
qed simp

lemma createLogFile_ok:
  assumes "createLogFile now flt w fs = (Ok fd, fs')"
  shows "fd = OpenFd (fw_Filename w) \<and> fs' (fw_Filename w) \<noteq> None \<and> fileData fs' (fw_Filename w) = fileData fs (fw_Filename w) \<and>
    insert (fw_Filename w) (dom fs') = insert (fw_Filename w) (dom fs) \<and> fs' |` (- {fw_Filename w}) = fs |` (- {fw_Filename w})"
  using assms by (auto simp: createLogFile_def fileData_def restrict_map_def split: option.splits if_splits)

lemma initFd_frame: "initFd now flt w fs = (r, w') \<Longrightarrow> fw_fd w' = fw_fd w \<and> sameConfig w w'"
  by (auto simp: initFd_def lines_def Let_def sameConfig_def split: fdesc.splits option.splits if_splits)

lemma initFd_counts:
  assumes "initFd now flt w fs = (Ok (), w')" and "fw_fd w = OpenFd p"
  shows "fw_curlines w' = newlines (fileData fs p) \<and> fw_cursize w' = int (length (fileData fs p))"
  using assms
  by (auto simp: initFd_def lines_def Let_def fileData_def newlines_def split: option.splits if_splits)

text \<open>The counters say what is in the file; the size may be overstated.\<close>

definition counts :: "FileLogWriter \<Rightarrow> fsys \<Rightarrow> bool" where
  "counts w fs \<longleftrightarrow> fw_curlines w = newlines (fileData fs (fw_Filename w)) \<and>
     int (length (fileData fs (fw_Filename w))) \<le> fw_cursize w"

lemma startLogger_ok:
  assumes "startLogger now flt w fs = (Ok (), w', fs')"
  shows "ready w' fs' \<and> counts w' fs' \<and> sameConfig w w' \<and> fileData fs' (fw_Filename w) = fileData fs (fw_Filename w) \<and>
    insert (fw_Filename w) (dom fs') = insert (fw_Filename w) (dom fs) \<and> fs' |` (- {fw_Filename w}) = fs |` (- {fw_Filename w})"
proof -
  from assms obtain fd where c: "createLogFile now flt w fs = (Ok fd, fs')" and i: "initFd now flt (w\<lparr>fw_fd := fd\<rparr>) fs' = (Ok (), w')"
    by (auto simp: startLogger_def split: prod.splits res.splits)
  from createLogFile_ok [OF c] initFd_frame [OF i] initFd_counts [OF i, of "fw_Filename w"] show ?thesis
    by (auto simp: ready_def counts_def sameConfig_def)
qed

lemma restrict_other: "fs' |` (- A) = fs |` (- A) \<Longrightarrow> q \<notin> A \<Longrightarrow> fs' q = fs q"
  by (metis ComplI restrict_in)

lemma file_Init_ok:
  assumes "file_Init j now flt w0 fs0 = (Ok (), w, fs)"
  shows "ready w fs \<and> counts w fs \<and> fileData fs (fw_Filename w) = fileData fs0 (fw_Filename w) \<and>
    insert (fw_Filename w) (dom fs) = insert (fw_Filename w) (dom fs0) \<and> fs |` (- {fw_Filename w}) = fs0 |` (- {fw_Filename w})"
proof -
  from assms obtain w1 where s: "startLogger now flt w1 fs0 = (Ok (), w, fs)"
    by (auto simp: file_Init_def split: option.splits prod.splits if_splits)
  from startLogger_ok [OF s] show ?thesis by (auto simp: sameConfig_def)
qed


definition someMoment :: moment where
  "someMoment = \<lparr>now_day = 6, now_unix = 1475712000, now_date = str ''2016-10-06'', now_stamp = str ''2016/10/06 00:00:00 ''\<rparr>"

definition aLog :: FileLogWriter where
  "aLog = NewFileWriter\<lparr>fw_Filename := [0x61], fw_Maxlines := 1, fw_opendate := 6, fw_fd := OpenFd [0x61]\<rparr>"

definition aLogFile :: fsys where
  "aLogFile = [[0x61] \<mapsto> \<lparr>f_data = [], f_mtime = 1475712000\<rparr>]"

definition aLogConfig :: "byte list" where
  "aLogConfig = str ''{\"filename\": \"a\", \"MaxLines\": 1}''"

lemma aLog_Init: "file_Init aLogConfig someMoment noFaults NewFileWriter Map.empty = (Ok (), aLog, aLogFile)"
proof -
  have "parseJson aLogConfig = Some (JObj [(str ''filename'', JStr [0x61]), (str ''MaxLines'', JNum (Some 1))])" by code_simp
  then have "Unmarshal fileFields aLogConfig NewFileWriter = (True, NewFileWriter\<lparr>fw_Filename := [0x61], fw_Maxlines := 1\<rparr>)"
    by (simp add: Unmarshal_def decodeKey_def fileFields_def field_defs EqualFold_def lowerByte_def str_def)
  then show ?thesis
    by (simp add: file_Init_def NewFileWriter_def startLogger_def createLogFile_def initFd_def noFaults_def
        someMoment_def aLog_def aLogFile_def)
qed

text \<open>Three messages make three files; eight days later the first of them is visited and removed.\<close>

definition threeFiles :: "file_event list" where
  "threeFiles =
     [Message someMoment [1] 3, Message someMoment [2] 9, Message someMoment [3] 7, Message someMoment [4] 7,
      Visit (1475712000 + 8 * 86400) (rotName someMoment aLog 1)]"


section \<open>Bounds\<close>

lemma newlines_append: "newlines (a @ b) = newlines a + newlines b"
  by (simp add: newlines_def)

lemma newlines_logLine: "newlines (logLine now msg) = newlines (now_stamp now) + newlines msg + 1"
  by (simp add: logLine_def newlines_append) (simp add: newlines_def)

lemma length_logLine: "length (logLine now msg) = length (now_stamp now) + length msg + 1"
  by (simp add: logLine_def)

lemma fileData_upd [simp]: "fileData (fs(p \<mapsto> f)) p = f_data f"
  by (simp add: fileData_def)

text \<open>The time stamp has the twenty characters of \<^verbatim>\<open>2006/01/02 15:04:05\<close> and a space.\<close>

definition goodStamp :: "moment \<Rightarrow> bool" where
  "goodStamp now \<longleftrightarrow> length (now_stamp now) = 20 \<and> newlines (now_stamp now) = 0"

text \<open>C30: the limits hold. As long as messages have no line breaks and a free name is left, the counters of the
  writer say what is in the file (the size with three bytes too many for each message), a file never has
  more lines than \<^verbatim>\<open>maxlines\<close>, and it goes beyond \<^verbatim>\<open>maxsize\<close> by less than its last line.\<close>

theorem log_bounds:
  assumes "ready w fs" and "counts w fs" and "fw_Rotate w" and "0 < fw_Maxlines w" and "0 < fw_Maxsize w"
    and "level \<le> fw_Level w" and "freeName now w fs = Some p" and "newlines msg = 0" and "goodStamp now"
    and "newlines (fileData fs (fw_Filename w)) \<le> fw_Maxlines w"
  shows "\<exists>w' fs'. file_WriteMsg now noFaults msg level w fs = (Ok (), w', fs') \<and> ready w' fs' \<and> counts w' fs' \<and>
    newlines (fileData fs' (fw_Filename w')) \<le> fw_Maxlines w' \<and>
    int (length (fileData fs' (fw_Filename w'))) < fw_Maxsize w' + int (length (logLine now msg))"
proof -
  obtain f where f: "fs (fw_Filename w) = Some f" using assms(1) by (auto simp: ready_def)
  have d: "fileData fs (fw_Filename w) = f_data f" by (simp add: f fileData_def)
  have g: "length (now_stamp now) = 20" "newlines (now_stamp now) = 0" using assms(9) by (simp_all add: goodStamp_def)
  have l: "int (length (logLine now msg)) = 21 + int (length msg)" "newlines (logLine now msg) = 1"
    using g assms(8) by (simp_all add: length_logLine newlines_logLine)
  have c: "fw_curlines w = newlines (f_data f)" "int (length (f_data f)) \<le> fw_cursize w"
    using assms(2) by (simp_all add: counts_def d)
  show ?thesis
  proof (cases rule: WriteMsg_cases [OF assms(1,6) f, of now msg])
    case (1 w')
    have k: "fw_Filename w' = fw_Filename w" "fw_Maxlines w' = fw_Maxlines w" "fw_Maxsize w' = fw_Maxsize w"
      using 1(3) by (simp_all add: sameConfig_def)
    have nd: "\<not> due now w" "fw_curlines w' = fw_curlines w + 1" "fw_cursize w' = fw_cursize w + (24 + int (length msg))"
      using 1(4) assms(7) by auto
    have lim: "fw_curlines w < fw_Maxlines w" "fw_cursize w < fw_Maxsize w" using nd(1) assms(3-5) by (auto simp: due_def)
    show ?thesis
      using 1(1,2) assms(1) k nd lim c l
      by (auto simp: ready_def counts_def newlines_append)
  next
    case (2 w' q)
    have k: "fw_Filename w' = fw_Filename w" "fw_Maxlines w' = fw_Maxlines w" "fw_Maxsize w' = fw_Maxsize w"
      using 2(4) by (simp_all add: sameConfig_def)
    let ?fs = "fs(q \<mapsto> f, fw_Filename w \<mapsto> \<lparr>f_data = logLine now msg, f_mtime = now_unix now\<rparr>)"
    have fd: "fileData ?fs (fw_Filename w') = logLine now msg" by (simp add: fileData_def k(1))
    have "ready w' ?fs" using 2(3) assms(1) k(1) by (simp add: ready_def)
    moreover have "counts w' ?fs" using 2(5,6) l by (simp only: counts_def fd) simp
    moreover have "newlines (logLine now msg) \<le> fw_Maxlines w'" using k(2) l(2) assms(4) by simp
    moreover have "int (length (logLine now msg)) < fw_Maxsize w' + int (length (logLine now msg))" using k(3) assms(5) by simp
    ultimately show ?thesis using 2(1) fd by metis
  qed
qed

lemma freeName_first: "fs (rotName now w 1) = None \<Longrightarrow> freeName now w fs = Some (rotName now w 1)"
proof -
  assume free: "fs (rotName now w 1) = None"
  have "[1..<1000::nat] = 1 # [Suc 1..<1000]" by (rule upt_conv_Cons) simp
  then show ?thesis unfolding freeName_def by (simp only: list.map find.simps free if_True simp_thms)
qed

theorem log_bounds_witness:
  "\<exists>w' fs'. file_WriteMsg someMoment noFaults [1, 2] 3 aLog aLogFile = (Ok (), w', fs') \<and> ready w' fs' \<and> counts w' fs' \<and>
    newlines (fileData fs' (fw_Filename w')) \<le> fw_Maxlines w' \<and>
    int (length (fileData fs' (fw_Filename w'))) < fw_Maxsize w' + int (length (logLine someMoment [1, 2]))"
proof (rule log_bounds)
  show "freeName someMoment aLog aLogFile = Some (rotName someMoment aLog 1)"
    by (rule freeName_first) (simp add: aLogFile_def rotName_def aLog_def)
  show "goodStamp someMoment" by (simp add: goodStamp_def someMoment_def newlines_def str_def)
qed (simp_all add: aLog_def aLogFile_def ready_def counts_def NewFileWriter_def newlines_def fileData_def LevelTrace_def)

section \<open>A rotation that fails\<close>

text \<open>The old descriptor is closed before anything else can fail, and without the file no rotation opens a
  new one.\<close>

definition dead :: "FileLogWriter \<Rightarrow> fsys \<Rightarrow> bool" where
  "dead w fs \<longleftrightarrow> fs (fw_Filename w) = None \<and> (case fw_fd w of OpenFd p \<Rightarrow> p = fw_Filename w | _ \<Rightarrow> True)"

lemma dead_WriteMsg:
  assumes "dead w fs"
  shows "\<exists>w'. file_WriteMsg now flt msg level w fs = (Ok (), w', fs) \<and> dead w' fs"
proof -
  have "DoRotate now flt w fs = (Ok (), w, fs)" using assms by (simp add: DoRotate_def dead_def)
  then show ?thesis
    using assms
    by (cases "due now w") (auto simp: file_WriteMsg_def docheck_due writeLine_def dead_def bump_def Let_def split: fdesc.splits)
qed

lemma dead_stays: "dead w fs \<Longrightarrow> \<exists>w'. writeCalls cs w fs = (w', fs) \<and> dead w' fs"
proof (induction cs arbitrary: w)
  case (Cons c cs)
  obtain now flt msg level where c: "c = (now, flt, msg, level)" by (cases c)
  from dead_WriteMsg [OF Cons.prems, of now flt msg level] Cons.IH show ?case by (auto simp: c)
qed simp

lemma dead_writeCalls: "dead w fs \<Longrightarrow> snd (writeCalls cs w fs) = fs"
  using dead_stays [of w fs cs] by auto

text \<open>A goroutine that comes to the current file when that is too old, as it is within a second when \<^verbatim>\<open>maxdays\<close> is 0,
  removes it. The descriptor is then that of a file without a name, and all later messages are lost.\<close>

lemma sweep_kills:
  assumes "ready w fs" and "fw_sweeping w" and "wasOld now w fs (fw_Filename w)"
  shows "visitOld now (fw_Filename w) w fs = fs(fw_Filename w := None) \<and>
    snd (writeCalls cs w (fs(fw_Filename w := None))) = fs(fw_Filename w := None)"
proof -
  have "dead w (fs(fw_Filename w := None))" using assms(1) by (simp add: dead_def ready_def)
  from dead_writeCalls [OF this] show ?thesis using assms(2,3) by (auto simp: visitOld_def wasOld_def split: option.splits)
qed

text \<open>C31: an error in a rotation loses messages without a word. When the rename fails, the message is in no file,
  and \<^verbatim>\<open>WriteMsg\<close> returns no error. When the rename succeeds and the new file cannot be opened, the log is
  dead: this message and all later ones are lost, even when the system is well again, because
  \<^verbatim>\<open>DoRotate\<close> does nothing without the file and nothing else opens it.\<close>

theorem rotation_failure:
  assumes "ready w fs" and "due now w" and "freeName now w fs = Some p" and "level \<le> fw_Level w"
  shows "snd (snd (file_WriteMsg now (noFaults\<lparr>e_rename := Some n\<rparr>) msg level w fs)) = fs \<and>
    fst (file_WriteMsg now (noFaults\<lparr>e_rename := Some n\<rparr>) msg level w fs) = Ok () \<and>
    (\<exists>w'. file_WriteMsg now (noFaults\<lparr>e_open := Some n\<rparr>) msg level w fs =
        (Ok (), w', fs(fw_Filename w := None, p := fs (fw_Filename w))) \<and>
      (\<forall>cs. snd (writeCalls (healthy cs) w' (fs(fw_Filename w := None, p := fs (fw_Filename w)))) =
        fs(fw_Filename w := None, p := fs (fw_Filename w))))"
proof -
  obtain f where f: "fs (fw_Filename w) = Some f" and fd: "fw_fd w = OpenFd (fw_Filename w)" using assms(1) by (auto simp: ready_def)
  have p: "p \<noteq> fw_Filename w" using freeName_free [OF assms(3)] by simp
  let ?w = "w\<lparr>fw_fd := ClosedFd\<rparr>" and ?fs = "fs(fw_Filename w := None, p := fs (fw_Filename w))"
  have a: "DoRotate now (noFaults\<lparr>e_rename := Some n\<rparr>) w fs = (Err (OsError n), ?w, fs)"
    using f fd assms(3) by (simp add: DoRotate_def)
  have "DoRotate now (noFaults\<lparr>e_open := Some n\<rparr>) w fs = (Err (OsError n), ?w, ?fs)"
    using f fd assms(3) by (simp add: DoRotate_def startLogger_def createLogFile_def noFaults_def)
  then have b: "file_WriteMsg now (noFaults\<lparr>e_open := Some n\<rparr>) msg level w fs = (Ok (), ?w, ?fs)"
    using assms(2,4) by (simp add: file_WriteMsg_def docheck_due writeLine_def)
  have "dead ?w ?fs" using p by (simp add: dead_def)
  then have "\<forall>cs. snd (writeCalls (healthy cs) ?w ?fs) = ?fs" using dead_writeCalls by blast
  with a b show ?thesis using assms(2,4) by (simp add: file_WriteMsg_def docheck_due writeLine_def)
qed

theorem rotation_failure_witness:
  "snd (snd (file_WriteMsg someMoment (noFaults\<lparr>e_rename := Some 13\<rparr>) [9] 3 (aLog\<lparr>fw_curlines := 1\<rparr>) aLogFile)) = aLogFile \<and>
    fst (file_WriteMsg someMoment (noFaults\<lparr>e_rename := Some 13\<rparr>) [9] 3 (aLog\<lparr>fw_curlines := 1\<rparr>) aLogFile) = Ok () \<and>
    (\<exists>w'. file_WriteMsg someMoment (noFaults\<lparr>e_open := Some 13\<rparr>) [9] 3 (aLog\<lparr>fw_curlines := 1\<rparr>) aLogFile =
        (Ok (), w', aLogFile(fw_Filename (aLog\<lparr>fw_curlines := 1\<rparr>) := None,
          rotName someMoment (aLog\<lparr>fw_curlines := 1\<rparr>) 1 := aLogFile (fw_Filename (aLog\<lparr>fw_curlines := 1\<rparr>)))) \<and>
      (\<forall>cs. snd (writeCalls (healthy cs) w' (aLogFile(fw_Filename (aLog\<lparr>fw_curlines := 1\<rparr>) := None,
          rotName someMoment (aLog\<lparr>fw_curlines := 1\<rparr>) 1 := aLogFile (fw_Filename (aLog\<lparr>fw_curlines := 1\<rparr>))))) =
        aLogFile(fw_Filename (aLog\<lparr>fw_curlines := 1\<rparr>) := None,
          rotName someMoment (aLog\<lparr>fw_curlines := 1\<rparr>) 1 := aLogFile (fw_Filename (aLog\<lparr>fw_curlines := 1\<rparr>)))))"
proof (rule rotation_failure)
  show "freeName someMoment (aLog\<lparr>fw_curlines := 1\<rparr>) aLogFile = Some (rotName someMoment (aLog\<lparr>fw_curlines := 1\<rparr>) 1)"
    by (rule freeName_first) (simp add: aLogFile_def rotName_def aLog_def)
qed (simp_all add: aLog_def aLogFile_def ready_def due_def NewFileWriter_def LevelTrace_def)

section \<open>Old files\<close>

text \<open>What has been written within \<^verbatim>\<open>maxdays\<close> stays, and so does every file whose name does not begin with the log's;
  nothing is changed.\<close>

lemma deleteOldLog_keeps:
  assumes "fs p = Some f" and "now - 60 * 60 * 24 * fw_Maxdays w \<le> f_mtime f \<or>
    take (length (baseName (fw_Filename w))) (baseName p) \<noteq> baseName (fw_Filename w)"
  shows "deleteOldLog now w fs p = Some f"
  using assms by (auto simp: deleteOldLog_def oldLog_def)

lemma deleteOldLog_changes_nothing: "deleteOldLog now w fs p = Some f \<Longrightarrow> fs p = Some f"
  by (auto simp: deleteOldLog_def split: option.splits if_splits)

end
