(* ===== verification/Log_Logger.thy ===== *)
theory Log_Logger
  imports Log_Writers Log_File Mysql_NewErr "HOL-Library.AList"
begin

text \<open>
  \<^verbatim>\<open>log/log.go\<close> and \<^verbatim>\<open>log/init.go\<close>: the logger that hands each message to its writers, at once or through a
  channel, the methods of the levels, the registry of writers, and the package's functions that everything
  else in the program calls.
\<close>

section \<open>Writers\<close>

text \<open>The three kinds that \<^verbatim>\<open>init\<close> registers. A file writer comes with the files of the system.\<close>

datatype kind = ConsoleKind | FileKind | NsqKind

datatype writer = Console ConsoleWriter | File FileLogWriter fsys | Nsq NsqLogWriter

text \<open>What surrounds one call: the time, the errors of the system, the platform, and whether a post of the
  queue's writer succeeds.\<close>

record env =
  en_now :: moment
  en_flt :: faults
  en_windows :: bool
  en_post :: bool

fun newWriter :: "kind \<Rightarrow> fsys \<Rightarrow> writer" where
  "newWriter ConsoleKind fs = Console NewConsole"
| "newWriter FileKind fs = File NewFileWriter fs"
| "newWriter NsqKind fs = Nsq NewNsqWriter"

fun writer_Init :: "env \<Rightarrow> byte list \<Rightarrow> writer \<Rightarrow> unit res \<times> writer" where
  "writer_Init e config (Console c) = (case console_Init config c of (r, c) \<Rightarrow> (r, Console c))"
| "writer_Init e config (File w fs) =
     (case file_Init config (en_now e) (en_flt e) w fs of (r, w, fs) \<Rightarrow> (r, File w fs))"
| "writer_Init e config (Nsq c) = (case nsq_Init config c of (r, c) \<Rightarrow> (r, Nsq c))"

fun writer_WriteMsg :: "env \<Rightarrow> byte list \<Rightarrow> int \<Rightarrow> writer \<Rightarrow> unit res \<times> writer" where
  "writer_WriteMsg e msg level (Console c) =
     (case console_WriteMsg (en_windows e) (en_now e) msg level c of (r, c) \<Rightarrow> (r, Console c))"
| "writer_WriteMsg e msg level (File w fs) =
     (case file_WriteMsg (en_now e) (en_flt e) msg level w fs of (r, w, fs) \<Rightarrow> (r, File w fs))"
| "writer_WriteMsg e msg level (Nsq c) =
     (case nsq_WriteMsg (en_post e) (en_now e) msg level c of (r, c) \<Rightarrow> (r, Nsq c))"

fun writer_Destroy :: "writer \<Rightarrow> writer" where
  "writer_Destroy (Console c) = Console c"
| "writer_Destroy (File w fs) = File (file_Destroy w) fs"
| "writer_Destroy (Nsq c) = Nsq c"

section \<open>The logger\<close>

text \<open>\<open>Register\<close> panics on nil and on a second registration of a name.\<close>

type_synonym adapters = "byte list \<rightharpoonup> kind"

definition Register :: "byte list \<Rightarrow> kind option \<Rightarrow> adapters \<Rightarrow> adapters res" where
  "Register name log ad =
     (case log of
        None \<Rightarrow> Panic
      | Some k \<Rightarrow> if ad name \<noteq> None then Panic else Ok (ad(name \<mapsto> k)))"

text \<open>The writers are in a map; Go goes through it in any order, the model in that of the list.\<close>

record SimpleLogger =
  sl_level :: int
  sl_enableFuncCallDepth :: bool
  sl_loggerFuncCallDepth :: int
  sl_asynchronous :: bool
  sl_msg :: "(int \<times> byte list) list"
  sl_cap :: nat
  sl_outputs :: "(byte list \<times> writer) list"

definition NewLogger :: "int \<Rightarrow> SimpleLogger res" where
  "NewLogger channellen =
     (if channellen < 0 then Panic
      else Ok \<lparr>sl_level = level_iota LevelDebug, sl_enableFuncCallDepth = False, sl_loggerFuncCallDepth = 2,
        sl_asynchronous = False, sl_msg = [], sl_cap = nat channellen, sl_outputs = []\<rparr>)"

definition Async :: "SimpleLogger \<Rightarrow> SimpleLogger" where
  "Async bl = bl\<lparr>sl_asynchronous := True\<rparr>"

text \<open>The new writer takes its place in the map before the error of \<open>Init\<close> is looked at.\<close>

definition SetLogger :: "env \<Rightarrow> adapters \<Rightarrow> fsys \<Rightarrow> byte list \<Rightarrow> byte list \<Rightarrow> SimpleLogger \<Rightarrow> unit res \<times> SimpleLogger" where
  "SetLogger e ad fs name config bl =
     (case ad name of
        None \<Rightarrow> (Err (UnknownAdapter name), bl)
      | Some k \<Rightarrow>
          (case writer_Init e config (newWriter k fs) of
             (r, lg) \<Rightarrow> (r, bl\<lparr>sl_outputs := AList.update name lg (sl_outputs bl)\<rparr>)))"

definition DelLogger :: "byte list \<Rightarrow> SimpleLogger \<Rightarrow> unit res \<times> SimpleLogger" where
  "DelLogger name bl =
     (case map_of (sl_outputs bl) name of
        Some lg \<Rightarrow> (Ok (), bl\<lparr>sl_outputs := AList.delete name (sl_outputs bl)\<rparr>)
      | None \<Rightarrow> (Err (UnknownAdapter name), bl))"

definition SetLevel :: "int \<Rightarrow> SimpleLogger \<Rightarrow> SimpleLogger" where
  "SetLevel l bl = bl\<lparr>sl_level := l\<rparr>"

definition SetLogFuncCallDepth :: "int \<Rightarrow> SimpleLogger \<Rightarrow> SimpleLogger" where
  "SetLogFuncCallDepth d bl = bl\<lparr>sl_loggerFuncCallDepth := d\<rparr>"

definition EnableFuncCallDepth :: "bool \<Rightarrow> SimpleLogger \<Rightarrow> SimpleLogger" where
  "EnableFuncCallDepth b bl = bl\<lparr>sl_enableFuncCallDepth := b\<rparr>"

text \<open>What \<^verbatim>\<open>runtime.Caller\<close> finds at the depth: a file and a line, or nothing; and the last part of a path.\<close>

type_synonym caller_info = "int \<Rightarrow> (byte list \<times> int) option"

definition fileOf :: "byte list \<Rightarrow> byte list" where
  "fileOf p = rev (takeWhile (\<lambda>c. c \<noteq> 0x2f) (rev p))"

definition messageText :: "caller_info \<Rightarrow> byte list \<Rightarrow> SimpleLogger \<Rightarrow> byte list" where
  "messageText caller msg bl =
     (if sl_enableFuncCallDepth bl then
        (case (case caller (sl_loggerFuncCallDepth bl) of Some fl \<Rightarrow> fl | None \<Rightarrow> (str ''???'', 0)) of
           (file', line') \<Rightarrow>
             Sprintf ''[%s:%d] %s'' [StrArg (fileOf file'), IntArg ''int'' line', StrArg msg])
      else msg)"

text \<open>The writers one after the other: the synchronous loop stops at an error, the one behind the channel
  goes on.\<close>

fun deliver :: "env \<Rightarrow> byte list \<Rightarrow> int \<Rightarrow> (byte list \<times> writer) list \<Rightarrow> unit res \<times> (byte list \<times> writer) list" where
  "deliver e msg level [] = (Ok (), [])"
| "deliver e msg level ((name, l) # ls) =
     (case writer_WriteMsg e msg level l of
        (Ok _, l) \<Rightarrow> (case deliver e msg level ls of (r, ls) \<Rightarrow> (r, (name, l) # ls))
      | (r, l) \<Rightarrow> (r, (name, l) # ls))"

fun deliverOn :: "env \<Rightarrow> byte list \<Rightarrow> int \<Rightarrow> (byte list \<times> writer) list \<Rightarrow> unit res \<times> (byte list \<times> writer) list" where
  "deliverOn e msg level [] = (Ok (), [])"
| "deliverOn e msg level ((name, l) # ls) =
     (case writer_WriteMsg e msg level l of
        (Panic, l) \<Rightarrow> (Panic, (name, l) # ls)
      | (Spin, l) \<Rightarrow> (Spin, (name, l) # ls)
      | (_, l) \<Rightarrow> (case deliverOn e msg level ls of (r, ls) \<Rightarrow> (r, (name, l) # ls)))"

text \<open>\<open>writerMsg\<close> run by a goroutine alone. A send to a channel without room does not return before the
  goroutine \<open>startLogger\<close> has taken a message, which \<^verbatim>\<open>Spin\<close> stands for; the steps of \<open>Log_Async\<close> let the two
  run together.\<close>

definition writerMsg :: "env \<Rightarrow> caller_info \<Rightarrow> int \<Rightarrow> byte list \<Rightarrow> SimpleLogger \<Rightarrow> unit res \<times> SimpleLogger" where
  "writerMsg e caller loglevel msg bl =
     (let lm = (loglevel, messageText caller msg bl) in
      if sl_asynchronous bl then
        (if length (sl_msg bl) < sl_cap bl then (Ok (), bl\<lparr>sl_msg := sl_msg bl @ [lm]\<rparr>) else (Spin, bl))
      else (case deliver e (snd lm) (fst lm) (sl_outputs bl) of (r, ls) \<Rightarrow> (r, bl\<lparr>sl_outputs := ls\<rparr>)))"

text \<open>The methods of the levels: each with its level and its letter, and \<^verbatim>\<open>Warn\<close>, \<^verbatim>\<open>Info\<close>, \<^verbatim>\<open>Trace\<close> as aliases. They drop
  the error of \<open>writerMsg\<close>.\<close>

datatype log_method =
    MEmergency | MAlert | MCritical | MError | MWarning | MNotice | MInformational | MDebug | MWarn | MInfo | MTrace

definition ignoreErr :: "unit res \<times> SimpleLogger \<Rightarrow> unit res \<times> SimpleLogger" where
  "ignoreErr rs = (case rs of (Err e, s) \<Rightarrow> (Ok (), s) | _ \<Rightarrow> rs)"

definition atLevel ::
  "level \<Rightarrow> string \<Rightarrow> env \<Rightarrow> caller_info \<Rightarrow> string \<Rightarrow> fmt_arg list \<Rightarrow> SimpleLogger \<Rightarrow> unit res \<times> SimpleLogger" where
  "atLevel l tag e caller format v bl =
     (if sl_level bl < level_iota l then (Ok (), bl)
      else (let msg = Sprintf (tag @ format) v in ignoreErr (writerMsg e caller (level_iota l) msg bl)))"

fun logger_method ::
  "log_method \<Rightarrow> env \<Rightarrow> caller_info \<Rightarrow> string \<Rightarrow> fmt_arg list \<Rightarrow> SimpleLogger \<Rightarrow> unit res \<times> SimpleLogger" where
  "logger_method MEmergency = atLevel LevelEmergency ''[M] ''"
| "logger_method MAlert = atLevel LevelAlert ''[A] ''"
| "logger_method MCritical = atLevel LevelCritical ''[C] ''"
| "logger_method MError = atLevel LevelError ''[E] ''"
| "logger_method MWarning = atLevel LevelWarning ''[W] ''"
| "logger_method MNotice = atLevel LevelNotice ''[N] ''"
| "logger_method MInformational = atLevel LevelInformational ''[I] ''"
| "logger_method MDebug = atLevel LevelDebug ''[D] ''"
| "logger_method MWarn = atLevel LevelWarning ''[W] ''"
| "logger_method MInfo = atLevel LevelInformational ''[I] ''"
| "logger_method MTrace = atLevel LevelDebug ''[D] ''"

text \<open>\<open>Close\<close> writes what is in the channel, and then flushes (which changes nothing here) and destroys the
  writers. This is the function when nothing else runs, as for a synchronous logger; with the goroutine
  beside it \<open>Log_Async\<close> has its steps.\<close>

fun drain :: "env \<Rightarrow> (int \<times> byte list) list \<Rightarrow> (byte list \<times> writer) list \<Rightarrow> unit res \<times> (byte list \<times> writer) list" where
  "drain e [] ls = (Ok (), ls)"
| "drain e ((level, msg) # ms) ls = bindS (deliverOn e msg level ls) (\<lambda>_ ls. drain e ms ls)"

definition logger_Close :: "env \<Rightarrow> SimpleLogger \<Rightarrow> unit res \<times> SimpleLogger" where
  "logger_Close e bl =
     (case drain e (sl_msg bl) (sl_outputs bl) of
        (Ok _, ls) \<Rightarrow> (Ok (), bl\<lparr>sl_msg := [], sl_outputs := map (apsnd writer_Destroy) ls\<rparr>)
      | (r, ls) \<Rightarrow> (r, bl\<lparr>sl_outputs := ls\<rparr>))"

section \<open>The package's functions\<close>

text \<open>\<^verbatim>\<open>log.Error(v...)\<close> and the others hand the text of their operands to the method as its format; \<^verbatim>\<open>log.Errorf\<close> and the
  others hand on the format and the arguments.\<close>

definition chars :: "byte list \<Rightarrow> string" where
  "chars bs = map (\<lambda>b. char_of (unat b)) bs"

definition logPrint :: "log_method \<Rightarrow> env \<Rightarrow> caller_info \<Rightarrow> fmt_arg list \<Rightarrow> SimpleLogger \<Rightarrow> unit res \<times> SimpleLogger" where
  "logPrint m e caller v bl = logger_method m e caller (chars (Sprint v)) [] bl"

definition logPrintf ::
  "log_method \<Rightarrow> env \<Rightarrow> caller_info \<Rightarrow> string \<Rightarrow> fmt_arg list \<Rightarrow> SimpleLogger \<Rightarrow> unit res \<times> SimpleLogger" where
  "logPrintf m e caller format v bl = logger_method m e caller format v bl"

text \<open>\<^verbatim>\<open>log.Init\<close> writes the configuration of a file writer from its arguments, as they are, and drops the error of
  \<open>SetLogger\<close>.\<close>

definition initConfig :: "byte list \<Rightarrow> int \<Rightarrow> byte list" where
  "initConfig filename level = Sprintf ''{\"filename\":\"%v\", \"level\":%v}'' [StrArg filename, IntArg ''int'' level]"

definition log_Init :: "env \<Rightarrow> adapters \<Rightarrow> fsys \<Rightarrow> byte list \<Rightarrow> int \<Rightarrow> SimpleLogger \<Rightarrow> SimpleLogger" where
  "log_Init e ad fs filename level bl = snd (SetLogger e ad fs (str ''file'') (initConfig filename level) bl)"

definition GetLogFuncCallDepth :: "SimpleLogger \<Rightarrow> int" where
  "GetLogFuncCallDepth bl = sl_loggerFuncCallDepth bl"

definition SetLogFuncCall :: "bool \<Rightarrow> SimpleLogger \<Rightarrow> SimpleLogger" where
  "SetLogFuncCall b bl = SetLogFuncCallDepth 3 (EnableFuncCallDepth b bl)"

definition pkg_init :: "env \<Rightarrow> fsys \<Rightarrow> (adapters \<times> SimpleLogger) res" where
  "pkg_init e fs =
     bindR (Register (str ''console'') (Some ConsoleKind) Map.empty) (\<lambda>ad.
     bindR (Register (str ''file'') (Some FileKind) ad) (\<lambda>ad.
     bindR (Register (str ''nsq'') (Some NsqKind) ad) (\<lambda>ad.
     bindR (NewLogger 10000) (\<lambda>bl.
       Ok (ad, snd (SetLogger e ad fs (str ''console'') [] (SetLogFuncCall True bl)))))))"

section \<open>Writers in good order\<close>

definition healthyEnv :: "moment \<Rightarrow> env" where
  "healthyEnv now = \<lparr>en_now = now, en_flt = noFaults, en_windows = False, en_post = True\<rparr>"

definition writer_write :: "moment \<Rightarrow> byte list \<Rightarrow> int \<Rightarrow> writer \<Rightarrow> unit res \<times> writer" where
  "writer_write now = writer_WriteMsg (healthyEnv now)"

fun writerLevel :: "writer \<Rightarrow> int" where
  "writerLevel (Console c) = cw_Level c"
| "writerLevel (File w fs) = fw_Level w"
| "writerLevel (Nsq c) = nq_Level c"

fun writer_ok :: "writer \<Rightarrow> bool" where
  "writer_ok (Console c) = True"
| "writer_ok (File w fs) = ready w fs"
| "writer_ok (Nsq c) = (length (nq_ch c) \<le> nsqCap)"

fun writerLine :: "writer \<Rightarrow> moment \<Rightarrow> byte list \<Rightarrow> int \<Rightarrow> byte list" where
  "writerLine (Console c) now msg level = logLine now ((colors ! nat level) msg)"
| "writerLine (File w fs) now msg level = logLine now msg"
| "writerLine (Nsq c) now msg level = nsqStamp now @ (colors ! nat level) (nq_Prefix c @ str '' '' @ msg)"

fun writerAdds :: "int \<Rightarrow> writer \<Rightarrow> byte list \<Rightarrow> writer \<Rightarrow> bool" where
  "writerAdds T (Console c) text (Console c') = consoleAdds c text c'"
| "writerAdds T (File w fs) text (File w' fs') = fileAdds T (w, fs) text (w', fs')"
| "writerAdds T (Nsq c) text (Nsq c') = nsqAdds c text c'"
| "writerAdds T _ text _ = False"

text \<open>What a writer's own goroutines do: a visit to a file by one that removes old files, and a tick of the
  goroutine that posts to the queue. The system is well when the post succeeds and the visit finds the
  current file young enough.\<close>

datatype action = Sweep int "byte list" | Tick bool

fun writer_goes :: "action \<Rightarrow> writer \<Rightarrow> writer" where
  "writer_goes (Sweep now p) (File w fs) = File w (visitOld now p w fs)"
| "writer_goes (Tick post) (Nsq c) = Nsq (publish post c)"
| "writer_goes a w = w"

fun writer_mayGo :: "int \<Rightarrow> action \<Rightarrow> writer \<Rightarrow> bool" where
  "writer_mayGo T (Sweep now p) (File w fs) = sparesLog T now p w fs"
| "writer_mayGo T (Tick post) (Nsq c) = post"
| "writer_mayGo T a w = True"

text \<open>The three kinds keep the interface, so a writer of any kind does.\<close>

interpretation writer_log: LoggerInterface writer_write writerLevel levelNo writer_ok writerLine "writerAdds T"
  writer_goes "writer_mayGo T" for T
proof unfold_locales
  fix s level now msg
  assume "writer_ok s" "writerLevel s < level"
  then show "writer_write now msg level s = (Ok (), s)"
    by (cases s) (simp_all add: writer_write_def healthyEnv_def console_WriteMsg_def file_WriteMsg_def nsq_WriteMsg_def)
next
  fix s level now msg
  assume a: "writer_ok s" "levelNo level" "level \<le> writerLevel s"
  show "\<exists>s'. writer_write now msg level s = (Ok (), s') \<and> writer_ok s' \<and> writerLevel s' = writerLevel s \<and>
      writerLine s' = writerLine s \<and> writerAdds T s (writerLine s now msg level) s'"
  proof (cases s)
    case (Console c)
    with a console_log.written [of level c now msg] obtain c' where "console_WriteMsg False now msg level c = (Ok (), c')"
      "cw_Level c' = cw_Level c" "consoleAdds c (logLine now ((colors ! nat level) msg)) c'" by auto
    then show ?thesis by (intro exI [of _ "Console c'"]) (simp add: Console writer_write_def healthyEnv_def fun_eq_iff)
  next
    case (File w fs)
    with a file_WriteMsg_adds [of w fs level now msg T] obtain w' fs' where
      "file_WriteMsg now noFaults msg level w fs = (Ok (), w', fs')" "ready w' fs'" "sameConfig w w'"
      "logIs T w fs (fileData fs (fw_Filename w) @ logLine now msg) fs'" by auto
    then show ?thesis
      by (intro exI [of _ "File w' fs'"]) (simp add: File writer_write_def healthyEnv_def fun_eq_iff fileAdds_def sameConfig_def)
  next
    case (Nsq c)
    with a nsq_log.written [of c level now msg] obtain c' where "nsq_WriteMsg True now msg level c = (Ok (), c')"
      "length (nq_ch c') \<le> nsqCap" "nq_Level c' = nq_Level c"
      "(\<lambda>now msg level. nsqStamp now @ (colors ! nat level) (nq_Prefix c' @ str '' '' @ msg)) =
       (\<lambda>now msg level. nsqStamp now @ (colors ! nat level) (nq_Prefix c @ str '' '' @ msg))"
      "nsqAdds c (nsqStamp now @ (colors ! nat level) (nq_Prefix c @ str '' '' @ msg)) c'" by auto
    then show ?thesis by (intro exI [of _ "Nsq c'"]) (simp add: Nsq writer_write_def healthyEnv_def fun_eq_iff)
  qed
next
  show "writerAdds T s [] s" if "writer_ok s" for s
    using that file_log.adds_refl by (cases s) (simp_all add: consoleAdds_def nsqAdds_def)
next
  show "writerAdds T s a t \<Longrightarrow> writerAdds T t b u \<Longrightarrow> writerAdds T s (a @ b) u" for s a t b u
    using file_log.adds_trans by (cases s; cases t; cases u) (auto simp: consoleAdds_def nsqAdds_def)
next
  fix s a
  assume a: "writer_ok s" "writer_mayGo T a s"
  show "writer_ok (writer_goes a s) \<and> writerLevel (writer_goes a s) = writerLevel s \<and>
      writerLine (writer_goes a s) = writerLine s \<and> writerAdds T s [] (writer_goes a s)"
  proof (cases s)
    case (Console c)
    then show ?thesis by (cases a) (simp_all add: consoleAdds_def)
  next
    case (File w fs)
    with a file_log.background [of "(w, fs)" T] file_log.adds_refl [of "(w, fs)" T] show ?thesis
      by (cases a) (auto simp: file_simps fun_eq_iff)
  next
    case (Nsq c)
    with a nsq_log.background [of c] nsq_log.adds_refl [of c] show ?thesis by (cases a) (auto simp: fun_eq_iff)
  qed
qed

text \<open>Then the loop over the writers gives the message to each of them.\<close>

definition writeEach :: "moment \<Rightarrow> byte list \<Rightarrow> int \<Rightarrow> (byte list \<times> writer) list \<Rightarrow> (byte list \<times> writer) list" where
  "writeEach now msg level = map (apsnd (\<lambda>l. snd (writer_write now msg level l)))"

definition outputs_ok :: "(byte list \<times> writer) list \<Rightarrow> bool" where
  "outputs_ok ls \<longleftrightarrow> list_all (\<lambda>l. writer_ok (snd l)) ls"

lemma deliver_each:
  assumes "outputs_ok ls" and "levelNo level"
  shows "deliver (healthyEnv now) msg level ls = (Ok (), writeEach now msg level ls) \<and>
    deliverOn (healthyEnv now) msg level ls = (Ok (), writeEach now msg level ls) \<and>
    outputs_ok (writeEach now msg level ls)"
  using assms
proof (induction ls)
  case (Cons l ls)
  obtain name w where l: "l = (name, w)" by (cases l)
  with Cons.prems writer_log.written_or_ignored [of w level now msg] obtain w' where
    "writer_WriteMsg (healthyEnv now) msg level w = (Ok (), w')" "writer_ok w'"
    by (auto simp: outputs_ok_def writer_write_def)
  with Cons.IH Cons.prems show ?case by (auto simp: l outputs_ok_def writeEach_def writer_write_def)
qed (simp_all add: outputs_ok_def writeEach_def)

lemma levelNo_iota: "levelNo (level_iota l)"
  using level_range [of l] by (simp add: levelNo_def)

end
