(* ===== verification/Log_Run.thy ===== *)
theory Log_Run
  imports Log_Logger
begin

text \<open>
  The package \<^verbatim>\<open>log\<close> as a whole: what a sequence of calls leaves in the writers' logs, while the goroutines of
  the writers act as they will, what becomes of a text with a percent sign, and the logger that the package
  starts with. Each writer keeps the contract of \<open>LoggerInterface\<close>, so the proofs rest on the facts of
  the interpretation \<open>writer_log\<close> alone.
\<close>

section \<open>Calls\<close>

text \<open>One call of a method of the logger: when, from where, and with what.\<close>

record log_call =
  lc_method :: log_method
  lc_now :: moment
  lc_caller :: caller_info
  lc_format :: string
  lc_args :: "fmt_arg list"

fun methodLevel :: "log_method \<Rightarrow> level" where
  "methodLevel MEmergency = LevelEmergency"
| "methodLevel MAlert = LevelAlert"
| "methodLevel MCritical = LevelCritical"
| "methodLevel MError = LevelError"
| "methodLevel MWarning = LevelWarning"
| "methodLevel MNotice = LevelNotice"
| "methodLevel MInformational = LevelInformational"
| "methodLevel MDebug = LevelDebug"
| "methodLevel MWarn = LevelWarning"
| "methodLevel MInfo = LevelInformational"
| "methodLevel MTrace = LevelDebug"

fun levelTag :: "level \<Rightarrow> string" where
  "levelTag LevelEmergency = ''[M] ''"
| "levelTag LevelAlert = ''[A] ''"
| "levelTag LevelCritical = ''[C] ''"
| "levelTag LevelError = ''[E] ''"
| "levelTag LevelWarning = ''[W] ''"
| "levelTag LevelNotice = ''[N] ''"
| "levelTag LevelInformational = ''[I] ''"
| "levelTag LevelDebug = ''[D] ''"

definition log_step :: "log_call \<Rightarrow> SimpleLogger \<Rightarrow> unit res \<times> SimpleLogger" where
  "log_step c = logger_method (lc_method c) (healthyEnv (lc_now c)) (lc_caller c) (lc_format c) (lc_args c)"

fun log_run :: "log_call list \<Rightarrow> SimpleLogger \<Rightarrow> unit res \<times> SimpleLogger" where
  "log_run [] bl = (Ok (), bl)"
| "log_run (c # cs) bl = bindS (log_step c bl) (\<lambda>_ bl. log_run cs bl)"

lemma logger_method_level: "logger_method m = atLevel (methodLevel m) (levelTag (methodLevel m))"
  by (cases m) simp_all

text \<open>What should become of a call: nothing above the logger's level, else one message.\<close>

definition callText :: "SimpleLogger \<Rightarrow> log_call \<Rightarrow> byte list" where
  "callText bl c = messageText (lc_caller c) (Sprintf (levelTag (methodLevel (lc_method c)) @ lc_format c) (lc_args c)) bl"

definition passing :: "SimpleLogger \<Rightarrow> log_call list \<Rightarrow> log_call list" where
  "passing bl cs = filter (\<lambda>c. level_iota (methodLevel (lc_method c)) \<le> sl_level bl) cs"

definition messages :: "SimpleLogger \<Rightarrow> log_call list \<Rightarrow> (moment \<times> byte list \<times> int) list" where
  "messages bl cs = map (\<lambda>c. (lc_now c, callText bl c, level_iota (methodLevel (lc_method c)))) (passing bl cs)"

lemma messages_simps [simp]:
  "messages bl [] = []"
  "messages bl (c # cs) =
     (if level_iota (methodLevel (lc_method c)) \<le> sl_level bl
      then (lc_now c, callText bl c, level_iota (methodLevel (lc_method c))) # messages bl cs else messages bl cs)"
  by (simp_all add: messages_def passing_def)

text \<open>Only the writers change in a call, so what a later call writes does not depend on the earlier ones.\<close>

lemma callText_outputs [simp]:
  "callText (bl\<lparr>sl_outputs := ls\<rparr>) = callText bl"
  "callText (bl\<lparr>sl_msg := q\<rparr>) = callText bl"
  by (simp_all add: fun_eq_iff callText_def messageText_def)

lemma messages_outputs [simp]:
  "messages (bl\<lparr>sl_outputs := ls\<rparr>) cs = messages bl cs"
  "messages (bl\<lparr>sl_msg := q\<rparr>) cs = messages bl cs"
  by (simp_all add: messages_def passing_def)

lemma messages_levels: "\<forall>m \<in> set (messages bl cs). levelNo (snd (snd m))"
  by (auto simp: messages_def levelNo_iota)

section \<open>A synchronous logger\<close>

text \<open>What has become of the writers: each is still in good order, and exactly the lines of these messages have been
  added to its log. \<open>T\<close> is as for \<open>logIs\<close>.\<close>

definition keeps :: "int \<Rightarrow> byte list \<times> writer \<Rightarrow> (moment \<times> byte list \<times> int) list \<Rightarrow> byte list \<times> writer \<Rightarrow> bool" where
  "keeps T l ms l' \<longleftrightarrow> fst l' = fst l \<and> writer_ok (snd l') \<and> writerLevel (snd l') = writerLevel (snd l) \<and>
     writerLine (snd l') = writerLine (snd l) \<and> writerAdds T (snd l) (concat (map (writer_log.logged (snd l)) ms)) (snd l')"

lemma keeps_refl: "writer_ok (snd l) \<Longrightarrow> keeps T l [] l"
  using writer_log.adds_refl by (simp add: keeps_def)

lemma keeps_trans: "keeps T l ms l' \<Longrightarrow> keeps T l' ns l'' \<Longrightarrow> keeps T l (ms @ ns) l''"
  using writer_log.adds_trans [of T "snd l" _ "snd l'" _ "snd l''"] writer_log.logged_cong [of "snd l'" "snd l"]
  by (simp add: keeps_def)

lemma keeps_write:
  assumes "writer_ok w" and "levelNo level"
  shows "fst (writer_write now msg level w) = Ok () \<and> keeps T (n, w) [(now, msg, level)] (n, snd (writer_write now msg level w))"
  using writer_log.written_or_ignored [OF assms, of now msg T] by (auto simp: keeps_def)

lemma keeps_action: "writer_ok w \<Longrightarrow> writer_mayGo T a w \<Longrightarrow> keeps T (n, w) [] (n, writer_goes a w)"
  using writer_log.background [of w T a] by (simp add: keeps_def)

text \<open>What happens: calls, and actions of the goroutine of the writer with this name.\<close>

datatype log_event = LCall log_call | LAction "byte list" action

definition act :: "byte list \<Rightarrow> action \<Rightarrow> (byte list \<times> writer) list \<Rightarrow> (byte list \<times> writer) list" where
  "act name a = map (\<lambda>(n, w). (n, if n = name then writer_goes a w else w))"

fun log_event_step :: "log_event \<Rightarrow> SimpleLogger \<Rightarrow> unit res \<times> SimpleLogger" where
  "log_event_step (LCall c) bl = log_step c bl"
| "log_event_step (LAction name a) bl = (Ok (), bl\<lparr>sl_outputs := act name a (sl_outputs bl)\<rparr>)"

fun log_events :: "log_event list \<Rightarrow> SimpleLogger \<Rightarrow> unit res \<times> SimpleLogger" where
  "log_events [] bl = (Ok (), bl)"
| "log_events (e # es) bl = bindS (log_event_step e bl) (\<lambda>_ bl. log_events es bl)"

fun callsOf :: "log_event list \<Rightarrow> log_call list" where
  "callsOf [] = []"
| "callsOf (LCall c # es) = c # callsOf es"
| "callsOf (LAction name a # es) = callsOf es"

text \<open>The system is well: posts succeed, no goroutine finds a current file too old, and none looks later than \<open>T\<close>.\<close>

definition mayAct :: "int \<Rightarrow> byte list \<Rightarrow> action \<Rightarrow> (byte list \<times> writer) list \<Rightarrow> bool" where
  "mayAct T name a ls \<longleftrightarrow> list_all (\<lambda>(n, w). n = name \<longrightarrow> writer_mayGo T a w) ls"

fun undisturbed :: "int \<Rightarrow> log_event list \<Rightarrow> SimpleLogger \<Rightarrow> bool" where
  "undisturbed T [] bl = True"
| "undisturbed T (e # es) bl =
     ((case e of LCall c \<Rightarrow> True | LAction name a \<Rightarrow> mayAct T name a (sl_outputs bl)) \<and>
      undisturbed T es (snd (log_event_step e bl)))"

definition allKeep :: "int \<Rightarrow> (byte list \<times> writer) list \<Rightarrow> (moment \<times> byte list \<times> int) list \<Rightarrow> (byte list \<times> writer) list \<Rightarrow> bool" where
  "allKeep T ls ms ls' \<longleftrightarrow> list_all2 (\<lambda>l l'. keeps T l ms l') ls ls'"

lemma allKeep_refl: "outputs_ok ls \<Longrightarrow> allKeep T ls [] ls"
  using keeps_refl by (induction ls) (simp_all add: allKeep_def outputs_ok_def)

lemma allKeep_trans: "allKeep T ls ms ls' \<Longrightarrow> allKeep T ls' ns ls'' \<Longrightarrow> allKeep T ls (ms @ ns) ls''"
  unfolding allKeep_def by (erule (1) list_all2_trans [rotated]) (rule keeps_trans)

lemma allKeep_ok: "allKeep T ls ms ls' \<Longrightarrow> outputs_ok ls'"
  unfolding allKeep_def outputs_ok_def by (induction rule: list_all2_induct) (simp_all add: keeps_def)

lemma allKeep_write:
  assumes "outputs_ok ls" and "levelNo level"
  shows "allKeep T ls [(now, msg, level)] (writeEach now msg level ls)"
  using assms
proof (induction ls)
  case (Cons l ls)
  obtain n w where l: "l = (n, w)" by (cases l)
  with Cons keeps_write [of w level now msg T n] show ?case by (simp add: allKeep_def outputs_ok_def writeEach_def)
qed (simp add: allKeep_def writeEach_def)

lemma allKeep_act:
  assumes "outputs_ok ls" and "mayAct T name a ls"
  shows "allKeep T ls [] (act name a ls)"
  using assms
proof (induction ls)
  case (Cons l ls)
  obtain n w where l: "l = (n, w)" by (cases l)
  with Cons keeps_action [of w T a n] keeps_refl [of "(n, w)" T] show ?case
    by (cases "n = name") (simp_all add: allKeep_def outputs_ok_def act_def mayAct_def)
qed (simp add: allKeep_def act_def)

lemma log_step_sync:
  assumes "outputs_ok (sl_outputs bl)" and "\<not> sl_asynchronous bl"
  shows "\<exists>ls. log_step c bl = (Ok (), bl\<lparr>sl_outputs := ls\<rparr>) \<and> allKeep T (sl_outputs bl) (messages bl [c]) ls"
proof (cases "level_iota (methodLevel (lc_method c)) \<le> sl_level bl")
  case False
  then show ?thesis using allKeep_refl [OF assms(1)]
    by (intro exI [of _ "sl_outputs bl"]) (simp add: log_step_def logger_method_level atLevel_def)
next
  case True
  let ?ls = "writeEach (lc_now c) (callText bl c) (level_iota (methodLevel (lc_method c))) (sl_outputs bl)"
  have "log_step c bl = (Ok (), bl\<lparr>sl_outputs := ?ls\<rparr>)"
    using True assms deliver_each [OF assms(1) levelNo_iota]
    by (simp add: log_step_def logger_method_level atLevel_def writerMsg_def ignoreErr_def callText_def Let_def)
  moreover have "allKeep T (sl_outputs bl) (messages bl [c]) ?ls"
    using True allKeep_write [OF assms(1) levelNo_iota] by simp
  ultimately show ?thesis by blast
qed

lemma log_event_sync:
  assumes "outputs_ok (sl_outputs bl)" and "\<not> sl_asynchronous bl" and "undisturbed T [e] bl"
  shows "\<exists>ls. log_event_step e bl = (Ok (), bl\<lparr>sl_outputs := ls\<rparr>) \<and> allKeep T (sl_outputs bl) (messages bl (callsOf [e])) ls"
proof (cases e)
  case (LCall c)
  with log_step_sync [OF assms(1,2), of c T] show ?thesis by (simp del: messages_simps)
next
  case (LAction name a)
  with assms allKeep_act [OF assms(1), of T name a] show ?thesis
    by (intro exI [of _ "act name a (sl_outputs bl)"]) simp
qed

lemma messages_append: "messages bl (cs @ ds) = messages bl cs @ messages bl ds"
  by (simp add: messages_def passing_def)

lemma callsOf_Cons: "callsOf (e # es) = callsOf [e] @ callsOf es"
  by (cases e) simp_all

lemma log_events_sync:
  assumes "outputs_ok (sl_outputs bl)" and "\<not> sl_asynchronous bl" and "undisturbed T es bl"
  shows "\<exists>ls. log_events es bl = (Ok (), bl\<lparr>sl_outputs := ls\<rparr>) \<and> allKeep T (sl_outputs bl) (messages bl (callsOf es)) ls"
  using assms
proof (induction es arbitrary: bl)
  case Nil
  then show ?case using allKeep_refl by (intro exI [of _ "sl_outputs bl"]) simp
next
  case (Cons e es)
  from log_event_sync [OF Cons.prems(1,2), of T e] Cons.prems(3) obtain ls where
    1: "log_event_step e bl = (Ok (), bl\<lparr>sl_outputs := ls\<rparr>)" "allKeep T (sl_outputs bl) (messages bl (callsOf [e])) ls"
    by auto
  from Cons.IH [of "bl\<lparr>sl_outputs := ls\<rparr>"] allKeep_ok [OF 1(2)] Cons.prems(2,3) 1(1) obtain ls' where
    2: "log_events es (bl\<lparr>sl_outputs := ls\<rparr>) = (Ok (), bl\<lparr>sl_outputs := ls'\<rparr>)"
    "allKeep T ls (messages bl (callsOf es)) ls'" by auto
  have "messages bl (callsOf (e # es)) = messages bl (callsOf [e]) @ messages bl (callsOf es)"
    unfolding callsOf_Cons [of e es] by (rule messages_append)
  with 1(1) 2(1) allKeep_trans [OF 1(2) 2(2)] show ?case by auto
qed

lemma logged_line:
  "writer_log.logged w = (\<lambda>(now, msg, level). if level \<le> writerLevel w then writerLine w now msg level else [])"
  by (simp add: fun_eq_iff writer_log.logged_def)

section \<open>The texts\<close>

text \<open>A text without a percent sign is its own format.\<close>

lemma of_char_char_of_byte [simp]: "(of_char (char_of (unat b)) :: byte) = b"
proof -
  have "(of_char (char_of (unat b)) :: nat) = unat b"
  proof -
    have "unat b < 2 ^ LENGTH(8)" by (rule unsigned_less)
    then show ?thesis by simp
  qed
  then have "(of_nat (of_char (char_of (unat b)) :: nat) :: byte) = of_nat (unat b)" by (rule arg_cong)
  then show ?thesis unfolding of_nat_of_char by simp
qed

lemma scan_plain:
  assumes "CHR ''%'' \<notin> set t"
  shows "render (scan InText (t @ r)) args = map of_char t @ render (scan InText r) args"
  using assms by (induction t) auto

lemma of_char_chars [simp]: "map of_char (chars t) = t"
  by (simp add: chars_def o_def map_idI)

lemma chars_percent: "0x25 \<notin> set t \<Longrightarrow> CHR ''%'' \<notin> set (chars t)"
proof
  assume "0x25 \<notin> set t" and "CHR ''%'' \<in> set (chars t)"
  then obtain b where "b \<in> set t" "char_of (unat b) = CHR ''%''" by (auto simp: chars_def)
  then have "(of_char (char_of (unat b)) :: byte) = of_char CHR ''%''" by simp
  then have "b = 0x25" by simp
  with \<open>b \<in> set t\<close> \<open>0x25 \<notin> set t\<close> show False by simp
qed

lemma chars_str: "chars (str s) = s"
proof -
  have "unat (of_char c :: byte) = of_char c" for c :: char
  proof -
    have "unat (of_nat (of_char c) :: byte) = of_char c"
      by (simp only: unat_of_nat take_bit_eq_mod) simp
    then show ?thesis by (simp only: of_nat_of_char)
  qed
  then show ?thesis by (simp add: chars_def str_def o_def map_idI)
qed

lemma chars_append: "chars (s @ t) = chars s @ chars t"
  by (simp add: chars_def)

lemma scan_tag [simp]: "render (scan InText (levelTag l @ r)) args = str (levelTag l) @ render (scan InText r) args"
  by (cases l) (simp_all add: str_def)

lemma print_plain:
  assumes "0x25 \<notin> set t"
  shows "Sprintf (levelTag l @ chars t) [] = str (levelTag l) @ t"
  using scan_plain [OF chars_percent [OF assms], of "[]" "[]"] by (simp add: Sprintf_def extraText_def)

lemma print_percent:
  assumes "0x25 \<notin> set t" and "0x25 \<notin> set u"
  shows "Sprintf (levelTag l @ chars (t @ str ''%s'' @ u)) [] = str (levelTag l) @ t @ str ''%!s(MISSING)'' @ u"
proof -
  have c: "chars (t @ str ''%s'' @ u) = chars t @ CHR ''%'' # CHR ''s'' # chars u"
    by (simp only: chars_append chars_str) simp
  show ?thesis
    unfolding c using scan_plain [OF chars_percent [OF assms(1)]] scan_plain [OF chars_percent [OF assms(2)], of "[]" "[]"]
    by (simp add: Sprintf_def extraText_def verbText_def str_def)
qed

section \<open>The logger of the start\<close>

definition defaultLogger :: SimpleLogger where
  "defaultLogger = \<lparr>sl_level = level_iota LevelDebug, sl_enableFuncCallDepth = True, sl_loggerFuncCallDepth = 3,
     sl_asynchronous = False, sl_msg = [], sl_cap = 10000, sl_outputs = [(str ''console'', Console NewConsole)]\<rparr>"

lemma pkg_init_logger:
  "\<exists>ad. pkg_init e fs = Ok (ad, defaultLogger) \<and> dom ad = {str ''console'', str ''file'', str ''nsq''}"
  by (simp add: pkg_init_def Register_def NewLogger_def SetLogger_def SetLogFuncCall_def EnableFuncCallDepth_def
      SetLogFuncCallDepth_def defaultLogger_def console_Init_def str_def insert_commute)

lemma defaultLogger_ok [simp]:
  "outputs_ok (sl_outputs (SetLevel l defaultLogger))" "\<not> sl_asynchronous (SetLevel l defaultLogger)"
  "outputs_ok (sl_outputs defaultLogger)" "\<not> sl_asynchronous defaultLogger" "sl_msg defaultLogger = []"
  by (simp_all add: defaultLogger_def outputs_ok_def SetLevel_def)

definition aMoment :: moment where
  "aMoment = \<lparr>now_day = 1, now_unix = 0, now_date = str ''d'', now_stamp = str ''09:00 ''\<rparr>"

definition sampleCalls :: "log_call list" where
  "sampleCalls =
     [\<lparr>lc_method = MError, lc_now = aMoment, lc_caller = (\<lambda>_. None), lc_format = ''no %s'', lc_args = [StrArg (str ''x'')]\<rparr>,
      \<lparr>lc_method = MDebug, lc_now = aMoment, lc_caller = (\<lambda>_. None), lc_format = ''x'', lc_args = []\<rparr>]"

lemma sampleMessages: "messages (SetLevel 4 defaultLogger) sampleCalls = [(aMoment, str ''[???:0] [E] no x'', 3)]"
  by (simp add: sampleCalls_def SetLevel_def defaultLogger_def callText_def messageText_def Sprintf_def verbText_def
      printArg_def extraText_def strText_def intText_def fileOf_def str_def decDigits.simps)

section \<open>Properties\<close>


text \<open>Two calls on a logger with a console and a file, and a visit between them.\<close>

definition twoWriters :: SimpleLogger where
  "twoWriters = defaultLogger\<lparr>sl_level := 4,
     sl_outputs := [(str ''console'', Console NewConsole), (str ''file'', File aLog aLogFile)]\<rparr>"

definition sampleEvents :: "log_event list" where
  "sampleEvents = [LCall (sampleCalls ! 0), LAction (str ''file'') (Sweep 9 [0x62]), LCall (sampleCalls ! 1)]"

lemma sampleMessages2: "messages twoWriters (callsOf sampleEvents) = [(aMoment, str ''[???:0] [E] no x'', 3)]"
  by (simp add: sampleEvents_def sampleCalls_def twoWriters_def defaultLogger_def callText_def messageText_def Sprintf_def verbText_def
      printArg_def extraText_def strText_def intText_def fileOf_def str_def decDigits.simps)


text \<open>C33: the package's functions take the text of their operands for a format. A text without a percent sign
  is logged as it is; a \<^verbatim>\<open>%s\<close> in it, which a client can put into a command that the proxy reports, comes out
  as \<^verbatim>\<open>%!s(MISSING)\<close>. The functions with a format log every text as it is.\<close>

theorem percent_mangled:
  assumes "0x25 \<notin> set t" and "0x25 \<notin> set u" and "level_iota (methodLevel m) \<le> sl_level bl"
  shows "logPrint m e caller [StrArg t] bl =
      ignoreErr (writerMsg e caller (level_iota (methodLevel m)) (str (levelTag (methodLevel m)) @ t) bl) \<and>
    logPrint m e caller [StrArg (t @ str ''%s'' @ u)] bl =
      ignoreErr (writerMsg e caller (level_iota (methodLevel m)) (str (levelTag (methodLevel m)) @ t @ str ''%!s(MISSING)'' @ u) bl) \<and>
    logPrintf m e caller ''%s'' [StrArg s] bl =
      ignoreErr (writerMsg e caller (level_iota (methodLevel m)) (str (levelTag (methodLevel m)) @ s) bl)"
  using assms print_plain [OF assms(1), of "methodLevel m"] print_percent [OF assms(1,2), of "methodLevel m"]
  by (simp_all add: logPrint_def logPrintf_def logger_method_level atLevel_def Let_def strText_def Sprintf_def
      verbText_def printArg_def extraText_def)

theorem percent_mangled_witness:
  "logPrint MError (healthyEnv aMoment) (\<lambda>_. None) [StrArg (str ''ok'')] defaultLogger =
      ignoreErr (writerMsg (healthyEnv aMoment) (\<lambda>_. None) 3 (str ''[E] '' @ str ''ok'') defaultLogger) \<and>
    logPrint MError (healthyEnv aMoment) (\<lambda>_. None) [StrArg (str ''ok'' @ str ''%s'' @ str ''!'')] defaultLogger =
      ignoreErr (writerMsg (healthyEnv aMoment) (\<lambda>_. None) 3 (str ''[E] '' @ str ''ok'' @ str ''%!s(MISSING)'' @ str ''!'') defaultLogger) \<and>
    logPrintf MError (healthyEnv aMoment) (\<lambda>_. None) ''%s'' [StrArg (str ''%d'')] defaultLogger =
      ignoreErr (writerMsg (healthyEnv aMoment) (\<lambda>_. None) 3 (str ''[E] '' @ str ''%d'') defaultLogger)"
  using percent_mangled [of "str ''ok''" "str ''!''" MError defaultLogger "healthyEnv aMoment" "\<lambda>_. None" "str ''%d''"]
  by (simp add: str_def defaultLogger_def)

end
