(* ===== verification/Log_Safe.thy ===== *)
theory Log_Safe
  imports Log_Run
begin

text \<open>
  A synchronous logger that one goroutine uses, under any errors of the system: no operation panics or hangs
  and every one keeps the logger well formed, with writers that may fail. And what it does with a writer
  whose \<open>Init\<close> has failed.
\<close>

section \<open>Operations never crash\<close>

definition calm :: "'a res \<Rightarrow> bool" where
  "calm r \<longleftrightarrow> r \<noteq> Panic \<and> r \<noteq> Spin"

lemma calm_simps [simp]: "calm (Ok a)" "calm (Err e)" "\<not> calm Panic" "\<not> calm Spin"
  by (simp_all add: calm_def)

lemma calm_cases: "calm r \<Longrightarrow> (\<And>a. r = Ok a \<Longrightarrow> P) \<Longrightarrow> (\<And>e. r = Err e \<Longrightarrow> P) \<Longrightarrow> P"
  by (cases r) simp_all

lemma startLogger_calm: "calm (fst (startLogger now flt w fs))"
  by (simp add: startLogger_def createLogFile_def initFd_def lines_def Let_def split: option.split fdesc.split)

lemma file_Init_calm: "calm (fst (file_Init j now flt w fs))"
  by (simp add: file_Init_def startLogger_calm split: prod.split)

lemma writer_Init_calm: "calm (fst (writer_Init e config w))"
  using file_Init_calm
  by (cases w) (simp_all add: case_prod_beta console_Init_def nsq_Init_def)

lemma writer_WriteMsg_calm: "levelNo level \<Longrightarrow> calm (fst (writer_WriteMsg e msg level w))"
  by (cases w) (simp_all add: console_WriteMsg_def file_WriteMsg_def nsq_WriteMsg_def brush_ok Let_def split: prod.split)

lemma deliver_calm:
  assumes "levelNo level"
  shows "calm (fst (deliver e msg level ls)) \<and> map fst (snd (deliver e msg level ls)) = map fst ls"
proof (induction ls)
  case (Cons l ls)
  obtain name w where l: "l = (name, w)" by (cases l)
  obtain r w' where w: "writer_WriteMsg e msg level w = (r, w')" by fastforce
  with writer_WriteMsg_calm [OF assms, of e msg w] have "calm r" by simp
  with Cons.IH show ?case by (auto simp: l w elim!: calm_cases split: prod.split)
qed simp

section \<open>Well-formed loggers\<close>

text \<open>Each name once, and nothing in the channel.\<close>

definition logger_wf :: "SimpleLogger \<Rightarrow> bool" where
  "logger_wf bl \<longleftrightarrow> distinct (map fst (sl_outputs bl)) \<and> sl_msg bl = [] \<and> \<not> sl_asynchronous bl"

text \<open>What a program can do with a logger, short of making it asynchronous.\<close>

datatype log_op =
    OpMethod log_method caller_info string "fmt_arg list"
  | OpSetLogger fsys "byte list" "byte list"
  | OpDelLogger "byte list"
  | OpSetLevel int
  | OpSetDepth int
  | OpEnableDepth bool
  | OpClose

fun log_op_step :: "env \<Rightarrow> adapters \<Rightarrow> log_op \<Rightarrow> SimpleLogger \<Rightarrow> unit res \<times> SimpleLogger" where
  "log_op_step e ad (OpMethod m caller format v) bl = logger_method m e caller format v bl"
| "log_op_step e ad (OpSetLogger fs name config) bl = SetLogger e ad fs name config bl"
| "log_op_step e ad (OpDelLogger name) bl = DelLogger name bl"
| "log_op_step e ad (OpSetLevel l) bl = (Ok (), SetLevel l bl)"
| "log_op_step e ad (OpSetDepth d) bl = (Ok (), SetLogFuncCallDepth d bl)"
| "log_op_step e ad (OpEnableDepth b) bl = (Ok (), EnableFuncCallDepth b bl)"
| "log_op_step e ad OpClose bl = logger_Close e bl"

text \<open>A sequence of operations: an error goes to the caller, and the program goes on.\<close>

fun log_ops :: "adapters \<Rightarrow> (env \<times> log_op) list \<Rightarrow> SimpleLogger \<Rightarrow> unit res list \<times> SimpleLogger" where
  "log_ops ad [] bl = ([], bl)"
| "log_ops ad ((e, op) # ops) bl =
     (case log_op_step e ad op bl of (r, bl) \<Rightarrow> (case log_ops ad ops bl of (rs, bl) \<Rightarrow> (r # rs, bl)))"

lemma writerMsg_wf:
  assumes "logger_wf bl" and "levelNo level"
  shows "calm (fst (writerMsg e caller level msg bl)) \<and> logger_wf (snd (writerMsg e caller level msg bl))"
proof -
  obtain r ls where d: "deliver e (messageText caller msg bl) level (sl_outputs bl) = (r, ls)" by fastforce
  with deliver_calm [OF assms(2), of e "messageText caller msg bl" "sl_outputs bl"]
  have "calm r" "map fst ls = map fst (sl_outputs bl)" by simp_all
  with assms(1) d show ?thesis by (simp add: writerMsg_def logger_wf_def)
qed

lemma atLevel_wf:
  assumes "logger_wf bl"
  shows "calm (fst (atLevel l tag e caller format v bl)) \<and> logger_wf (snd (atLevel l tag e caller format v bl))"
  using assms writerMsg_wf [OF assms levelNo_iota, of e caller l "Sprintf (tag @ format) v"]
  by (auto simp: atLevel_def ignoreErr_def Let_def split: prod.split res.split)

lemma log_op_wf:
  assumes "logger_wf bl"
  shows "calm (fst (log_op_step e ad op bl)) \<and> logger_wf (snd (log_op_step e ad op bl))"
proof (cases op)
  case (OpMethod m caller format v)
  then show ?thesis using atLevel_wf [OF assms] by (simp add: logger_method_level)
next
  case (OpSetLogger fs name config)
  then show ?thesis using assms writer_Init_calm [of e config]
    by (auto simp: SetLogger_def logger_wf_def distinct_update case_prod_beta split: option.split)
next
  case (OpDelLogger name)
  then show ?thesis using assms
    by (auto simp: DelLogger_def logger_wf_def distinct_delete split: option.split)
next
  case OpClose
  then show ?thesis using assms by (simp add: logger_Close_def logger_wf_def o_def)
qed (use assms in \<open>auto simp: SetLevel_def SetLogFuncCallDepth_def EnableFuncCallDepth_def logger_wf_def\<close>)



section \<open>A writer whose \<open>Init\<close> has failed\<close>

text \<open>A configuration does not touch the descriptor.\<close>

lemma fileField_fd: "t \<in> set fileFields \<Longrightarrow> fw_fd (snd (snd t v w)) = fw_fd w"
  by (auto simp: fileFields_def field_defs split: jval.splits option.splits)

lemma decodeKey_fd: "fw_fd (snd (decodeKey fileFields k v w)) = fw_fd w"
proof (cases "find (\<lambda>t. EqualFold k (fst t)) fileFields")
  case (Some t)
  then have "t \<in> set fileFields" by (metis find_Some_iff nth_mem)
  from fileField_fd [OF this] Some show ?thesis by (simp add: decodeKey_def)
qed (simp add: decodeKey_def)

lemma decodeKeys_fd: "fw_fd (snd (decodeKeys fileFields kvs w)) = fw_fd w"
proof (induction kvs arbitrary: w)
  case (Cons kv kvs)
  obtain k v where kv: "kv = (k, v)" by (cases kv)
  from Cons.IH decodeKey_fd [of k v w] show ?case by (simp add: kv case_prod_beta)
qed simp

lemma Unmarshal_fd: "fw_fd (snd (Unmarshal fileFields config w)) = fw_fd w"
  using decodeKeys_fd by (auto simp: Unmarshal_def split: option.split jval.split)

text \<open>As long as the system can tell of an open file how long it is and what is in it, an \<open>Init\<close> that fails has not
  opened one, and has changed no file.\<close>

lemma file_Init_failed:
  assumes "file_Init config now flt NewFileWriter fs = (Err x, w, fs')" and "e_stat flt = None" and "e_read flt = None"
  shows "fs' = fs \<and> fw_fd w = NilFd"
proof -
  obtain ok w1 where u: "Unmarshal fileFields config NewFileWriter = (ok, w1)" by fastforce
  have nil: "fw_fd w1 = NilFd"
    using Unmarshal_fd [of config NewFileWriter] u by (simp add: NewFileWriter_def)
  show ?thesis
    using assms nil by (auto simp: file_Init_def u startLogger_def createLogFile_def initFd_def lines_def Let_def
        split: if_splits option.splits)
qed

text \<open>C32: a file writer whose \<open>Init\<close> fails before it has opened the file (the configuration is no JSON or names
  no file, or the file cannot be opened) takes the place of the writer that was there, although the caller
  gets the error. Everything that is logged from then on is lost without an error, if there is no file with
  the name that the configuration has set so far: every \<open>WriteMsg\<close> returns nil and no file changes.\<close>

theorem failed_init_silences:
  assumes "ad (str ''file'') = Some FileKind"
    and "file_Init config (en_now e) (en_flt e) NewFileWriter fs = (Err x, w, fs')"
    and "e_stat (en_flt e) = None" and "e_read (en_flt e) = None" and "fs (fw_Filename w) = None"
  shows "fst (SetLogger e ad fs (str ''file'') config bl) = Err x \<and>
    map_of (sl_outputs (snd (SetLogger e ad fs (str ''file'') config bl))) (str ''file'') = Some (File w fs) \<and>
    (\<exists>w1 w2. writeCalls cs w fs = (w1, fs) \<and> file_WriteMsg now flt msg level w1 fs = (Ok (), w2, fs))"
proof -
  from file_Init_failed [OF assms(2-4)] have f: "fs' = fs" "fw_fd w = NilFd" by simp_all
  with assms(5) have "dead w fs" by (simp add: dead_def)
  with dead_stays [of w fs cs] dead_WriteMsg [of _ fs now flt msg level] have
    "\<exists>w1 w2. writeCalls cs w fs = (w1, fs) \<and> file_WriteMsg now flt msg level w1 fs = (Ok (), w2, fs)" by blast
  with assms(1,2) f(1) show ?thesis by (simp add: SetLogger_def update_conv)
qed

lemma badName_Init:
  "\<exists>w. file_Init (str ''{'') now flt NewFileWriter fs = (Err JsonError, w, fs) \<and> fw_Filename w = []"
proof -
  have "parseJson (str ''{'') = None" by code_simp
  then show ?thesis by (simp add: file_Init_def Unmarshal_def) (simp add: NewFileWriter_def)
qed

theorem failed_init_silences_witness:
  "\<exists>w. fst (SetLogger (healthyEnv aMoment) [str ''file'' \<mapsto> FileKind] Map.empty (str ''file'') (str ''{'') defaultLogger) = Err JsonError \<and>
    map_of (sl_outputs (snd (SetLogger (healthyEnv aMoment) [str ''file'' \<mapsto> FileKind] Map.empty (str ''file'') (str ''{'') defaultLogger)))
      (str ''file'') = Some (File w Map.empty) \<and>
    (\<exists>w1 w2. writeCalls [(aMoment, noFaults, str ''x'', 3)] w Map.empty = (w1, Map.empty) \<and>
      file_WriteMsg aMoment noFaults (str ''y'') 3 w1 Map.empty = (Ok (), w2, Map.empty))"
proof -
  obtain w where w: "file_Init (str ''{'') (en_now (healthyEnv aMoment)) (en_flt (healthyEnv aMoment)) NewFileWriter Map.empty =
      (Err JsonError, w, Map.empty)" using badName_Init by blast
  show ?thesis
    by (rule exI [of _ w], rule failed_init_silences [OF _ w]) (simp_all add: healthyEnv_def noFaults_def)
qed

end
