(* ===== verification/Log_Init.thy ===== *)
theory Log_Init
  imports Log_Safe
begin

text \<open>
  \<^verbatim>\<open>log.Init\<close>: the text that it makes of a file name and a level, what \<^verbatim>\<open>encoding/json\<close> reads from it, and the file that
  is opened in the end.
\<close>

section \<open>Decimal numbers\<close>

lemma decVal_snoc: "decVal (ds @ [d]) = 10 * decVal ds + unat (d - 0x30)"
  by (simp add: decVal_def)

lemma unat_digit: "d < 10 \<Longrightarrow> unat (of_nat d :: byte) = d"
  by (simp add: unat_of_nat take_bit_eq_mod)

lemma decVal_decDigits: "decVal (decDigits n) = n"
proof (induction n rule: decDigits.induct)
  case (1 n)
  show ?case
  proof (cases "n < 10")
    case True
    then show ?thesis by (simp add: decDigits.simps decVal_def unat_digit)
  next
    case False
    with 1 show ?thesis by (simp add: decDigits.simps [of n] decVal_snoc unat_digit)
  qed
qed

lemma isDigit_digit: "d < 10 \<Longrightarrow> isDigit (of_nat d + 0x30)"
proof -
  assume "d < 10"
  then have "d \<in> {0, 1, 2, 3, 4, 5, 6, 7, 8, 9}" by auto
  then show ?thesis by (auto simp: isDigit_def)
qed

lemma decDigits_digits: "list_all isDigit (decDigits n)"
proof (induction n rule: decDigits.induct)
  case (1 n)
  then show ?case by (cases "n < 10") (simp_all add: decDigits.simps [of n] isDigit_digit)
qed

lemma decDigits_head: "\<exists>c ds. decDigits n = c # ds \<and> isDigit c \<and> (c = 0x30 \<longrightarrow> n = 0)"
proof (induction n rule: decDigits.induct)
  case (1 n)
  show ?case
  proof (cases "n < 10")
    case True
    then have "of_nat n + 0x30 = (0x30 :: byte) \<Longrightarrow> n = 0" using unat_digit [of n] by simp
    with True show ?thesis by (simp add: decDigits.simps [of n] isDigit_digit)
  next
    case False
    with 1 obtain c ds where "decDigits (n div 10) = c # ds" "isDigit c" "c \<noteq> 0x30" by auto
    with False show ?thesis by (simp add: decDigits.simps [of n])
  qed
qed

lemma intDigits_decDigits: "\<not> isDigit c \<Longrightarrow> intDigits (decDigits n @ c # r) = decDigits n"
proof -
  assume c: "\<not> isDigit c"
  obtain d ds where d: "decDigits n = d # ds" "isDigit d" "d = 0x30 \<longrightarrow> n = 0" using decDigits_head by blast
  show ?thesis
  proof (cases "d = 0x30")
    case True
    with d(3) have "n = 0" by simp
    then show ?thesis by (simp add: intDigits_def decDigits.simps)
  next
    case False
    have "takeWhile isDigit (decDigits n @ c # r) = decDigits n"
      using decDigits_digits [of n] c by (simp add: takeWhile_append2 list_all_iff)
    with False d show ?thesis by (simp add: intDigits_def digitsOf_def)
  qed
qed

lemma scanUnsigned_decDigits:
  "scanUnsigned neg (decDigits n @ 0x7d # r) = Some (toInt64 (if neg then - int n else int n), 0x7d # r)"
proof -
  have i: "intDigits (decDigits n @ 0x7d # r) = decDigits n" by (rule intDigits_decDigits) (simp add: isDigit_def)
  have "decDigits n \<noteq> []" using decDigits_head [of n] by auto
  then show ?thesis by (simp add: scanUnsigned_def i scanFrac_def scanExp_def decVal_decDigits)
qed

lemma tokens_number: "isDigit c \<or> c = 0x2d \<Longrightarrow>
  tokens (c # r) = (case scanNum (c # r) of None \<Rightarrow> None | Some (n, r) \<Rightarrow> map_option ((#) (Scalar (JNum n))) (tokens r))"
  by (auto simp: tokens.simps(2) isDigit_def str_def)

lemma tokens_intText:
  assumes "- (2 ^ 63) \<le> i" and "i < 2 ^ 63"
  shows "tokens (intText None i @ 0x7d # r) = map_option ((#) (Scalar (JNum (Some i)))) (tokens (0x7d # r))"
proof -
  have r: "toInt64 i = Some i" using assms by (simp add: toInt64_def)
  show ?thesis
  proof (cases "i < 0")
    case True
    have "tokens (0x2d # decDigits (nat (- i)) @ 0x7d # r) =
        (case scanUnsigned True (decDigits (nat (- i)) @ 0x7d # r) of
           None \<Rightarrow> None | Some (n, r) \<Rightarrow> map_option ((#) (Scalar (JNum n))) (tokens r))"
      by (simp add: tokens_number scanNum_def)
    with True show ?thesis by (simp add: intText_def str_def scanUnsigned_decDigits r)
  next
    case False
    obtain c ds where c: "decDigits (nat i) = c # ds" "isDigit c" using decDigits_head by blast
    then have "c \<noteq> 0x2d" by (auto simp: isDigit_def)
    then have "scanNum (decDigits (nat i) @ 0x7d # r) = scanUnsigned False (decDigits (nat i) @ 0x7d # r)"
      by (simp add: scanNum_def c)
    with scanUnsigned_decDigits [of False "nat i" r] have "scanNum (c # ds @ 0x7d # r) = Some (Some i, 0x7d # r)"
      using False r by (simp add: c)
    with False c show ?thesis
      using tokens_number [of c "ds @ 0x7d # r"] by (simp add: intText_def)
  qed
qed

section \<open>The text of the configuration\<close>

text \<open>Within quotes, \<open>filename\<close> is read as \<open>name\<close>.\<close>

definition readsAs :: "byte list \<Rightarrow> byte list \<Rightarrow> bool" where
  "readsAs filename name \<longleftrightarrow> (\<forall>r. unquote (filename @ 0x22 # r) = Some (name, r))"

lemma readsAs_plain: "list_all plainByte a \<Longrightarrow> readsAs a a"
  by (simp add: readsAs_def unquote_plain)

lemma readsAs_escape:
  assumes "list_all plainByte a" and "list_all plainByte b" and "escapeOf x = Some c"
  shows "readsAs (a @ [0x5c, x] @ b) (a @ [c] @ b)"
proof -
  have "x \<noteq> 0x75" using assms(3) by (auto simp: escapeOf_def)
  then show ?thesis
    using assms by (simp add: readsAs_def unquote_plain_app [OF assms(1)] unquote.simps(2) unquoteChar_def unescape_def unquote_plain)
qed

lemma initConfig_text:
  "initConfig filename level =
    0x7b # 0x22 # str ''filename'' @ 0x22 # 0x3a # 0x22 # filename @ 0x22 # 0x2c # 0x20 # 0x22 # str ''level'' @
    0x22 # 0x3a # intText None level @ [0x7d]"
  by (simp add: initConfig_def Sprintf_def verbText_def printArg_def strText_def extraText_def str_def)

lemma plain_keys: "list_all plainByte (str ''filename'')" "list_all plainByte (str ''level'')"
  by (simp_all add: plainByte_def str_def)

lemma tokens_string: "tokens (0x22 # r) =
    (case unquote r of None \<Rightarrow> None | Some (v, r) \<Rightarrow> map_option ((#) (Scalar (JStr v))) (tokens r))"
  by (simp add: tokens.simps(2))

lemma tokens_marks:
  "tokens (0x20 # r) = tokens r" "tokens (0x7b # r) = map_option ((#) LBrace) (tokens r)"
  "tokens (0x7d # r) = map_option ((#) RBrace) (tokens r)" "tokens (0x3a # r) = map_option ((#) Colon) (tokens r)"
  "tokens (0x2c # r) = map_option ((#) Comma) (tokens r)"
  by (simp_all add: tokens.simps(2))

lemma initConfig_parse:
  assumes "readsAs filename name" and "- (2 ^ 63) \<le> level" and "level < 2 ^ 63"
  shows "parseJson (initConfig filename level) =
    Some (JObj [(str ''filename'', JStr name), (str ''level'', JNum (Some level))])"
proof -
  have "tokens (initConfig filename level) =
      Some [LBrace, Scalar (JStr (str ''filename'')), Colon, Scalar (JStr name), Comma, Scalar (JStr (str ''level'')), Colon,
        Scalar (JNum (Some level)), RBrace]"
    using assms(1) [unfolded readsAs_def] tokens_intText [OF assms(2,3), of "[]"]
    by (simp add: initConfig_text tokens_marks tokens_string unquote_plain plain_keys tokens.simps(1))
  then show ?thesis by (simp add: parseJson_def)
qed

lemma initConfig_control:
  assumes "list_all plainByte a" and "c < 0x20"
  shows "parseJson (initConfig (a @ [c] @ b) level) = None"
proof -
  have "unquote (a @ c # r) = None" for r
    using assms(2) by (auto simp: unquote_plain_app [OF assms(1)] unquote.simps(2) unquoteChar_def)
  then show ?thesis
    by (simp add: parseJson_def initConfig_text tokens_marks tokens_string unquote_plain plain_keys)
qed

section \<open>The file\<close>

text \<open>The logger has a writer that is open on the file \<open>name\<close>, with its content, and has the level.\<close>

definition opened :: "byte list \<Rightarrow> int \<Rightarrow> fsys \<Rightarrow> SimpleLogger \<Rightarrow> SimpleLogger \<Rightarrow> bool" where
  "opened name level fs bl bl' \<longleftrightarrow>
     (\<exists>w fs'. bl' = bl\<lparr>sl_outputs := AList.update (str ''file'') (File w fs') (sl_outputs bl)\<rparr> \<and> ready w fs' \<and>
        fw_Filename w = name \<and> fw_Level w = level \<and> fileData fs' name = fileData fs name)"

lemma initFd_ready:
  assumes "fw_fd w = OpenFd p"
  shows "\<exists>w'. initFd now noFaults w fs = (Ok (), w')"
  using assms by (simp add: initFd_def lines_def noFaults_def Let_def)

lemma startLogger_opens: "\<exists>w' fs'. startLogger now noFaults w fs = (Ok (), w', fs')"
proof -
  obtain fd fs' where c: "createLogFile now noFaults w fs = (Ok fd, fs')" "fd = OpenFd (fw_Filename w)"
    by (simp add: createLogFile_def noFaults_def)
  from initFd_ready [of "w\<lparr>fw_fd := fd\<rparr>"] c(2) obtain w' where "initFd now noFaults (w\<lparr>fw_fd := fd\<rparr>) fs' = (Ok (), w')"
    by fastforce
  with c show ?thesis by (simp add: startLogger_def)
qed

lemma initConfig_Unmarshal:
  assumes "parseJson (initConfig filename level) = Some (JObj [(str ''filename'', JStr name), (str ''level'', JNum (Some level))])"
  shows "Unmarshal fileFields (initConfig filename level) w = (True, w\<lparr>fw_Filename := name, fw_Level := level\<rparr>)"
  using assms by (simp add: Unmarshal_def decodeKey_def fileFields_def field_defs EqualFold_def lowerByte_def str_def)

lemma log_Init_opens:
  assumes "ad (str ''file'') = Some FileKind" and "en_flt e = noFaults" and "readsAs filename name" and "name \<noteq> []"
    and "- (2 ^ 63) \<le> level" and "level < 2 ^ 63"
  shows "opened name level fs bl (log_Init e ad fs filename level bl)"
proof -
  let ?w = "NewFileWriter\<lparr>fw_Filename := name, fw_Level := level\<rparr>"
  obtain w fs' where s: "startLogger (en_now e) noFaults ?w fs = (Ok (), w, fs')" using startLogger_opens by blast
  from startLogger_ok [OF s] have "ready w fs'" "fw_Filename w = name" "fw_Level w = level" "fileData fs' name = fileData fs name"
    by (simp_all add: sameConfig_def)
  moreover have "file_Init (initConfig filename level) (en_now e) noFaults NewFileWriter fs = (Ok (), w, fs')"
    using s assms(4) by (simp add: file_Init_def initConfig_Unmarshal [OF initConfig_parse [OF assms(3,5,6)]])
  ultimately show ?thesis unfolding opened_def using assms(1,2) by (auto simp: log_Init_def SetLogger_def)
qed

text \<open>C37: \<^verbatim>\<open>log.Init\<close> puts the file name into JSON as it is. A name of plain characters opens the file of that name, with the
  level, and keeps what is in it. After a backslash a character that JSON has an escape for changes, and the file of another
  name is opened. With a control character nothing is opened: the error is dropped, and the logger has a file
  writer without a file.\<close>

theorem init_file_name:
  assumes "ad (str ''file'') = Some FileKind" and "en_flt e = noFaults" and "list_all plainByte a" and "list_all plainByte b"
    and "a \<noteq> []" and "- (2 ^ 63) \<le> level" and "level < 2 ^ 63" and "escapeOf x = Some c" and "d < 0x20"
  shows "opened a level fs bl (log_Init e ad fs a level bl) \<and>
    opened (a @ [c] @ b) level fs bl (log_Init e ad fs (a @ [0x5c, x] @ b) level bl) \<and>
    log_Init e ad fs (a @ [d] @ b) level bl =
      bl\<lparr>sl_outputs := AList.update (str ''file'') (File NewFileWriter fs) (sl_outputs bl)\<rparr>"
proof (intro conjI)
  show "opened a level fs bl (log_Init e ad fs a level bl)"
    by (rule log_Init_opens) (use assms readsAs_plain in auto)
  show "opened (a @ [c] @ b) level fs bl (log_Init e ad fs (a @ [0x5c, x] @ b) level bl)"
    by (rule log_Init_opens) (use assms(1,2,6,7) readsAs_escape [OF assms(3,4,8)] in auto)
  show "log_Init e ad fs (a @ [d] @ b) level bl =
      bl\<lparr>sl_outputs := AList.update (str ''file'') (File NewFileWriter fs) (sl_outputs bl)\<rparr>"
    using assms(1) initConfig_control [OF assms(3,9), of b level]
    by (simp add: log_Init_def SetLogger_def file_Init_def Unmarshal_def)
qed

theorem init_file_name_witness:
  "opened (str ''C:'') 7 Map.empty defaultLogger
      (log_Init (healthyEnv aMoment) [str ''file'' \<mapsto> FileKind] Map.empty (str ''C:'') 7 defaultLogger) \<and>
    opened (str ''C:'' @ [9] @ str ''mp.log'') 7 Map.empty defaultLogger
      (log_Init (healthyEnv aMoment) [str ''file'' \<mapsto> FileKind] Map.empty (str ''C:'' @ [0x5c, 0x74] @ str ''mp.log'') 7 defaultLogger) \<and>
    log_Init (healthyEnv aMoment) [str ''file'' \<mapsto> FileKind] Map.empty (str ''C:'' @ [0x0a] @ str ''mp.log'') 7 defaultLogger =
      defaultLogger\<lparr>sl_outputs := AList.update (str ''file'') (File NewFileWriter Map.empty) (sl_outputs defaultLogger)\<rparr>"
  by (rule init_file_name) (simp_all add: plainByte_def escapeOf_def healthyEnv_def str_def)

end
