(* ===== verification/Log_Async.thy ===== *)
theory Log_Async
  imports Log_Run
begin

text \<open>
  The logger of \<^verbatim>\<open>log/log.go\<close> behind its channel: callers send their messages, the goroutine \<open>startLogger\<close> takes
  them one by one and gives each to the writers one after the other, and \<open>Close\<close> does the same beside it, and
  then destroys the writers. Nothing here is atomic but a look at the channel, a send, a receive and the call
  of one writer, whose own locks guard it. \<open>Async\<close> is called once, and the map of writers does not change meanwhile
  (the goroutine goes through it without the lock).
\<close>

section \<open>The goroutines\<close>

text \<open>Where \<open>Close\<close> is: not called, about to look at the length of the channel, about to receive since the channel
  was not empty, with a message and the writers still to be given it, with the writers still to be
  destroyed, or finished.\<close>

datatype closer =
    NotClosing | Looking | Receiving | CloseHand int "byte list" "byte list list" | Destroying "byte list list" | Closed

text \<open>\<open>al_hand\<close> is the message that \<open>startLogger\<close> has taken, with the names of the writers still to be given it.\<close>

record alog =
  al_log :: SimpleLogger
  al_hand :: "(int \<times> byte list \<times> byte list list) option"
  al_close :: closer

definition startAsync :: "SimpleLogger \<Rightarrow> alog" where
  "startAsync bl = \<lparr>al_log = Async bl, al_hand = None, al_close = NotClosing\<rparr>"

text \<open>A receive from the channel.\<close>

definition takeMsg :: "SimpleLogger \<Rightarrow> ((int \<times> byte list) \<times> SimpleLogger) option" where
  "takeMsg bl = (case sl_msg bl of [] \<Rightarrow> None | m # ms \<Rightarrow> Some (m, bl\<lparr>sl_msg := ms\<rparr>))"

text \<open>The turn of one writer in the loop over the map. The errors of \<open>WriteMsg\<close> are only printed.\<close>

definition handTo :: "moment \<Rightarrow> byte list \<Rightarrow> int \<Rightarrow> byte list \<Rightarrow> SimpleLogger \<Rightarrow> SimpleLogger" where
  "handTo now name level msg bl =
     bl\<lparr>sl_outputs := map (\<lambda>(n, w). (n, if n = name then snd (writer_write now msg level w) else w)) (sl_outputs bl)\<rparr>"

definition destroyOne :: "byte list \<Rightarrow> SimpleLogger \<Rightarrow> SimpleLogger" where
  "destroyOne name bl =
     bl\<lparr>sl_outputs := map (\<lambda>(n, w). (n, if n = name then writer_Destroy w else w)) (sl_outputs bl)\<rparr>"

definition writerNames :: "SimpleLogger \<Rightarrow> byte list list" where
  "writerNames bl = map fst (sl_outputs bl)"

text \<open>What a step does that is of interest: a call has sent these messages (one or none), a writer has been given
  a message, or something else.\<close>

datatype alabel = Called "(int \<times> byte list) list" | Gave "byte list" moment int "byte list" | Quiet

definition unstamped :: "moment \<times> byte list \<times> int \<Rightarrow> int \<times> byte list" where
  "unstamped c = (case c of (now, msg, level) \<Rightarrow> (level, msg))"

text \<open>
  The steps. A caller whose message finds no room waits, so there is no step for it; in a channel of no
  capacity it hands the message to the goroutine that waits. The writers come in any order, since Go goes
  through a map in any. As in C26 the system reports no errors to the writers, and their own goroutines may act.
\<close>

inductive astep :: "int \<Rightarrow> alabel \<Rightarrow> alog \<Rightarrow> alog \<Rightarrow> bool" for T where
  call: "log_step c (al_log s) = (Ok (), bl) \<Longrightarrow>
     astep T (Called (map unstamped (messages (al_log s) [c]))) s (s\<lparr>al_log := bl\<rparr>)"
| hand_over: "sl_cap (al_log s) = 0 \<Longrightarrow> sl_msg (al_log s) = [] \<Longrightarrow> al_hand s = None \<Longrightarrow> messages (al_log s) [c] = [(now, msg, level)] \<Longrightarrow>
     astep T (Called [(level, msg)]) s (s\<lparr>al_hand := Some (level, msg, writerNames (al_log s))\<rparr>)"
| take: "al_hand s = None \<Longrightarrow> takeMsg (al_log s) = Some ((level, msg), bl) \<Longrightarrow>
     astep T Quiet s (s\<lparr>al_log := bl, al_hand := Some (level, msg, writerNames bl)\<rparr>)"
| give: "al_hand s = Some (level, msg, ns) \<Longrightarrow> name \<in> set ns \<Longrightarrow>
     astep T (Gave name now level msg) s
       (s\<lparr>al_log := handTo now name level msg (al_log s), al_hand := Some (level, msg, remove1 name ns)\<rparr>)"
| given: "al_hand s = Some (level, msg, []) \<Longrightarrow> astep T Quiet s (s\<lparr>al_hand := None\<rparr>)"
| acts: "mayAct T name a (sl_outputs (al_log s)) \<Longrightarrow>
     astep T Quiet s (s\<lparr>al_log := (al_log s)\<lparr>sl_outputs := act name a (sl_outputs (al_log s))\<rparr>\<rparr>)"
| close_call: "al_close s = NotClosing \<Longrightarrow> astep T Quiet s (s\<lparr>al_close := Looking\<rparr>)"
| close_some: "al_close s = Looking \<Longrightarrow> sl_msg (al_log s) \<noteq> [] \<Longrightarrow> astep T Quiet s (s\<lparr>al_close := Receiving\<rparr>)"
| close_none: "al_close s = Looking \<Longrightarrow> sl_msg (al_log s) = [] \<Longrightarrow>
     astep T Quiet s (s\<lparr>al_close := Destroying (writerNames (al_log s))\<rparr>)"
| close_take: "al_close s = Receiving \<Longrightarrow> takeMsg (al_log s) = Some ((level, msg), bl) \<Longrightarrow>
     astep T Quiet s (s\<lparr>al_log := bl, al_close := CloseHand level msg (writerNames bl)\<rparr>)"
| close_give: "al_close s = CloseHand level msg ns \<Longrightarrow> name \<in> set ns \<Longrightarrow>
     astep T (Gave name now level msg) s
       (s\<lparr>al_log := handTo now name level msg (al_log s), al_close := CloseHand level msg (remove1 name ns)\<rparr>)"
| close_given: "al_close s = CloseHand level msg [] \<Longrightarrow> astep T Quiet s (s\<lparr>al_close := Looking\<rparr>)"
| close_destroy: "al_close s = Destroying ns \<Longrightarrow> name \<in> set ns \<Longrightarrow>
     astep T Quiet s (s\<lparr>al_log := destroyOne name (al_log s), al_close := Destroying (remove1 name ns)\<rparr>)"
| close_done: "al_close s = Destroying [] \<Longrightarrow> astep T Quiet s (s\<lparr>al_close := Closed\<rparr>)"

inductive_cases astepE: "astep T l s s'"

inductive apath :: "int \<Rightarrow> alog \<Rightarrow> alabel list \<Rightarrow> alog \<Rightarrow> bool" for T s where
  here: "apath T s [] s"
| further: "apath T s ls t \<Longrightarrow> astep T l t u \<Longrightarrow> apath T s (ls @ [l]) u"

section \<open>First in, first out\<close>

text \<open>The messages sent, those a writer has been given, each with its time, and the one it is still to be given.\<close>

fun sentOf :: "alabel \<Rightarrow> (int \<times> byte list) list" where
  "sentOf (Called ms) = ms"
| "sentOf _ = []"

fun givenOf :: "byte list \<Rightarrow> alabel \<Rightarrow> (moment \<times> byte list \<times> int) list" where
  "givenOf name (Gave n now level msg) = (if n = name then [(now, msg, level)] else [])"
| "givenOf name _ = []"

definition allSent :: "alabel list \<Rightarrow> (int \<times> byte list) list" where
  "allSent ls = concat (map sentOf ls)"

definition allGiven :: "byte list \<Rightarrow> alabel list \<Rightarrow> (moment \<times> byte list \<times> int) list" where
  "allGiven name ls = concat (map (givenOf name) ls)"

lemma all_snoc [simp]:
  "allSent [] = []" "allSent (ls @ [l]) = allSent ls @ sentOf l"
  "allGiven n [] = []" "allGiven n (ls @ [l]) = allGiven n ls @ givenOf n l"
  by (simp_all add: allSent_def allGiven_def)

definition inHand :: "byte list \<Rightarrow> alog \<Rightarrow> (int \<times> byte list) list" where
  "inHand name s = (case al_hand s of Some (level, msg, ns) \<Rightarrow> if name \<in> set ns then [(level, msg)] else [] | None \<Rightarrow> [])"

definition waitingFor :: "byte list \<Rightarrow> alog \<Rightarrow> (int \<times> byte list) list" where
  "waitingFor name s = inHand name s @ sl_msg (al_log s)"

text \<open>Each writer has been given what \<open>g\<close> says for its name, and nothing else.\<close>

definition keepBy :: "int \<Rightarrow> (byte list \<times> writer) list \<Rightarrow> (byte list \<Rightarrow> (moment \<times> byte list \<times> int) list) \<Rightarrow> (byte list \<times> writer) list \<Rightarrow> bool" where
  "keepBy T ls g ls' \<longleftrightarrow> list_all2 (\<lambda>l l'. keeps T l (g (fst l)) l') ls ls'"

lemma keepBy_names: "keepBy T ls g ls' \<Longrightarrow> map fst ls' = map fst ls"
  unfolding keepBy_def by (induction rule: list_all2_induct) (simp_all add: keeps_def)

lemma keepBy_ok: "keepBy T ls g ls' \<Longrightarrow> outputs_ok ls'"
  unfolding keepBy_def outputs_ok_def by (induction rule: list_all2_induct) (simp_all add: keeps_def)

lemma keepBy_trans:
  assumes "keepBy T ls g ls'" and "keepBy T ls' h ls''" and "\<And>n. k n = g n @ h n"
  shows "keepBy T ls k ls''"
  unfolding keepBy_def
  by (rule list_all2_trans [OF _ assms(1,2) [unfolded keepBy_def]])
    (metis assms(3) keeps_def keeps_trans)

lemma keepBy_snoc:
  assumes "keepBy T ls (\<lambda>n. allGiven n es) ls'" and "keepBy T ls' (\<lambda>n. givenOf n l) ls''"
  shows "keepBy T ls (\<lambda>n. allGiven n (es @ [l])) ls''"
  by (rule keepBy_trans [OF assms]) simp

lemma keepBy_refl: "outputs_ok ls \<Longrightarrow> keepBy T ls (\<lambda>n. []) ls"
  using allKeep_refl by (simp add: keepBy_def allKeep_def)

lemma keepBy_hand:
  assumes "outputs_ok (sl_outputs bl)" and "levelNo level"
  shows "keepBy T (sl_outputs bl) (\<lambda>n. givenOf n (Gave name now level msg)) (sl_outputs (handTo now name level msg bl))"
proof -
  have "keepBy T ls (\<lambda>n. givenOf n (Gave name now level msg))
      (map (\<lambda>(n, w). (n, if n = name then snd (writer_write now msg level w) else w)) ls)" if "outputs_ok ls" for ls
    using that
  proof (induction ls)
    case (Cons l ls)
    obtain n w where l: "l = (n, w)" by (cases l)
    with Cons keeps_write [OF _ assms(2), of w now msg T n] keeps_refl [of "(n, w)" T] show ?case
      by (cases "n = name") (simp_all add: keepBy_def outputs_ok_def)
  qed (simp add: keepBy_def)
  with assms(1) show ?thesis by (simp add: handTo_def)
qed

lemma keepBy_act:
  assumes "outputs_ok ls" and "mayAct T name a ls"
  shows "keepBy T ls (\<lambda>n. []) (act name a ls)"
  using allKeep_act [OF assms] by (simp add: keepBy_def allKeep_def)

definition fifo :: "int \<Rightarrow> SimpleLogger \<Rightarrow> alabel list \<Rightarrow> alog \<Rightarrow> bool" where
  "fifo T bl ls s \<longleftrightarrow> sl_asynchronous (al_log s) \<and>
     keepBy T (sl_outputs bl) (\<lambda>n. allGiven n ls) (sl_outputs (al_log s)) \<and>
     list_all (\<lambda>m. levelNo (fst m)) (sl_msg (al_log s)) \<and>
     (\<forall>n \<in> set (writerNames bl). map unstamped (allGiven n ls) @ waitingFor n s = allSent ls) \<and>
     (case al_hand s of Some (level, msg, ns) \<Rightarrow> levelNo level \<and> distinct ns | None \<Rightarrow> True)"

lemma fifoD:
  assumes "fifo T bl ls s"
  shows "outputs_ok (sl_outputs (al_log s))" and "writerNames (al_log s) = writerNames bl"
  using assms keepBy_ok keepBy_names by (auto simp: fifo_def writerNames_def)

lemma log_step_async:
  assumes "log_step c bl = (Ok (), bl')" and "sl_asynchronous bl"
  shows "bl' = bl\<lparr>sl_msg := sl_msg bl @ map unstamped (messages bl [c])\<rparr>"
  using assms
  by (auto simp: log_step_def logger_method_level atLevel_def writerMsg_def ignoreErr_def callText_def Let_def unstamped_def
      split: if_splits)

lemma messages_one:
  assumes "messages bl [c] = [(now, msg, level)]"
  shows "levelNo level"
  using messages_levels [of bl "[c]"] assms by (simp del: messages_simps)

lemma takeMsg_Some: "takeMsg bl = Some (m, bl') \<longleftrightarrow> (\<exists>ms. sl_msg bl = m # ms \<and> bl' = bl\<lparr>sl_msg := ms\<rparr>)"
  by (auto simp: takeMsg_def split: list.splits)

text \<open>Every step but those of \<open>Close\<close> keeps the order.\<close>

lemma fifo_call:
  assumes "fifo T bl ls s" and "log_step c (al_log s) = (Ok (), bl')"
  shows "fifo T bl (ls @ [Called (map unstamped (messages (al_log s) [c]))]) (s\<lparr>al_log := bl'\<rparr>)"
proof -
  have b: "bl' = (al_log s)\<lparr>sl_msg := sl_msg (al_log s) @ map unstamped (messages (al_log s) [c])\<rparr>"
    using log_step_async [OF assms(2)] assms(1) by (simp add: fifo_def)
  have "list_all (\<lambda>m. levelNo (fst m)) (map unstamped (messages (al_log s) [c]))"
    using messages_levels [of "al_log s" "[c]"] by (simp add: list_all_iff unstamped_def split_beta del: messages_simps)
  with assms(1) show ?thesis unfolding b by (auto simp: fifo_def waitingFor_def inHand_def simp del: messages_simps)
qed

lemma fifo_give:
  assumes f: "fifo T bl ls s" and h: "al_hand s = Some (level, msg, ns)" "name \<in> set ns"
  shows "fifo T bl (ls @ [Gave name now level msg])
    (s\<lparr>al_log := handTo now name level msg (al_log s), al_hand := Some (level, msg, remove1 name ns)\<rparr>)"
proof -
  have l: "levelNo level" "distinct ns" using f h(1) by (simp_all add: fifo_def)
  from keepBy_hand [OF fifoD(1) [OF f] l(1)]
  have "keepBy T (sl_outputs bl) (\<lambda>n. allGiven n (ls @ [Gave name now level msg])) (sl_outputs (handTo now name level msg (al_log s)))"
    by (rule keepBy_snoc [rotated]) (use f in \<open>simp add: fifo_def\<close>)
  with f h l show ?thesis
    by (auto simp: fifo_def waitingFor_def inHand_def handTo_def unstamped_def set_remove1_eq)
qed

lemma fifo_acts:
  assumes "fifo T bl ls s" and "mayAct T name a (sl_outputs (al_log s))"
  shows "fifo T bl (ls @ [Quiet]) (s\<lparr>al_log := (al_log s)\<lparr>sl_outputs := act name a (sl_outputs (al_log s))\<rparr>\<rparr>)"
proof -
  have "keepBy T (sl_outputs bl) (\<lambda>n. allGiven n (ls @ [Quiet])) (act name a (sl_outputs (al_log s)))"
    by (rule keepBy_snoc) (use assms keepBy_act [OF fifoD(1) [OF assms(1)] assms(2)] in \<open>simp_all add: fifo_def\<close>)
  with assms(1) show ?thesis by (simp add: fifo_def waitingFor_def inHand_def)
qed

lemma fifo_step:
  assumes "astep T l s s'" and "fifo T bl ls s" and "distinct (writerNames bl)" and "al_close s' = NotClosing"
  shows "al_close s = NotClosing \<and> fifo T bl (ls @ [l]) s'"
  using assms
proof (induction rule: astep.induct)
  case (call c s bl')
  then show ?case using fifo_call by simp
next
  case (hand_over s c now msg level)
  with messages_one [OF hand_over(4)] fifoD(2) [OF hand_over(5)] show ?case
    by (auto simp: fifo_def waitingFor_def inHand_def)
next
  case (take s level msg bl')
  then obtain ms where "sl_msg (al_log s) = (level, msg) # ms" "bl' = (al_log s)\<lparr>sl_msg := ms\<rparr>"
    by (auto simp: takeMsg_Some)
  with take fifoD(2) [OF take(3)] show ?case
    by (auto simp: fifo_def waitingFor_def inHand_def writerNames_def)
next
  case (give s level msg ns name now)
  then show ?case using fifo_give by simp
next
  case (given s level msg)
  then show ?case by (auto simp: fifo_def waitingFor_def inHand_def)
next
  case (acts name a s)
  then show ?case using fifo_acts by simp
qed simp_all

lemma fifo_start:
  assumes "outputs_ok (sl_outputs bl)" and "sl_msg bl = []"
  shows "fifo T bl [] (startAsync bl)"
  using assms keepBy_refl by (simp add: fifo_def startAsync_def Async_def waitingFor_def inHand_def)

lemma fifo_path:
  assumes "apath T (startAsync bl) ls s" and "al_close s = NotClosing"
    and "outputs_ok (sl_outputs bl)" and "distinct (writerNames bl)" and "sl_msg bl = []"
  shows "fifo T bl ls s"
  using assms(1,2)
proof (induction rule: apath.induct)
  case here
  show ?case using fifo_start assms by simp
next
  case (further ls t l u)
  have "al_close t = NotClosing" using further(2,4) by (cases rule: astep.cases) simp_all
  with further fifo_step [OF further(2) _ assms(4)] show ?case by blast
qed

text \<open>As long as a message waits, the goroutine can go on.\<close>

lemma async_progress:
  assumes "al_hand s \<noteq> None \<or> sl_msg (al_log s) \<noteq> []"
  shows "\<exists>l s'. astep T l s s'"
proof (cases "al_hand s")
  case None
  with assms obtain level msg ms where "sl_msg (al_log s) = (level, msg) # ms" by (cases "sl_msg (al_log s)") auto
  then have "takeMsg (al_log s) = Some ((level, msg), (al_log s)\<lparr>sl_msg := ms\<rparr>)" by (simp add: takeMsg_def)
  from astep.take [OF None this] show ?thesis by blast
next
  case (Some h)
  obtain level msg ns where h: "h = (level, msg, ns)" by (cases h)
  show ?thesis
  proof (cases ns)
    case Nil
    with Some h astep.given [of s level msg T] show ?thesis by blast
  next
    case (Cons n r)
    with Some h astep.give [of s level msg ns n T] show ?thesis by auto
  qed
qed

section \<open>\<open>Close\<close> beside the goroutine\<close>

lemma apath_Cons: "astep T l s t \<Longrightarrow> apath T t ls u \<Longrightarrow> apath T s (l # ls) u"
proof (induction ls arbitrary: u rule: rev_induct)
  case Nil
  then have "u = t" by (auto elim: apath.cases)
  with Nil.prems(1) apath.further [OF apath.here, of T l s t] show ?case by simp
next
  case (snoc x xs)
  from snoc.prems(2) obtain v where "apath T t xs v" "astep T x v u" by (auto elim: apath.cases)
  with snoc.IH [OF snoc.prems(1)] apath.further [of T s "l # xs" v x u] show ?case by simp
qed

text \<open>\<open>Close\<close> can wait for ever: it has seen a message in the channel, the goroutine takes it before \<open>Close\<close> does, and
  nobody sends another.\<close>

lemma close_waits:
  assumes "al_close s = Looking" and "al_hand s = None" and "sl_msg (al_log s) = [(level, msg)]" and "sl_outputs (al_log s) = []"
  shows "\<exists>s'. apath T s [Quiet, Quiet, Quiet] s' \<and> al_close s' = Receiving \<and>
    (\<forall>l t. astep T l s' t \<longrightarrow> al_close t = Receiving \<and> (sl_msg (al_log t) = [] \<or> (\<exists>ms. l = Called ms)))"
proof -
  let ?bl = "(al_log s)\<lparr>sl_msg := []\<rparr>"
  let ?s1 = "s\<lparr>al_close := Receiving\<rparr>" let ?s2 = "?s1\<lparr>al_log := ?bl, al_hand := Some (level, msg, [])\<rparr>"
  let ?s3 = "?s2\<lparr>al_hand := None\<rparr>"
  have "astep T Quiet s ?s1" by (rule astep.close_some [OF assms(1)]) (simp add: assms(3))
  moreover have "takeMsg (al_log ?s1) = Some ((level, msg), ?bl)" using assms(3) by (simp add: takeMsg_def)
  from astep.take [OF _ this, of T] have "astep T Quiet ?s1 ?s2" using assms(2,4) by (simp add: writerNames_def)
  moreover have "astep T Quiet ?s2 ?s3" by (rule astep.given) simp
  ultimately have p: "apath T s [Quiet, Quiet, Quiet] ?s3" using apath_Cons apath.here by meson
  have "al_close t = Receiving \<and> (sl_msg (al_log t) = [] \<or> (\<exists>ms. l = Called ms))" if "astep T l ?s3 t" for l t
    using that by (cases rule: astep.cases) (auto simp: takeMsg_def)
  with p show ?thesis by (intro exI [of _ ?s3]) simp
qed

text \<open>\<open>Close\<close> can destroy a writer under a message: the goroutine has taken the last one, so the channel is empty
  and \<open>Close\<close> goes on to the writers; a file that is given the message after that is closed, and the message
  is lost without an error.\<close>

lemma close_loses:
  assumes "al_close s = Looking" and "al_hand s = Some (level, msg, [name])" and "sl_msg (al_log s) = []"
    and "sl_outputs (al_log s) = [(name, File w fs)]" and "ready w fs" and "\<not> due now w"
  shows "\<exists>s' w'. apath T s [Quiet, Quiet, Quiet, Gave name now level msg, Quiet] s' \<and> al_close s' = Closed \<and>
    al_hand s' = None \<and> sl_outputs (al_log s') = [(name, File w' fs)]"
proof -
  let ?s1 = "s\<lparr>al_close := Destroying [name]\<rparr>"
  let ?s2 = "?s1\<lparr>al_log := destroyOne name (al_log s), al_close := Destroying []\<rparr>"
  let ?s3 = "?s2\<lparr>al_close := Closed\<rparr>"
  let ?s4 = "?s3\<lparr>al_log := handTo now name level msg (destroyOne name (al_log s)), al_hand := Some (level, msg, [])\<rparr>"
  let ?s5 = "?s4\<lparr>al_hand := None\<rparr>"
  have "astep T Quiet s ?s1" using astep.close_none [OF assms(1,3), of T] assms(4) by (simp add: writerNames_def)
  moreover have "astep T Quiet ?s1 ?s2" using astep.close_destroy [of ?s1 "[name]" name T] by simp
  moreover have "astep T Quiet ?s2 ?s3" by (rule astep.close_done) simp
  moreover have "astep T (Gave name now level msg) ?s3 ?s4"
    using astep.give [of ?s3 level msg "[name]" name T now] assms(2) by simp
  moreover have "astep T Quiet ?s4 ?s5" by (rule astep.given) simp
  ultimately have p: "apath T s [Quiet, Quiet, Quiet, Gave name now level msg, Quiet] ?s5"
    using apath_Cons apath.here by meson
  have fd: "fw_fd (file_Destroy w) = ClosedFd" using assms(5) by (simp add: file_Destroy_def ready_def)
  have "\<not> due now (file_Destroy w)" using assms(6) by (simp add: due_def file_Destroy_def)
  then have "\<exists>r w'. file_WriteMsg now noFaults msg level (file_Destroy w) fs = (r, w', fs)"
    using fd by (auto simp: file_WriteMsg_def docheck_due writeLine_def)
  then obtain r w' where "file_WriteMsg now noFaults msg level (file_Destroy w) fs = (r, w', fs)" by blast
  then have "sl_outputs (handTo now name level msg (destroyOne name (al_log s))) = [(name, File w' fs)]"
    using assms(4) by (simp add: handTo_def destroyOne_def writer_write_def healthyEnv_def)
  with p show ?thesis by (intro exI [of _ ?s5] exI [of _ w']) simp
qed

section \<open>Properties\<close>


text \<open>A call, and the goroutine gives its message to the console; it is still to give it to the file.\<close>

lemma twoWriters_runs:
  defines "m \<equiv> str ''[???:0] [E] no x''"
  shows "\<exists>s. apath 9 (startAsync twoWriters) [Called [(3, m)], Quiet, Gave (str ''console'') someMoment 3 m] s \<and>
    al_close s = NotClosing \<and> waitingFor (str ''console'') s = [] \<and> waitingFor (str ''file'') s = [(3, m)]"
proof -
  let ?c = "sampleCalls ! 0" and ?a = "Async twoWriters"
  have m: "callText ?a ?c = m"
    by (simp add: m_def sampleCalls_def twoWriters_def defaultLogger_def callText_def messageText_def Sprintf_def verbText_def
      printArg_def extraText_def strText_def intText_def fileOf_def str_def decDigits.simps Async_def)
  have l: "lc_method ?c = MError" "sl_level ?a = 4" "sl_msg ?a = []" "sl_cap ?a = 10000" "sl_asynchronous ?a"
    by (simp_all add: sampleCalls_def twoWriters_def defaultLogger_def Async_def)
  let ?b = "?a\<lparr>sl_msg := [(3, m)]\<rparr>"
  have st: "log_step ?c ?a = (Ok (), ?b)"
    using l m by (simp add: log_step_def logger_method_level atLevel_def writerMsg_def ignoreErr_def callText_def Let_def)
  have ms: "map unstamped (messages ?a [?c]) = [(3, m)]" using l m by (simp add: unstamped_def)
  let ?s0 = "startAsync twoWriters" let ?s1 = "?s0\<lparr>al_log := ?b\<rparr>"
  let ?n = "[str ''console'', str ''file'']"
  let ?s2 = "?s1\<lparr>al_log := ?a, al_hand := Some (3, m, ?n)\<rparr>"
  let ?s3 = "?s2\<lparr>al_log := handTo someMoment (str ''console'') 3 m ?a, al_hand := Some (3, m, [str ''file''])\<rparr>"
  have "astep 9 (Called [(3, m)]) ?s0 ?s1"
    using astep.call [of ?c ?s0 ?b 9] st ms by (simp add: startAsync_def del: messages_simps)
  moreover have "?a\<lparr>sl_msg := []\<rparr> = ?a" by (simp add: Async_def twoWriters_def defaultLogger_def)
  then have "takeMsg (al_log ?s1) = Some ((3, m), ?a)" by (simp add: takeMsg_def)
  from astep.take [OF _ this, of 9] have "astep 9 Quiet ?s1 ?s2"
    by (simp add: startAsync_def writerNames_def Async_def twoWriters_def)
  moreover have "astep 9 (Gave (str ''console'') someMoment 3 m) ?s2 ?s3"
    using astep.give [of ?s2 3 m ?n "str ''console''" 9 someMoment] by simp
  ultimately have "apath 9 ?s0 [Called [(3, m)], Quiet, Gave (str ''console'') someMoment 3 m] ?s3"
    using apath_Cons apath.here by meson
  moreover have "sl_msg (handTo someMoment (str ''console'') 3 m ?a) = []" by (simp add: handTo_def l(3))
  ultimately show ?thesis
    by (intro exI [of _ ?s3]) (simp add: waitingFor_def inHand_def startAsync_def str_def)
qed


end
