(* ===== verification/Igo_Main.thy ===== *)
theory Igo_Main
  imports Server_Run Log_Safe
begin

text \<open>
  The program around the server: \<^verbatim>\<open>config/config.go\<close>, \<^verbatim>\<open>config/zk.go\<close> (the settings, which a small file names the
  ZooKeeper node of), \<^verbatim>\<open>cmd/igo/main.go\<close>, and the lines that \<^verbatim>\<open>server/server.go\<close> logs once a minute and before it ends.
  The TOML and ZooKeeper packages and the operating system are arguments.
\<close>

section \<open>The settings\<close>

datatype tval = TStr "byte list" | TInt int | TBool bool | TOther

definition toStr :: "(byte list \<Rightarrow> 'a) \<Rightarrow> tval \<Rightarrow> 'a option" where
  "toStr f v = (case v of TStr s \<Rightarrow> Some (f s) | _ \<Rightarrow> None)"

definition toInt :: "(int \<Rightarrow> 'a) \<Rightarrow> tval \<Rightarrow> 'a option" where
  "toInt f v = (case v of TInt n \<Rightarrow> Some (f n) | _ \<Rightarrow> None)"

definition toBool :: "(bool \<Rightarrow> 'a) \<Rightarrow> tval \<Rightarrow> 'a option" where
  "toBool f v = (case v of TBool b \<Rightarrow> Some (f b) | _ \<Rightarrow> None)"

text \<open>The fields of \<^verbatim>\<open>ServerConfig\<close> under the names of their tags, or their own when they have none. A value of
  the wrong type is an error; a key that is no name is passed over.\<close>

definition serverKey :: "byte list \<Rightarrow> tval \<Rightarrow> ServerConfig \<Rightarrow> ServerConfig option" where
  "serverKey k v c =
     (if EqualFold k (str ''listen'') then toStr (\<lambda>s. c\<lparr>cfg_Listen := s\<rparr>) v
      else if EqualFold k (str ''dbaddr'') then toStr (\<lambda>s. c\<lparr>cfg_Addr := s\<rparr>) v
      else if EqualFold k (str ''dbname'') then toStr (\<lambda>s. c\<lparr>cfg_DBName := s\<rparr>) v
      else if EqualFold k (str ''user'') then toStr (\<lambda>s. c\<lparr>cfg_User := s\<rparr>) v
      else if EqualFold k (str ''passwd'') then toStr (\<lambda>s. c\<lparr>cfg_Passwd := s\<rparr>) v
      else if EqualFold k (str ''collation'') then toStr (\<lambda>s. c\<lparr>cfg_Collation := s\<rparr>) v
      else if EqualFold k (str ''maxClient'') then toInt (\<lambda>n. c\<lparr>cfg_MaxClient := n\<rparr>) v
      else if EqualFold k (str ''writeTimeout'') then toInt (\<lambda>n. c\<lparr>cfg_WriteTimeout := n\<rparr>) v
      else if EqualFold k (str ''readTimeout'') then toInt (\<lambda>n. c\<lparr>cfg_ReadTimeout := n\<rparr>) v
      else if EqualFold k (str ''maxLifeTmie'') then toInt (\<lambda>n. c\<lparr>cfg_MaxLifeTime := n\<rparr>) v
      else if EqualFold k (str ''maxIdleConn'') then toInt (\<lambda>n. c\<lparr>cfg_MaxIdleConn := n\<rparr>) v
      else if EqualFold k (str ''maxConnNum'') then toInt (\<lambda>n. c\<lparr>cfg_MaxConnNum := n\<rparr>) v
      else if EqualFold k (str ''ColumnsWithAlias'') then toBool (\<lambda>b. c\<lparr>cfg_ColumnsWithAlias := b\<rparr>) v
      else if EqualFold k (str ''Strict'') then toBool (\<lambda>b. c\<lparr>cfg_Strict := b\<rparr>) v
      else Some c)"

fun decodeServer :: "(byte list \<times> tval) list \<Rightarrow> ServerConfig \<Rightarrow> ServerConfig option" where
  "decodeServer [] c = Some c"
| "decodeServer ((k, v) # kvs) c = (case serverKey k v c of None \<Rightarrow> None | Some c \<Rightarrow> decodeServer kvs c)"

text \<open>The settings written down under the tags.\<close>

definition serverTable :: "ServerConfig \<Rightarrow> (byte list \<times> tval) list" where
  "serverTable c =
     [(str ''listen'', TStr (cfg_Listen c)), (str ''dbaddr'', TStr (cfg_Addr c)), (str ''dbname'', TStr (cfg_DBName c)),
      (str ''user'', TStr (cfg_User c)), (str ''passwd'', TStr (cfg_Passwd c)), (str ''collation'', TStr (cfg_Collation c)),
      (str ''maxClient'', TInt (cfg_MaxClient c)), (str ''writeTimeout'', TInt (cfg_WriteTimeout c)),
      (str ''readTimeout'', TInt (cfg_ReadTimeout c)), (str ''maxLifeTmie'', TInt (cfg_MaxLifeTime c)),
      (str ''maxIdleConn'', TInt (cfg_MaxIdleConn c)), (str ''maxConnNum'', TInt (cfg_MaxConnNum c)),
      (str ''ColumnsWithAlias'', TBool (cfg_ColumnsWithAlias c)), (str ''Strict'', TBool (cfg_Strict c))]"

text \<open>The names in lower case, and that two of them differ when their texts do.\<close>

lemma key_names:
  "foldName (str ''listen'') = str ''listen''"
  "foldName (str ''dbaddr'') = str ''dbaddr''"
  "foldName (str ''dbname'') = str ''dbname''"
  "foldName (str ''user'') = str ''user''"
  "foldName (str ''passwd'') = str ''passwd''"
  "foldName (str ''collation'') = str ''collation''"
  "foldName (str ''maxClient'') = str ''maxclient''"
  "foldName (str ''writeTimeout'') = str ''writetimeout''"
  "foldName (str ''readTimeout'') = str ''readtimeout''"
  "foldName (str ''maxLifeTmie'') = str ''maxlifetmie''"
  "foldName (str ''maxIdleConn'') = str ''maxidleconn''"
  "foldName (str ''maxConnNum'') = str ''maxconnnum''"
  "foldName (str ''ColumnsWithAlias'') = str ''columnswithalias''"
  "foldName (str ''Strict'') = str ''strict''"
  "foldName (str ''schema'') = str ''schema''"
  "foldName (str ''maxLifeTime'') = str ''maxlifetime''"
  by code_simp+

lemma str_inject: "str a = str b \<longleftrightarrow> a = b"
  using chars_str by metis

lemmas key_simps = serverKey_def EqualFold_def key_names str_inject toStr_def toInt_def toBool_def

lemma settings_roundtrip: "decodeServer (serverTable c) zeroConfig = Some c"
  by (simp add: serverTable_def zeroConfig_def key_simps)

text \<open>The names that are not the tags set nothing: \<^verbatim>\<open>schema\<close>, under which the sample file has the database, and \<^verbatim>\<open>maxLifeTime\<close>.\<close>

lemma unknown_keys: "serverKey (str ''schema'') v c = Some c" "serverKey (str ''maxLifeTime'') v c = Some c"
  by (simp_all add: key_simps)

section \<open>Reading them\<close>

record ZKData =
  zd_Content :: "byte list"
  zd_ContentType :: "byte list"
  zd_Deleted :: int
  zd_Mtime :: int
  zd_Ptime :: int
  zd_State :: int

definition zeroZKData :: ZKData where
  "zeroZKData = \<lparr>zd_Content = [], zd_ContentType = [], zd_Deleted = 0, zd_Mtime = 0, zd_Ptime = 0, zd_State = 0\<rparr>"

text \<open>The tags of the fields, \<^verbatim>\<open>metadata\<close> a struct within.\<close>

definition zkMetadataFields :: "ZKData fields" where
  "zkMetadataFields =
     [(str ''content_type'', strField (\<lambda>v d. d\<lparr>zd_ContentType := v\<rparr>)), (str ''deleted'', intField (\<lambda>v d. d\<lparr>zd_Deleted := v\<rparr>)),
      (str ''mtime'', intField (\<lambda>v d. d\<lparr>zd_Mtime := v\<rparr>)), (str ''ptime'', intField (\<lambda>v d. d\<lparr>zd_Ptime := v\<rparr>)),
      (str ''state'', intField (\<lambda>v d. d\<lparr>zd_State := v\<rparr>))]"

definition zkDataFields :: "ZKData fields" where
  "zkDataFields =
     [(str ''content'', strField (\<lambda>v d. d\<lparr>zd_Content := v\<rparr>)),
      (str ''metadata'', structField zkMetadataFields (\<lambda>d. d) (\<lambda>m _. m))]"

record ZKConfig =
  zk_Addrs :: "byte list list"
  zk_Path :: "byte list"
  zk_Timeout :: int

text \<open>What the code calls outside, with errors of any type \<open>'e\<close> and their texts: the file, the TOML file of
  ZooKeeper settings, the connection, the node, the table \<^verbatim>\<open>[Server]\<close> of its content, and the errors for what is no JSON
  of the right types and for a value of a wrong type in the table.\<close>

record 'e outside =
  o_readFile :: "byte list \<Rightarrow> 'e + byte list"
  o_zkToml :: "byte list \<Rightarrow> 'e + ZKConfig"
  o_connect :: "byte list list \<Rightarrow> int \<Rightarrow> 'e option"
  o_get :: "byte list \<Rightarrow> 'e + byte list"
  o_badJson :: 'e
  o_table :: "byte list \<Rightarrow> 'e + (byte list \<times> tval) list"
  o_badType :: 'e
  o_text :: "'e \<Rightarrow> byte list"

type_synonym logs = "env \<times> caller_info"

definition logError :: "'e outside \<Rightarrow> logs \<Rightarrow> 'e \<Rightarrow> SimpleLogger \<Rightarrow> SimpleLogger" where
  "logError x l err bl = snd (logPrint MError (fst l) (snd l) [StrArg (o_text x err)] bl)"

text \<open>\<open>ZKConfig.Parse\<close>: every error is logged and returned; the node's path and content are logged.\<close>

definition zk_Parse :: "'e outside \<Rightarrow> logs \<Rightarrow> ZKConfig \<Rightarrow> SimpleLogger \<Rightarrow> ('e + ServerConfig) \<times> SimpleLogger" where
  "zk_Parse x l z bl =
     (case o_connect x (zk_Addrs z) (zk_Timeout z * 1000000000) of
        Some err \<Rightarrow> (Inl err, logError x l err bl)
      | None \<Rightarrow>
          (case o_get x (zk_Path z) of
             Inl err \<Rightarrow> (Inl err, logError x l err bl)
           | Inr data \<Rightarrow>
               (let bl = snd (logPrintf MInfo (fst l) (snd l) ''Load ZK Config: %v'' [StrArg (zk_Path z)] bl) in
                case Unmarshal zkDataFields data zeroZKData of
                  (ok, d) \<Rightarrow>
                    if \<not> ok then (Inl (o_badJson x), logError x l (o_badJson x) bl)
                    else
                      (let bl = snd (logPrintf MDebug (fst l) (snd l) (chars [0x0a] @ ''%v'') [StrArg (zd_Content d)] bl) in
                       case o_table x (zd_Content d) of
                         Inl err \<Rightarrow> (Inl err, logError x l err bl)
                       | Inr kvs \<Rightarrow>
                           (case decodeServer kvs zeroConfig of
                              None \<Rightarrow> (Inl (o_badType x), logError x l (o_badType x) bl)
                            | Some c \<Rightarrow> (Inr c, bl))))))"

definition ParseConfig :: "'e outside \<Rightarrow> logs \<Rightarrow> byte list \<Rightarrow> SimpleLogger \<Rightarrow> ('e + ServerConfig) \<times> SimpleLogger" where
  "ParseConfig x l fname bl =
     (case o_readFile x fname of
        Inl err \<Rightarrow> (Inl err, bl)
      | Inr content \<Rightarrow>
          (case o_zkToml x content of
             Inl err \<Rightarrow> (Inl err, bl)
           | Inr z \<Rightarrow> zk_Parse x l z bl))"

section \<open>The process\<close>

text \<open>\<^verbatim>\<open>flag.Parse\<close> with the one flag \<^verbatim>\<open>config\<close>: the file, or \<open>None\<close> when the usage is printed and the process exits with 2 (asking
  for help, too, in the Go of the time). Flags end at the first argument that is none.\<close>

definition flagValue :: "byte list \<Rightarrow> byte list \<times> byte list option" where
  "flagValue name =
     (let n = takeWhile (\<lambda>c. c \<noteq> 0x3d) name
      in (n, if n = name then None else Some (drop (Suc (length n)) name)))"

fun parseFlags :: "byte list list \<Rightarrow> byte list \<Rightarrow> byte list option" where
  "parseFlags [] configFile = Some configFile"
| "parseFlags (s # args) configFile =
     (if length s < 2 \<or> s ! 0 \<noteq> 0x2d \<or> s = [0x2d, 0x2d] then Some configFile
      else
        (let name = (if s ! 1 = 0x2d then drop 2 s else drop 1 s) in
         if name ! 0 = 0x2d \<or> name ! 0 = 0x3d then None
         else
           (case flagValue name of
              (n, v) \<Rightarrow>
                if n \<noteq> str ''config'' then None
                else
                  (case v of
                     Some v \<Rightarrow> parseFlags args v
                   | None \<Rightarrow> (case args of [] \<Rightarrow> None | v # args \<Rightarrow> parseFlags args v)))))"

lemma parseFlags_samples:
  "parseFlags [str ''-config=a.toml''] c = Some (str ''a.toml'')" "parseFlags [str ''--config'', str ''a.toml''] c = Some (str ''a.toml'')"
  "parseFlags [str ''-config''] c = None" "parseFlags [str ''-port=1''] c = None" "parseFlags [str ''a.toml''] c = Some c"
  by (simp_all add: flagValue_def str_def)

definition banner :: "byte list" where
  "banner = str '' '' @ [0x0a] @ str ''        Welcome IGO!'' @ [0x0a]"

text \<open>What the goroutine of the profiling server logs when that ends.\<close>

definition profiling_ended :: "'e outside \<Rightarrow> logs \<Rightarrow> 'e \<Rightarrow> SimpleLogger \<Rightarrow> SimpleLogger" where
  "profiling_ended x l err bl = logError x l err bl"

text \<open>How \<^verbatim>\<open>main\<close> goes on: it exits, the server runs, or it has returned with an error, which \<^verbatim>\<open>main\<close> logs.\<close>

datatype process = Exited int | Running Server | Ended gerror | Died

definition igo_main ::
  "'e outside \<Rightarrow> logs \<Rightarrow> (gerror \<Rightarrow> byte list) \<Rightarrow> byte list list \<Rightarrow> sock_err option \<Rightarrow> sock_err option \<Rightarrow> byte list \<Rightarrow>
   SimpleLogger \<Rightarrow> process \<times> SimpleLogger" where
  "igo_main x l etext args resolve listen addr bl =
     (case parseFlags args (str ''./igo_config.toml'') of
        None \<Rightarrow> (Exited 2, bl)
      | Some configFile \<Rightarrow>
          (case ParseConfig x l configFile bl of
             (Inl err, bl) \<Rightarrow> (Exited (- 1), logError x l err bl)
           | (Inr cfg, bl) \<Rightarrow>
               (case Run_start (NewServer cfg) resolve listen of
                  Ok s \<Rightarrow>
                    (Running s, snd (logPrintf MAlert (fst l) (snd l) ''Server Running on addr: %v, max client: %v''
                       [StrArg addr, IntArg ''int64'' (cfg_MaxClient cfg)] bl))
                | Err e \<Rightarrow> (Ended e, snd (logPrint MError (fst l) (snd l) [StrArg (etext e)] bl))
                | Panic \<Rightarrow> (Died, bl)
                | Spin \<Rightarrow> (Died, bl))))"

section \<open>After a panic\<close>

text \<open>\<^verbatim>\<open>utils.PrintPanicStack\<close>: what a session's goroutine writes to the standard error when it has panicked with the value
  whose text is \<open>x\<close>; \<open>trace\<close> is what \<^verbatim>\<open>runtime.Stack\<close> has to say, of which the array holds the beginning.\<close>

definition stack :: "byte list \<Rightarrow> byte list" where
  "stack trace = take 2048 trace"

definition PrintPanicStack :: "moment \<Rightarrow> byte list option \<Rightarrow> byte list \<Rightarrow> byte list \<Rightarrow> byte list" where
  "PrintPanicStack now recovered trace err =
     (case recovered of
        None \<Rightarrow> err
      | Some x \<Rightarrow> err @ logLine now x @ logLine now (stack trace))"

section \<open>The lines of the server\<close>

text \<open>The line of each minute, and the end by a signal.\<close>

definition sysInfo :: "logs \<Rightarrow> Server \<Rightarrow> SimpleLogger \<Rightarrow> SimpleLogger" where
  "sysInfo l s bl = snd (logPrintf MAlert (fst l) (snd l) ''SYS Info: curCli->%v/%v''
     [IntArg ''int64'' (ChanCount_Size (sv_count s)), IntArg ''int64'' (cfg_MaxClient (sv_cfg s))] bl)"

definition signal_exit :: "logs \<Rightarrow> int \<Rightarrow> SimpleLogger \<Rightarrow> process \<times> SimpleLogger" where
  "signal_exit l sig bl = (Exited 0, snd (logPrintf MWarn (fst l) (snd l) ''Got signal [%d] to exit.'' [IntArg ''syscall.Signal'' sig] bl))"

section \<open>What the console shows of the settings\<close>

definition consoleOnly :: "ConsoleWriter \<Rightarrow> SimpleLogger" where
  "consoleOnly c = defaultLogger\<lparr>sl_outputs := [(str ''console'', Console c)]\<rparr>"

definition shown :: "ConsoleWriter \<Rightarrow> byte list \<Rightarrow> ConsoleWriter" where
  "shown c t = c\<lparr>cw_out := cw_out c @ t\<rparr>"

lemma shown_simps [simp]: "cw_out (shown c t) = cw_out c @ t" "cw_Level (shown c t) = cw_Level c"
  by (simp_all add: shown_def)

lemma console_method:
  assumes "cw_Level c = 7"
  shows "snd (logger_method m (healthyEnv now) caller f v (consoleOnly c)) =
    consoleOnly (shown c (logLine now ((colors ! nat (level_iota (methodLevel m)))
      (messageText caller (Sprintf (levelTag (methodLevel m) @ f) v) defaultLogger))))"
  using assms level_range [of "methodLevel m"] levelNo_iota [of "methodLevel m"]
  by (simp add: logger_method_level atLevel_def consoleOnly_def defaultLogger_def writerMsg_def messageText_def Let_def
      ignoreErr_def healthyEnv_def console_WriteMsg_def brush_ok shown_def)

lemma console_print:
  assumes "cw_Level c = 7"
  shows "\<exists>t. snd (logPrint m (healthyEnv now) caller v (consoleOnly c)) = consoleOnly (shown c t)"
    and "\<exists>t. snd (logPrintf m (healthyEnv now) caller f v (consoleOnly c)) = consoleOnly (shown c t)"
  using console_method [OF assms] by (auto simp: logPrint_def logPrintf_def)

lemma brush_around: "\<exists>pre post. \<forall>t. (colors ! 7) t = pre @ t @ post"
  by (rule exI [of _ "0x1b # str ''['' @ str ''1;34'' @ str ''m''"], rule exI [of _ "0x1b # str ''[0m''"])
    (simp add: colors_def NewBrush_def)

lemma place_before: "\<exists>a. \<forall>t. messageText caller t defaultLogger = a @ t"
proof -
  obtain f n where p: "(case caller 3 of Some fl \<Rightarrow> fl | None \<Rightarrow> (str ''???'', 0)) = (f, n)" by fastforce
  show ?thesis
    by (rule exI [of _ "str ''['' @ fileOf f @ str '':'' @ intText None n @ str ''] ''"])
      (simp add: messageText_def defaultLogger_def p Sprintf_def verbText_def printArg_def strText_def extraText_def str_def)
qed

lemma console_text:
  assumes "cw_Level c = 7"
  shows "\<exists>pre post. snd (logPrintf MDebug (healthyEnv now) caller (chars [0x0a] @ ''%v'') [StrArg s] (consoleOnly c)) =
    consoleOnly (shown c (pre @ s @ post))"
proof -
  have f: "Sprintf (levelTag LevelDebug @ chars [0x0a] @ ''%v'') [StrArg s] = str ''[D] '' @ [0x0a] @ s"
    using scan_plain [OF chars_percent [of "[0x0a]"], of "''%v''" "[StrArg s]"]
    by (simp add: Sprintf_def verbText_def printArg_def strText_def extraText_def str_def)
  obtain a where ab: "\<And>t. messageText caller t defaultLogger = a @ t" using place_before [of caller] by auto
  obtain p q where pq: "\<And>t. (colors ! 7) t = p @ t @ q" using brush_around by auto
  show ?thesis
    using console_method [OF assms, of MDebug now caller "chars [0x0a] @ ''%v''" "[StrArg s]"]
    unfolding methodLevel.simps f
    by - (rule exI [of _ "now_stamp now @ p @ a @ str ''[D] '' @ [0x0a]"], rule exI [of _ "q @ [0x0a]"],
      simp add: logPrintf_def ab pq logLine_def)
qed

text \<open>C34: with the logger that the program starts with, the settings are written to the standard output as
  they are, password included, whatever follows from them.\<close>

theorem settings_shown:
  assumes "o_connect x (zk_Addrs z) (zk_Timeout z * 1000000000) = None" and "o_get x (zk_Path z) = Inr data"
    and "Unmarshal zkDataFields data zeroZKData = (True, d)"
  shows "\<exists>c pre post. sl_outputs (snd (zk_Parse x (healthyEnv now, caller) z defaultLogger)) = [(str ''console'', Console c)] \<and>
    cw_out c = pre @ zd_Content d @ post"
proof -
  have d: "defaultLogger = consoleOnly NewConsole" by (simp add: consoleOnly_def defaultLogger_def)
  have l: "cw_Level NewConsole = 7" by (simp add: NewConsole_def)
  from console_print(2) [OF l, of MInfo now caller "''Load ZK Config: %v''" "[StrArg (zk_Path z)]"] obtain t where
    1: "snd (logPrintf MInfo (healthyEnv now) caller ''Load ZK Config: %v'' [StrArg (zk_Path z)] defaultLogger) =
      consoleOnly (shown NewConsole t)" unfolding d by blast
  let ?c = "shown NewConsole t"
  from console_text [of ?c now caller "zd_Content d"] l obtain pre post where
    2: "snd (logPrintf MDebug (healthyEnv now) caller (chars [0x0a] @ ''%v'') [StrArg (zd_Content d)] (consoleOnly ?c)) =
      consoleOnly (shown ?c (pre @ zd_Content d @ post))" by auto
  let ?d = "shown ?c (pre @ zd_Content d @ post)"
  have 3: "\<exists>u. logError x (healthyEnv now, caller) err (consoleOnly ?d) = consoleOnly (shown ?d u)" for err
    using console_print(1) [of ?d MError now caller "[StrArg (o_text x err)]"] l by (simp add: logError_def)
  have "\<exists>u. snd (zk_Parse x (healthyEnv now, caller) z defaultLogger) = consoleOnly (shown ?d u)"
  proof (cases "o_table x (zd_Content d)")
    case (Inl err)
    with 3 [of err] show ?thesis by (simp add: zk_Parse_def assms 1 2)
  next
    case (Inr kvs)
    show ?thesis
    proof (cases "decodeServer kvs zeroConfig")
      case None
      with Inr 3 [of "o_badType x"] show ?thesis by (simp add: zk_Parse_def assms 1 2)
    next
      case (Some cfg)
      with Inr show ?thesis
        by (intro exI [of _ "[]"]) (simp add: zk_Parse_def assms 1 2, simp add: shown_def)
    qed
  qed
  then obtain u where "snd (zk_Parse x (healthyEnv now, caller) z defaultLogger) = consoleOnly (shown ?d u)" by blast
  then show ?thesis
    by - (rule exI [of _ "shown ?d u"], rule exI [of _ "cw_out ?c @ pre"], rule exI [of _ "post @ u"], simp add: consoleOnly_def)
qed

definition sampleNode :: "byte list" where
  "sampleNode = str ''{\"content\": \"secret\", \"metadata\": {\"state\": 1}}''"

definition sampleOutside :: "nat outside" where
  "sampleOutside = \<lparr>o_readFile = (\<lambda>_. Inr []), o_zkToml = (\<lambda>_. Inr \<lparr>zk_Addrs = [], zk_Path = str ''/igo'', zk_Timeout = 10\<rparr>), o_connect = (\<lambda>_ _. None), o_get = (\<lambda>_. Inr sampleNode),
     o_badJson = 2, o_table = (\<lambda>_. Inr (serverTable listenConn)), o_badType = 1, o_text = (\<lambda>_. [])\<rparr>"

lemma sampleNode_data:
  "Unmarshal zkDataFields sampleNode zeroZKData = (True, zeroZKData\<lparr>zd_Content := str ''secret'', zd_State := 1\<rparr>)"
proof -
  have "parseJson sampleNode =
      Some (JObj [(str ''content'', JStr (str ''secret'')), (str ''metadata'', JObj [(str ''state'', JNum (Some 1))])])" by code_simp
  then show ?thesis
    by (simp add: Unmarshal_def decodeKey_def zkDataFields_def zkMetadataFields_def structField_def field_defs EqualFold_def
        lowerByte_def str_def)
qed

theorem settings_shown_witness:
  "\<exists>c pre post. sl_outputs (snd (zk_Parse sampleOutside (healthyEnv aMoment, \<lambda>_. None)
      \<lparr>zk_Addrs = [], zk_Path = str ''/igo'', zk_Timeout = 10\<rparr> defaultLogger)) = [(str ''console'', Console c)] \<and>
    cw_out c = pre @ str ''secret'' @ post"
  using settings_shown [OF _ _ sampleNode_data, of sampleOutside "\<lparr>zk_Addrs = [], zk_Path = str ''/igo'', zk_Timeout = 10\<rparr>"
      aMoment "\<lambda>_. None"]
  by (simp add: sampleOutside_def)

section \<open>From the command line to the sessions\<close>

lemma sreachable_steps: "(sstep sha1 osText)\<^sup>*\<^sup>* s s' \<Longrightarrow> sreachable sha1 osText conf s \<Longrightarrow> sreachable sha1 osText conf s'"
  by (induction rule: rtranclp_induct) (auto intro: sreachable.another)

lemma Run_start_Ok: "Run_start s resolve listen = Ok s' \<Longrightarrow> resolve = None \<and> listen = None \<and> cfg_Listen (sv_cfg s) \<noteq> []"
  by (auto simp: Run_start_def InitDB_def split: res.splits if_splits option.splits)

lemma zk_Parse_Ok:
  assumes "fst (zk_Parse x l z bl) = Inr conf"
  obtains data d kvs where "o_get x (zk_Path z) = Inr data" and "Unmarshal zkDataFields data zeroZKData = (True, d)"
    and "o_table x (zd_Content d) = Inr kvs" and "decodeServer kvs zeroConfig = Some conf"
  using assms by (auto simp: zk_Parse_def Let_def split: option.splits sum.splits prod.splits if_splits)

text \<open>C5: whatever the command line, the files and the node hold: if \<^verbatim>\<open>main\<close> comes to run the server, then the flags were right,
  the node's content was JSON with a table of settings of the right types that names an address, and as long as the
  server runs, whatever happens, no more sessions are open than these settings say.\<close>

theorem main_serves:
  assumes "fst (igo_main x l etext args resolve listen addr bl) = Running s" and "(sstep sha1 osText)\<^sup>*\<^sup>* s s'"
  shows "\<exists>f content z data d kvs conf. parseFlags args (str ''./igo_config.toml'') = Some f \<and> o_readFile x f = Inr content \<and>
    o_zkToml x content = Inr z \<and> o_get x (zk_Path z) = Inr data \<and> Unmarshal zkDataFields data zeroZKData = (True, d) \<and>
    o_table x (zd_Content d) = Inr kvs \<and> decodeServer kvs zeroConfig = Some conf \<and> cfg_Listen conf \<noteq> [] \<and>
    sreachable sha1 osText conf s' \<and>
    int (length (sv_live s')) \<le> (if cfg_MaxClient conf \<le> 0 then 1024 else cfg_MaxClient conf)"
proof -
  from assms(1) obtain f conf where f: "parseFlags args (str ''./igo_config.toml'') = Some f"
    and c: "fst (ParseConfig x l f bl) = Inr conf" and r: "Run_start (NewServer conf) resolve listen = Ok s"
    by (auto simp: igo_main_def split: option.splits prod.splits sum.splits res.splits)
  from c obtain content z where z: "o_readFile x f = Inr content" "o_zkToml x content = Inr z"
    and p: "fst (zk_Parse x l z bl) = Inr conf" by (auto simp: ParseConfig_def split: sum.splits)
  from p obtain data d kvs where d: "o_get x (zk_Path z) = Inr data" "Unmarshal zkDataFields data zeroZKData = (True, d)"
    "o_table x (zd_Content d) = Inr kvs" "decodeServer kvs zeroConfig = Some conf" by (rule zk_Parse_Ok)
  from Run_start_Ok [OF r] have n: "resolve = None" "listen = None" "cfg_Listen conf \<noteq> []" by (simp_all add: NewServer_def)
  with r have s': "sreachable sha1 osText conf s'" using sreachable_steps [OF assms(2)] sreachable.running by blast
  from sreachable_inv [OF this] have "counted s'" "sv_cfg s' = conf" by (simp_all add: pooled_def)
  then have "int (length (sv_live s')) \<le> (if cfg_MaxClient conf \<le> 0 then 1024 else cfg_MaxClient conf)"
    using chan_count.size_range [of "sv_count s'"] by (auto simp: counted_def split: if_splits)
  with f z d n s' show ?thesis by blast
qed

lemma sample_main:
  "fst (igo_main sampleOutside (healthyEnv aMoment, \<lambda>_. None) (\<lambda>_. []) [str ''-config=igo.toml''] None None [] defaultLogger) =
    Running ((NewServer listenConn)\<lparr>sv_db := Some (the_db 1)\<rparr>)"
proof -
  have "parseFlags [str ''-config=igo.toml''] (str ''./igo_config.toml'') = Some (str ''igo.toml'')"
    by (simp add: flagValue_def str_def)
  moreover have "Run_start (NewServer listenConn) None None = Ok ((NewServer listenConn)\<lparr>sv_db := Some (the_db 1)\<rparr>)"
    by (simp add: Run_start_def InitDB_def NewServer_def Open_def listenConn_def oneConn_def zeroConfig_def the_db_def)
  ultimately show ?thesis
    by (simp add: igo_main_def ParseConfig_def zk_Parse_def sampleOutside_def Let_def sampleNode_data settings_roundtrip
        del: parseFlags.simps)
qed

theorem main_serves_witness:
  "\<exists>f content z data d kvs conf. parseFlags [str ''-config=igo.toml''] (str ''./igo_config.toml'') = Some f \<and>
    o_readFile sampleOutside f = Inr content \<and> o_zkToml sampleOutside content = Inr z \<and>
    o_get sampleOutside (zk_Path z) = Inr data \<and> Unmarshal zkDataFields data zeroZKData = (True, d) \<and>
    o_table sampleOutside (zd_Content d) = Inr kvs \<and> decodeServer kvs zeroConfig = Some conf \<and> cfg_Listen conf \<noteq> [] \<and>
    sreachable (\<lambda>x. x) (\<lambda>e. []) conf ((NewServer listenConn)\<lparr>sv_db := Some (the_db 1)\<rparr>) \<and>
    int (length (sv_live ((NewServer listenConn)\<lparr>sv_db := Some (the_db 1)\<rparr>))) \<le>
      (if cfg_MaxClient conf \<le> 0 then 1024 else cfg_MaxClient conf)"
  by (rule main_serves [OF sample_main rtranclp.rtrancl_refl])

end
