(* ===== verification/Spec2Isabelle.thy ===== *)
theory Spec2Isabelle
  imports Mysql_Escape Mysql_Auth Mysql_NewErr Mysql_NullTime Mysql_Tls Server_Total Log_Init Log_Async Igo_Main
begin

text \<open>
  igo is a proxy for MySQL, written in Go: it speaks the MySQL protocol to its clients as a server, and to
  a database as a client. This library models the program as it is written and proves what its parts do.

  \<^bold>\<open>The program.\<close> \<^verbatim>\<open>server/server.go\<close> accepts connections, counts them (\<^verbatim>\<open>server/count.go\<close>) and gives each its own
  goroutine, which runs the handshake and then one command after the other (\<^verbatim>\<open>server/client.go\<close>). A command
  takes a connection from the pool (\<^verbatim>\<open>server/mysql_db.go\<close>), sends the database one or two packets and
  collects the packets of the answer (\<^verbatim>\<open>server/mysql_conn.go\<close>, \<^verbatim>\<open>server/mysql_tx.go\<close>), gives the connection
  back and sends the packets on. Both sides read and write through \<^verbatim>\<open>server/packets.go\<close>, which cuts packets
  into frames, and \<^verbatim>\<open>server/buffer.go\<close>, which owns the bytes read from the socket. \<^verbatim>\<open>mysql/\<close> holds constants,
  tables, error values and codecs, \<^verbatim>\<open>log/\<close> the logger that all of it calls, \<^verbatim>\<open>config/\<close> the settings.

  \<^bold>\<open>How Go becomes HOL.\<close> Go's fixed-width integers are words, \<^verbatim>\<open>int\<close> is \<open>int\<close> where it only counts bytes that
  exist. The outcome of a call is a \<open>res\<close>: \<open>Ok\<close>, \<open>Err\<close> with the error value, \<open>Panic\<close>, or \<open>Spin\<close> for a loop
  that never returns. A slice is a \<open>gslice\<close>: what can be seen, what lies behind it up to its capacity, and for
  a slice of the read buffer the array and the place it came from, so that a later read shows through it. A
  method that changes its receiver returns it: \<open>bindS\<close> threads a record through the calls, \<open>bindR\<close> a pure
  result. A socket is the list of what its \<^verbatim>\<open>Read\<close> calls return and what its \<^verbatim>\<open>Write\<close> calls accept, in any
  pieces and with any errors.

  \<^bold>\<open>Theories.\<close>
  \<^item> \<open>Mysql_Error\<close>, \<open>Go_Prelude\<close>: the error values (\<^verbatim>\<open>mysql/error.go\<close>) and what all parts share: \<open>res\<close>, slices, \<open>copy\<close>,
    bytes of words, the bind rules.
  \<^item> \<open>Mysql_Codec\<close>: length-encoded integers and strings, little-endian numbers, decimal text (\<^verbatim>\<open>utils.go\<close>, the section
    on bytes; the two files \<^verbatim>\<open>mysql/utils.go\<close> and \<^verbatim>\<open>server/utils.go\<close> hold the same functions line for line, so one
    definition stands for both). Round trips, the errors of truncated input, equivalence of the capitalised copies.
  \<^item> \<open>Mysql_Escape\<close>: \<^verbatim>\<open>escapeBytesBackslash\<close> and the three functions beside it, with a lexer of MySQL string literals
    as their inverse. The lexer takes the character set of the connection as an argument: the round trip holds where no
    longer character ends in an ASCII byte, and \<open>escape_gbk_broken\<close> shows gbk, where it does not.
  \<^item> \<open>Mysql_Auth\<close>: password tokens; SHA-1 and \<^verbatim>\<open>rand.Intn\<close> are arguments.
  \<^item> \<open>Mysql_Time\<close>: binary dates and times (\<^verbatim>\<open>formatBinaryDateTime\<close>, \<^verbatim>\<open>parseBinaryDateTime\<close>) against the text
    \<^verbatim>\<open>YYYY-MM-DD HH:MM:SS.ffffff\<close>. \<open>Mysql_NullTime\<close>: the text read back (\<^verbatim>\<open>parseDateTime\<close>, \<^verbatim>\<open>NullTime\<close>) through a model of
    \<^verbatim>\<open>time.Parse\<close>, and the agreement of the text and the binary way.
  \<^item> \<open>Mysql_Tls\<close>: the registry of TLS configurations and its reserved keys.
  \<^item> \<open>Go_Text\<close>: runes, names without case, decimal digits. \<open>Json_Text\<close>: \<^verbatim>\<open>encoding/json\<close> as the configurations use it, from the
    bytes to the fields of a struct; the reader gets every value back from its tokens.
  \<^item> \<open>Mysql_Const\<close>, \<open>Mysql_Collations\<close>, \<open>Mysql_Tables\<close>: the constants and the tables of collations, error codes, messages and
    SQL states. \<open>Mysql_NewErr\<close>: how an error number becomes a message (\<^verbatim>\<open>NewErr\<close>, \<^verbatim>\<open>NewErrf\<close>, \<^verbatim>\<open>fmt.Sprintf\<close> for the verbs of
    the table).
  \<^item> \<open>Log_Types\<close>: levels, lines, files, and the locale \<open>LoggerInterface\<close>, the contract of a writer. \<open>Log_File\<close> (\<^verbatim>\<open>log/file.go\<close>),
    \<open>Log_Writers\<close> (\<^verbatim>\<open>console.go\<close>, \<^verbatim>\<open>conn.go\<close>, \<^verbatim>\<open>nsq.go\<close>) and \<open>Log_Logger\<close> (\<^verbatim>\<open>log.go\<close>, \<^verbatim>\<open>init.go\<close>) interpret it: file, console, connection,
    queue, and any registered writer.
  \<^item> \<open>Log_Run\<close>: what a sequence of calls leaves in the logs while the goroutines that remove old files act as they will;
    texts with a percent sign. \<open>Log_Async\<close>: the logger behind its channel as a step relation: callers, the goroutine
    \<^verbatim>\<open>startLogger\<close> and \<^verbatim>\<open>Close\<close> interleave between any two of their sends, receives and calls of a writer. \<open>Log_Safe\<close>: any
    operations of a synchronous logger that one goroutine uses, under any errors, and writers whose \<open>Init\<close> has failed.
    \<open>Log_Init\<close>: which file \<^verbatim>\<open>log.Init\<close> opens.
  \<^item> \<open>Server_Buffer\<close>: the read buffer; \<open>readNext\<close> implements a stream of bytes (locale \<open>byte_source\<close>) and always returns.
  \<^item> \<open>Server_Types\<close>: configuration, connection, statement, client.
  \<^item> \<open>Server_Packets\<close>: \<open>readPacket\<close>, \<open>writePacket\<close> and \<open>writeResultPackets\<close>, for a client and for a database connection. The
    locale of packet layers states the contract once and both kinds of connection interpret it.
  \<^item> \<open>Server_Conn\<close>: commands and answers: OK packets, error packets, result sets, prepared statements.
    \<open>Server_Handshake\<close>: the connection phase with the database.
  \<^item> \<open>Server_Alias\<close>: what becomes of the collected packets when a later read refills the buffer: an answer that one \<^verbatim>\<open>Read\<close>
    delivers stays as it was, one that takes two does not.
  \<^item> \<open>Server_Count\<close>: the two counters and their use by the accept loop, as a locale that both interpret.
  \<^item> \<open>Server_Pool\<close>: the pool as a step relation: the opener goroutine and the callers under the mutex interleave. Since the
    opener changes \<^verbatim>\<open>numOpen\<close> without the mutex, its increment and the decrement of \<^verbatim>\<open>putConn\<close> are a load and a store each;
    \<open>orderly\<close> are the states of the runs in which neither overwrites the other.
  \<^item> \<open>Server_Client\<close>: the handshake and every command handler; \<open>Server_Session\<close>: what the handlers do, errors included.
    \<open>Server_Transcript\<close>: a whole session.
  \<^item> \<open>Server_Run\<close>: the server as a step relation (\<^verbatim>\<open>Run\<close>, \<^verbatim>\<open>handleClient\<close>, \<^verbatim>\<open>InitDB\<close>, \<^verbatim>\<open>GetDB\<close>): accept loop, sessions and
    pool interleave. Its invariant joins the counter, the sessions and the pool; and prepared statements use
    the pool up.
  \<^item> \<open>Server_Total\<close>: no call of the server loops for ever; every operation on a connection keeps its buffer in order.
  \<^item> \<open>Igo_Main\<close>: the settings from their file and ZooKeeper (\<^verbatim>\<open>config/\<close>), \<^verbatim>\<open>main\<close> with its flags, what of it is
    logged, and what a recovered panic prints (\<^verbatim>\<open>utils/utils.go\<close>).

  \<^bold>\<open>What is shown.\<close> From the bytes up: the buffer is a stream whatever pieces the socket delivers, so packets
  round-trip, so an answer of the database is collected exactly, so a session whose answers come in one \<^verbatim>\<open>Read\<close> each sends exactly the
  greeting, the OK packet and the answers. The same model also shows where the program does something else: an answer that
  takes two reads is forwarded overwritten, because the packets are slices of the buffer; an empty packet
  makes the session panic; an error of the database closes the session, or for a prepared statement is
  reported as success; \<^verbatim>\<open>COM_INIT_DB\<close> sends a letter as its command; the pool opens more than its maximum, and when the
  two goroutines that count its connections overwrite each other's result, the pool ends in a deadlock; a connection the database has closed goes back into the pool; a packet that is a multiple of the largest
  frame is refused. Each of these is a theorem about the handler that does it. The
  logger delivers every message to every writer, whatever their kinds, and a log file loses nothing over its rotations
  before the days of its retention are over; unless a rename fails, or a configuration is wrong, which silences it, or
  the file itself is so old that the sweep removes it while it is open. Behind its channel the logger keeps the order of
  the messages while it is not closed; \<^verbatim>\<open>Close\<close> beside the goroutine may wait for ever or destroy the writers under a
  message. \<^verbatim>\<open>log.Init\<close> takes a
  file name through JSON without quoting it and may open another file. From the command line to the sessions: a
  server that \<^verbatim>\<open>main\<close> runs keeps to the settings of its node.

  \<^bold>\<open>Loops and bounds.\<close> No definition takes fuel. Loops over data are structural or have a termination proof by a
  measure: the rest of the packet (\<open>writeLoop\<close>), the bytes in the buffer and the events of the socket
  (\<open>fillLoop\<close>, \<open>readPacketLoop\<close>, \<open>readUntilEOF\<close>), the commands (\<open>acceptLoop\<close>, which runs over the results of the pool it is
  given). A socket that has nothing more to say reads as closed. A \<^verbatim>\<open>Read\<close> into an empty slice gives nothing and
  no error, so that \<^verbatim>\<open>fill\<close> would try for ever: that is the value \<open>Spin\<close>, and \<open>Server_Total\<close> shows that no
  reachable state of the server comes to it. A send to a full channel that nobody empties is \<open>Spin\<close> too. Runs of the pool,
  the server and the asynchronous logger are of any length. Bounds in the theorems are those of the protocol (a frame holds less than \<open>2 ^ 24\<close>
  bytes) or of the buffer (4096 bytes at first).

  \<^bold>\<open>Not modelled.\<close> Most log lines of the sessions are left out of the handlers, since they decide nothing in the
  protocol. Dialling, the keep-alive call, the clock, \<^verbatim>\<open>runtime.Caller\<close>, \<^verbatim>\<open>runtime.Stack\<close>, SHA-1, the TOML and ZooKeeper
  packages and the errors of the operating system are arguments; the profiling server is only the error that
  it may end with. JSON has no limit of depth, as in the Go of the time. \<open>Sprintf\<close> has the flag \<open>-\<close>, a precision
  and the verbs that the program's formats use; widths and other flags are not in it. The look of the sweep at a file and the removal
  of that file are one step. \<^verbatim>\<open>SetLogger\<close> and \<^verbatim>\<open>DelLogger\<close> beside the running goroutine (the map of writers is not locked there)
  and a second call of \<^verbatim>\<open>Async\<close> are not in the runs of \<open>Log_Async\<close>. No other process
  touches the log files, and a file's name is taken literally. The location of the settings is left out.
\<close>

end
